(* ===== verification/Prelude.thy ===== *)
theory Prelude
  imports
    Main
    "HOL-Library.Word"
    "HOL-Library.State_Monad"
    "HOL-Library.Multiset"
    "HOL-Library.Sublist"
    "HOL-Library.Char_ord"
    "HOL-Library.List_Lexorder"
begin

text \<open>
  Shared vocabulary of the development: the types Go values are modelled with, nil-able
  slices, the state monad's return under a short name, SQL's \<open>UPDATE ... WHERE\<close> on a table
  that is a list of rows, and the generic lemmas the component theories rest on.

  The named collections: \<open>guar_rules\<close> are the introduction rules that take a handler
  apart into its database statements, \<open>sql_simps\<close> the facts on conditional updates.
\<close>

named_theorems sql_simps "conditional updates of a table"
named_theorems run_simps "evaluation of store operations"

subsection \<open>Types\<close>

text \<open>
  A UUID is 16 bytes; its byte-wise order is the order of the 128-bit number. Byte slices
  and Go strings are both lists of bytes. A time is counted in microseconds since the Unix
  epoch, the resolution of Postgres' \<open>timestamptz\<close>.
\<close>

type_synonym uuid = "128 word"
type_synonym bytes = string
type_synonym time = int

text \<open>A slice that may be nil: \<open>None\<close> is nil. Ranging over nil visits nothing, \<open>len\<close> is 0.\<close>

type_synonym 'a slice = "'a list option"

definition elems :: "'a slice \<Rightarrow> 'a list" where
  "elems s = (case s of None \<Rightarrow> [] | Some xs \<Rightarrow> xs)"

lemma elems_simps [simp]: "elems None = []" "elems (Some xs) = xs"
  by (simp_all add: elems_def)

text \<open>Reading a missing key of a map of slices yields the empty slice.\<close>

definition map_get :: "('k \<rightharpoonup> 'v list) \<Rightarrow> 'k \<Rightarrow> 'v list" where
  "map_get m k = (case m k of None \<Rightarrow> [] | Some xs \<Rightarrow> xs)"

lemma map_get_upd [simp]: "map_get (m(k \<mapsto> v)) k' = (if k' = k then v else map_get m k')"
  by (simp add: map_get_def)

lemma map_get_empty [simp]: "map_get Map.empty k = []"
  by (simp add: map_get_def)

subsection \<open>State monad\<close>

abbreviation ret :: "'a \<Rightarrow> ('s, 'a) state" where
  "ret \<equiv> State_Monad.return"

text \<open>
  A relation between the state before and after is kept by a composed action when it is
  reflexive, transitive and kept by its parts.
\<close>

lemma io_rel_return: "(\<And>s. R s s) \<Longrightarrow> state_io_rel R (ret a)"
  by (simp add: state_io_rel_def)

lemma io_rel_bind:
  assumes "\<And>a b c. R a b \<Longrightarrow> R b c \<Longrightarrow> R a c"
    and "state_io_rel R m" and "\<And>a. state_io_rel R (f a)"
  shows "state_io_rel R (State_Monad.bind m f)"
  unfolding state_io_rel_def
proof
  fix s
  obtain a s' where m: "run_state m s = (a, s')" by (cases "run_state m s")
  have "R s s'" using assms(2) m by (rule state_io_relD)
  moreover have "R s' (snd (run_state (f a) s'))"
    using assms(3) by (simp add: state_io_rel_def)
  ultimately show "R s (snd (run_state (State_Monad.bind m f) s))"
    using assms(1) m by simp
qed

subsection \<open>Tables as lists of rows\<close>

text \<open>
  \<open>UPDATE t SET f WHERE P\<close>: every row that satisfies \<open>P\<close> is rewritten; the count is
  the command tag's \<open>RowsAffected\<close>.
\<close>

definition update_where :: "('r \<Rightarrow> bool) \<Rightarrow> ('r \<Rightarrow> 'r) \<Rightarrow> 'r list \<Rightarrow> 'r list" where
  "update_where P f rows = map (\<lambda>r. if P r then f r else r) rows"

definition rows_affected :: "('r \<Rightarrow> bool) \<Rightarrow> 'r list \<Rightarrow> nat" where
  "rows_affected P rows = length (filter P rows)"

lemma length_update_where [simp]: "length (update_where P f rows) = length rows"
  by (simp add: update_where_def)

lemma update_where_Nil [simp]: "update_where P f [] = []"
  by (simp add: update_where_def)

lemma update_where_Cons [simp]:
  "update_where P f (r # rows) = (if P r then f r else r) # update_where P f rows"
  by (simp add: update_where_def)

lemma nth_update_where [sql_simps]:
  "i < length rows \<Longrightarrow> update_where P f rows ! i = (if P (rows ! i) then f (rows ! i) else rows ! i)"
  by (simp add: update_where_def)

lemma rows_affected_Nil [simp]: "rows_affected P [] = 0"
  by (simp add: rows_affected_def)

lemma rows_affected_Cons [simp]:
  "rows_affected P (r # rows) = (if P r then Suc (rows_affected P rows) else rows_affected P rows)"
  by (simp add: rows_affected_def)

lemma rows_affected_0 [sql_simps]: "rows_affected P rows = 0 \<longleftrightarrow> (\<forall>r\<in>set rows. \<not> P r)"
  by (auto simp: rows_affected_def filter_empty_conv)

lemma update_where_none [sql_simps]: "\<forall>r\<in>set rows. \<not> P r \<Longrightarrow> update_where P f rows = rows"
  by (induction rows) auto

lemma set_update_where [sql_simps]:
  "set (update_where P f rows) = (\<lambda>r. if P r then f r else r) ` set rows"
  by (simp add: update_where_def)

lemma map_update_where_same [sql_simps]:
  "(\<And>r. P r \<Longrightarrow> k (f r) = k r) \<Longrightarrow> map k (update_where P f rows) = map k rows"
  by (induction rows) auto

lemma image_update_where [sql_simps]:
  assumes "\<And>r. P r \<Longrightarrow> k (f r) = k r"
  shows "k ` set (update_where P f rows) = k ` set rows"
proof -
  have "map k (update_where P f rows) = map k rows" using assms by (rule map_update_where_same)
  then show ?thesis by (metis image_set)
qed

lemma filter_update_where [sql_simps]:
  "(\<And>r. P r \<Longrightarrow> Q (f r) = Q r) \<Longrightarrow>
    filter Q (update_where P f rows) = update_where P f (filter Q rows)"
  by (induction rows) auto

lemma rev_update_where [sql_simps]: "rev (update_where P f rows) = update_where P f (rev rows)"
  by (simp add: update_where_def rev_map)

lemma find_update_where [sql_simps]:
  "(\<And>r. P r \<Longrightarrow> Q (f r) = Q r) \<Longrightarrow>
    find Q (update_where P f rows) = map_option (\<lambda>r. if P r then f r else r) (find Q rows)"
  by (induction rows) auto

lemma list_all2_update_where [sql_simps]:
  "(\<And>r. Q r r) \<Longrightarrow> (\<And>r. P r \<Longrightarrow> Q r (f r)) \<Longrightarrow> list_all2 Q rows (update_where P f rows)"
  by (induction rows) auto

lemma rows_affected_key [sql_simps]:
  "(\<And>r. P r \<Longrightarrow> k (f r) = k r) \<Longrightarrow>
    rows_affected (\<lambda>r. k r = x) (update_where P f rows) = rows_affected (\<lambda>r. k r = x) rows"
  by (induction rows) auto

text \<open>The first row of a table with a given key, as a query for one row returns it.\<close>

lemma find_Some_set: "find P xs = Some x \<Longrightarrow> x \<in> set xs \<and> P x"
  by (induction xs) (auto split: if_splits)

lemma find_None_iff': "find P xs = None \<longleftrightarrow> (\<forall>x\<in>set xs. \<not> P x)"
  by (auto simp: find_None_iff)

lemma find_snoc: "find P (xs @ [x]) = (case find P xs of None \<Rightarrow> if P x then Some x else None | Some y \<Rightarrow> Some y)"
  by (induction xs) auto

lemma find_unique_key:
  "distinct (map k rows) \<Longrightarrow> r \<in> set rows \<Longrightarrow> find (\<lambda>r'. k r' = k r) rows = Some r"
  by (induction rows) (auto simp: rev_image_eqI)

end
