(* ===== verification/Store_Model.thy ===== *)
theory Store_Model
  imports Prelude
begin

text \<open>
  The rows of the Postgres tables as the Go structs of \<open>internal/store\<close> and
  \<open>internal/logstore\<close> hold them, the database as a record of tables, the server process
  (database, in-memory notifier, in-memory log subscribers, commit statuses posted) and the
  environment a statement runs in.

  A statement is atomic. Between two statements of one handler the other sessions of the
  server may commit: \<open>other E n\<close> is what they did to the database before this handler's
  \<open>n\<close>-th interaction. A statement may also fail (\<open>fault E n\<close>), and then it changes
  nothing: the connection is lost, the context of the caller is done, or Postgres refuses a
  value, as a text with a NUL byte. The clock and \<open>uuid.New\<close> are read from the environment, and so is what
  Postgres makes of a text stored in a \<open>jsonb\<close> column: its own rendering of the value, or
  an error for a text that is not JSON.
\<close>

subsection \<open>Rows\<close>

record Run =
  run_ID :: uuid
  run_Repo :: string
  run_Ref :: string
  run_SHA :: string
  run_Event :: string
  run_EventPayloadJSON :: "char slice"
  run_TriggeredBy :: string
  run_Status :: string
  run_WorkflowYAML :: string
  run_CreatedAt :: time

record Job =
  j_ID :: uuid
  j_RunID :: uuid
  j_JobIDYAML :: string
  j_Name :: string
  j_MatrixCellJSON :: "char slice"
  j_Needs :: "string slice"
  j_IfExpr :: "string option"
  j_Status :: string
  j_RunnerID :: "uuid option"
  j_LeaseID :: "uuid option"
  j_LeaseDeadline :: "time option"
  j_Result :: "string option"
  j_StartedAt :: "time option"
  j_FinishedAt :: "time option"

record Step =
  st_ID :: uuid
  st_JobRowID :: uuid
  st_StepIndex :: int
  st_Name :: string
  st_Status :: string
  st_StartedAt :: "time option"
  st_FinishedAt :: "time option"

record Runner =
  rn_ID :: uuid
  rn_Name :: string
  rn_Labels :: "string slice"
  rn_Mode :: string
  rn_Capacity :: int
  rn_Version :: string
  rn_Status :: string
  rn_LastHeartbeat :: "time option"
  rn_CreatedAt :: time
  rn_AuthToken :: string

record JobOutput =
  o_JobRowID :: uuid
  o_Key :: string
  o_Value :: string

text \<open>A log chunk (\<open>logstore.Chunk\<close>). Its table row has no job id: \<open>Append\<close> leaves it out.\<close>

record Chunk =
  c_JobRowID :: uuid
  c_LeaseID :: uuid
  c_StepID :: string
  c_Seq :: int
  c_Ts :: time
  c_Data :: "char slice"

record ChunkRow =
  lc_LeaseID :: uuid
  lc_StepID :: string
  lc_Seq :: int
  lc_Ts :: time
  lc_Data :: bytes

subsection \<open>Database, process and environment\<close>

record database =
  runners :: "Runner list"
  workflow_runs :: "Run list"
  jobs :: "Job list"
  steps :: "Step list"
  job_outputs :: "JobOutput list"
  log_chunks :: "ChunkRow list"
  row_order :: "uuid \<Rightarrow> nat"

text \<open>
  \<open>row_order\<close> is where a row comes, by its id, in a listing whose order SQL leaves open: among
  rows that are equal in the columns of \<open>ORDER BY\<close>, or under the collation of the database.
\<close>

definition empty_db :: database where
  "empty_db = \<lparr>runners = [], workflow_runs = [], jobs = [], steps = [], job_outputs = [], log_chunks = [],
     row_order = (\<lambda>_. 0)\<rparr>"

text \<open>
  A log subscriber: the channel's identity, the chunks buffered in it and whether it was
  closed. A waiter of the job queue is a channel too: it is registered until it is closed.
\<close>

record subscriber =
  sub_chan :: nat
  sub_buffer :: "Chunk list"

record world =
  db :: database
  waiters :: "nat list"
  woken :: "nat list"
  log_subs :: "(uuid \<times> subscriber list) list"
  closed_subs :: "subscriber list"
  posted :: "(string \<times> string \<times> string \<times> string) list"
  tick :: nat

record env =
  other :: "nat \<Rightarrow> database \<Rightarrow> database"
  fault :: "nat \<Rightarrow> bool"
  clock :: "nat \<Rightarrow> time"
  new_uuid :: "nat \<Rightarrow> uuid"
  jsonb :: "bytes \<Rightarrow> bytes option"

text \<open>The handler runs alone and the database answers every statement.\<close>

definition solo :: "env \<Rightarrow> bool" where
  "solo E \<longleftrightarrow> other E = (\<lambda>_ d. d) \<and> fault E = (\<lambda>_. False)"

subsection \<open>Errors\<close>

text \<open>
  The errors the callers of the stores tell apart with \<open>errors.Is\<close>; every other failure
  (a lost connection, a violated constraint) is only reported.
\<close>

datatype store_error = ErrNoRows | ErrIllegalTransition | ErrConstraint | ErrConnection

subsection \<open>Interactions\<close>

text \<open>\<open>time.Now().UTC()\<close> and \<open>uuid.New()\<close>.\<close>

definition time_now :: "env \<Rightarrow> (world, time) state" where
  "time_now E = State (\<lambda>w. (clock E (tick w), w\<lparr>tick := Suc (tick w)\<rparr>))"

definition uuid_new :: "env \<Rightarrow> (world, uuid) state" where
  "uuid_new E = State (\<lambda>w. (new_uuid E (tick w), w\<lparr>tick := Suc (tick w)\<rparr>))"

text \<open>
  One SQL statement \<open>f\<close>. It sees the database after the other sessions' commits and the
  value of SQL's \<open>now()\<close>.
\<close>

definition statement ::
    "env \<Rightarrow> (time \<Rightarrow> database \<Rightarrow> (store_error + 'a) \<times> database) \<Rightarrow> (world, store_error + 'a) state"
where
  "statement E f = State (\<lambda>w.
     let n = tick w; d = other E n (db w) in
     if fault E n then (Inl ErrConnection, w\<lparr>db := d, tick := Suc n\<rparr>)
     else case f (clock E n) d of (r, d') \<Rightarrow> (r, w\<lparr>db := d', tick := Suc n\<rparr>))"

definition query ::
    "env \<Rightarrow> (database \<Rightarrow> store_error + 'a) \<Rightarrow> (world, store_error + 'a) state"
where
  "query E f = statement E (\<lambda>_ d. (f d, d))"

lemma run_time_now [simp]:
  "run_state (time_now E) w = (clock E (tick w), w\<lparr>tick := Suc (tick w)\<rparr>)"
  by (simp add: time_now_def)

lemma run_uuid_new [simp]:
  "run_state (uuid_new E) w = (new_uuid E (tick w), w\<lparr>tick := Suc (tick w)\<rparr>)"
  by (simp add: uuid_new_def)

lemma run_statement_solo [run_simps]:
  "solo E \<Longrightarrow> run_state (statement E f) w =
     (case f (clock E (tick w)) (db w) of (r, d') \<Rightarrow> (r, w\<lparr>db := d', tick := Suc (tick w)\<rparr>))"
  by (simp add: statement_def solo_def Let_def)

lemma run_query_solo [run_simps]:
  "solo E \<Longrightarrow> run_state (query E f) w = (f (db w), w\<lparr>tick := Suc (tick w)\<rparr>)"
  by (simp add: query_def run_statement_solo)

subsection \<open>Relations every step keeps\<close>

text \<open>
  A relation on the states of the process that is reflexive and transitive is kept by a
  handler when each of its steps keeps it. The rules that take a handler apart into its steps
  are proved once, for every such relation.
\<close>

locale world_preorder =
  fixes W :: "world \<Rightarrow> world \<Rightarrow> bool"
  assumes W_refl: "W w w"
    and W_trans: "W w w' \<Longrightarrow> W w' w'' \<Longrightarrow> W w w''"
begin

definition guar :: "(world, 'a) state \<Rightarrow> bool" where
  "guar m \<longleftrightarrow> state_io_rel W m"

lemma guarW: "guar m \<Longrightarrow> run_state m w = (a, w') \<Longrightarrow> W w w'"
  unfolding guar_def by (erule state_io_relD)

lemma guar_ret: "guar (ret a)"
  unfolding guar_def by (rule io_rel_return) (rule W_refl)

lemma guar_bind: "guar m \<Longrightarrow> (\<And>a. guar (f a)) \<Longrightarrow> guar (State_Monad.bind m f)"
  unfolding guar_def by (rule io_rel_bind) (blast intro: W_trans)

lemma guar_step: "(\<And>w. W w (snd (f w))) \<Longrightarrow> guar (State f)"
  by (simp add: guar_def state_io_rel_def)

lemma guar_if: "(b \<Longrightarrow> guar m) \<Longrightarrow> (\<not> b \<Longrightarrow> guar n) \<Longrightarrow> guar (if b then m else n)"
  by simp

lemma guar_sum:
  "(\<And>e. x = Inl e \<Longrightarrow> guar (f e)) \<Longrightarrow> (\<And>a. x = Inr a \<Longrightarrow> guar (g a)) \<Longrightarrow> guar (case_sum f g x)"
  by (cases x) simp_all

lemma guar_option:
  "(x = None \<Longrightarrow> guar m) \<Longrightarrow> (\<And>a. x = Some a \<Longrightarrow> guar (f a)) \<Longrightarrow> guar (case_option m f x)"
  by (cases x) simp_all

lemma guar_prod: "(\<And>a b. x = (a, b) \<Longrightarrow> guar (f a b)) \<Longrightarrow> guar (case_prod f x)"
  by (cases x) simp

lemma guar_list:
  "(x = [] \<Longrightarrow> guar m) \<Longrightarrow> (\<And>a as. x = a # as \<Longrightarrow> guar (f a as)) \<Longrightarrow> guar (case_list m f x)"
  by (cases x) simp_all

lemma guar_let: "(\<And>a. a = x \<Longrightarrow> guar (f a)) \<Longrightarrow> guar (Let x f)"
  by (simp add: Let_def)

lemmas guar_control = guar_ret guar_bind guar_if guar_sum guar_option guar_prod guar_list guar_let

end

text \<open>
  A relation on databases. When the other sessions keep it too (\<open>rely\<close>), a handler keeps it
  (\<open>guar\<close>) as soon as each of its statements does. The stores extend the locale with their
  statements.
\<close>

locale db_preorder =
  fixes R :: "database \<Rightarrow> database \<Rightarrow> bool"
  assumes R_refl: "R d d"
    and R_trans: "R d d' \<Longrightarrow> R d' d'' \<Longrightarrow> R d d''"

sublocale db_preorder \<subseteq> world_preorder "\<lambda>w w'. R (db w) (db w')"
  by unfold_locales (blast intro: R_refl R_trans)+

context db_preorder
begin

definition rely :: "env \<Rightarrow> bool" where
  "rely E \<longleftrightarrow> (\<forall>n d. R d (other E n d))"

lemma guarD: "guar m \<Longrightarrow> run_state m w = (a, w') \<Longrightarrow> R (db w) (db w')"
  by (rule guarW)

lemma guar_memory: "(\<And>w. db (snd (f w)) = db w) \<Longrightarrow> guar (State f)"
  by (rule guar_step) (simp add: R_refl)

lemma guar_time_now: "guar (time_now E)"
  unfolding time_now_def by (rule guar_memory) simp

lemma guar_uuid_new: "guar (uuid_new E)"
  unfolding uuid_new_def by (rule guar_memory) simp

lemma guar_statement:
  assumes E: "rely E" and f: "\<And>t d. R d (snd (f t d))"
  shows "guar (statement E f)"
  unfolding statement_def
proof (rule guar_step)
  fix w :: world
  have o: "R (db w) (other E (tick w) (db w))"
    using E by (simp add: rely_def)
  have "R (db w) (snd (f (clock E (tick w)) (other E (tick w) (db w))))"
    using o f by (rule R_trans)
  then show "R (db w) (db (snd (let n = tick w; d = other E n (db w) in
       if fault E n then (Inl ErrConnection, w\<lparr>db := d, tick := Suc n\<rparr>)
       else case f (clock E n) d of (r, d') \<Rightarrow> (r, w\<lparr>db := d', tick := Suc n\<rparr>))))"
    using o by (auto simp: Let_def split: prod.splits)
qed

lemma guar_query: "rely E \<Longrightarrow> guar (query E f)"
  unfolding query_def by (rule guar_statement) (simp_all add: R_refl)

lemmas guar_rules = guar_control guar_time_now guar_uuid_new guar_query

end

end
