(* ===== verification/Job_Store.thy ===== *)
theory Job_Store
  imports Store_Model
begin

text \<open>
  \<open>internal/store/job_store.go\<close>: the job status state machine, the SQL statements of
  \<open>pgxJobStore\<close> on the table of jobs, and the store's methods. A method is its Go body:
  the checks before the statement, the statement, and the error its command tag gives.
\<close>

subsection \<open>The state machine\<close>

definition jobTransitions :: "string \<rightharpoonup> string list" where
  "jobTransitions =
     [''queued'' \<mapsto> [''leased'', ''cancelled'', ''skipped''],
      ''leased'' \<mapsto> [''running'', ''queued'', ''cancelled''],
      ''running'' \<mapsto> [''success'', ''failure'', ''cancelled'', ''skipped'']]"

definition isLegalJobTransition :: "string \<Rightarrow> string \<Rightarrow> bool" where
  "isLegalJobTransition from to =
     (case jobTransitions from of None \<Rightarrow> False | Some tos \<Rightarrow> to \<in> set tos)"

subsection \<open>Rows and statements\<close>

definition lease_row :: "uuid \<Rightarrow> uuid \<Rightarrow> time \<Rightarrow> time \<Rightarrow> Job \<Rightarrow> Job" where
  "lease_row leaseID runnerID deadline now j =
     j\<lparr>j_Status := ''leased'', j_RunnerID := Some runnerID, j_LeaseID := Some leaseID,
       j_LeaseDeadline := Some deadline,
       j_StartedAt := (case j_StartedAt j of None \<Rightarrow> Some now | Some t \<Rightarrow> Some t)\<rparr>"

definition requeue_row :: "Job \<Rightarrow> Job" where
  "requeue_row j =
     j\<lparr>j_Status := ''queued'', j_RunnerID := None, j_LeaseID := None, j_LeaseDeadline := None\<rparr>"

definition result_row :: "string \<Rightarrow> time \<Rightarrow> Job \<Rightarrow> Job" where
  "result_row result finishedAt j = j\<lparr>j_Result := Some result, j_FinishedAt := Some finishedAt\<rparr>"

text \<open>The \<open>WHERE\<close> clause of the reaper's update; a null deadline is not before any time.\<close>

definition lease_expired :: "time \<Rightarrow> Job \<Rightarrow> bool" where
  "lease_expired now j \<longleftrightarrow> j_Status j = ''leased'' \<and>
     (case j_LeaseDeadline j of None \<Rightarrow> False | Some dl \<Rightarrow> dl < now)"

text \<open>
  A conditional update of the jobs table that reports \<open>err\<close> when it affects no row.
\<close>

definition update_jobs ::
    "store_error \<Rightarrow> (Job \<Rightarrow> bool) \<Rightarrow> (Job \<Rightarrow> Job) \<Rightarrow> database \<Rightarrow> (store_error + unit) \<times> database"
where
  "update_jobs err P f d =
     (if rows_affected P (jobs d) = 0 then (Inl err, d)
      else (Inr (), d\<lparr>jobs := update_where P f (jobs d)\<rparr>))"

text \<open>
  \<open>INSERT INTO jobs\<close>: the primary key must be new, \<open>run_id\<close> must reference a run,
  \<open>needs\<close> must not be null and the matrix cell, when there is one, must be JSON.
\<close>

definition jsonb_null :: "env \<Rightarrow> char slice \<Rightarrow> char slice option" where
  "jsonb_null E v = (case v of None \<Rightarrow> Some None | Some t \<Rightarrow> map_option Some (jsonb E t))"

definition sql_CreateJob ::
    "char slice option \<Rightarrow> Job \<Rightarrow> time \<Rightarrow> database \<Rightarrow> (store_error + unit) \<times> database" where
  "sql_CreateJob cell j now d =
     (case cell of
        None \<Rightarrow> (Inl ErrConstraint, d)
      | Some c \<Rightarrow>
          if j_ID j \<in> j_ID ` set (jobs d) \<or> j_RunID j \<notin> run_ID ` set (workflow_runs d) \<or> j_Needs j = None
          then (Inl ErrConstraint, d)
          else (Inr (), d\<lparr>jobs := jobs d @ [j\<lparr>j_MatrixCellJSON := c\<rparr>]\<rparr>))"

definition sql_TransitionStatus ::
    "uuid \<Rightarrow> string \<Rightarrow> string \<Rightarrow> time \<Rightarrow> database \<Rightarrow> (store_error + unit) \<times> database" where
  "sql_TransitionStatus jid from to now =
     update_jobs ErrIllegalTransition (\<lambda>j. j_ID j = jid \<and> j_Status j = from) (\<lambda>j. j\<lparr>j_Status := to\<rparr>)"

definition sql_Lease ::
    "uuid \<Rightarrow> uuid \<Rightarrow> uuid \<Rightarrow> time \<Rightarrow> time \<Rightarrow> database \<Rightarrow> (store_error + unit) \<times> database" where
  "sql_Lease jid leaseID runnerID deadline now =
     update_jobs ErrIllegalTransition (\<lambda>j. j_ID j = jid \<and> j_Status j = ''queued'')
       (lease_row leaseID runnerID deadline now)"

definition sql_RenewLease ::
    "uuid \<Rightarrow> time \<Rightarrow> time \<Rightarrow> database \<Rightarrow> (store_error + unit) \<times> database" where
  "sql_RenewLease leaseID deadline now =
     update_jobs ErrNoRows (\<lambda>j. j_LeaseID j = Some leaseID) (\<lambda>j. j\<lparr>j_LeaseDeadline := Some deadline\<rparr>)"

definition sql_RequeueExpired :: "time \<Rightarrow> time \<Rightarrow> database \<Rightarrow> (store_error + nat) \<times> database" where
  "sql_RequeueExpired cutoff now d =
     (Inr (rows_affected (lease_expired cutoff) (jobs d)),
      d\<lparr>jobs := update_where (lease_expired cutoff) requeue_row (jobs d)\<rparr>)"

definition sql_SetResult ::
    "uuid \<Rightarrow> string \<Rightarrow> time \<Rightarrow> time \<Rightarrow> database \<Rightarrow> (store_error + unit) \<times> database" where
  "sql_SetResult jid result finishedAt now =
     update_jobs ErrNoRows (\<lambda>j. j_ID j = jid) (result_row result finishedAt)"

subsection \<open>The store's methods\<close>

definition CreateJob :: "env \<Rightarrow> Job \<Rightarrow> (world, store_error + unit) state" where
  "CreateJob E j =
     (let j' = (if j_Needs j = None then j\<lparr>j_Needs := Some []\<rparr> else j)
      in statement E (sql_CreateJob (jsonb_null E (j_MatrixCellJSON j')) j'))"

definition first_row :: "('r \<Rightarrow> bool) \<Rightarrow> 'r list \<Rightarrow> store_error + 'r" where
  "first_row P rows = (case find P rows of None \<Rightarrow> Inl ErrNoRows | Some r \<Rightarrow> Inr r)"

definition GetJob :: "env \<Rightarrow> uuid \<Rightarrow> (world, store_error + Job) state" where
  "GetJob E jid = query E (\<lambda>d. first_row (\<lambda>j. j_ID j = jid) (jobs d))"

definition GetByLease :: "env \<Rightarrow> uuid \<Rightarrow> (world, store_error + Job) state" where
  "GetByLease E leaseID = query E (\<lambda>d. first_row (\<lambda>j. j_LeaseID j = Some leaseID) (jobs d))"

text \<open>
  \<open>ORDER BY job_id_yaml\<close> sorts by the collation of the database and leaves the cells of a
  matrix in any order: the listing may have every order.
\<close>

definition jobs_of_run :: "uuid \<Rightarrow> database \<Rightarrow> Job list" where
  "jobs_of_run runID d = sort_key (row_order d \<circ> j_ID) (filter (\<lambda>j. j_RunID j = runID) (jobs d))"

definition ListJobsForRun :: "env \<Rightarrow> uuid \<Rightarrow> (world, store_error + Job list) state" where
  "ListJobsForRun E runID = query E (\<lambda>d. Inr (jobs_of_run runID d))"

definition queued_jobs :: "nat \<Rightarrow> database \<Rightarrow> Job list" where
  "queued_jobs limit d = take limit (sort_key j_ID (filter (\<lambda>j. j_Status j = ''queued'') (jobs d)))"

definition ListQueuedJobs :: "env \<Rightarrow> nat \<Rightarrow> (world, store_error + Job list) state" where
  "ListQueuedJobs E limit = query E (\<lambda>d. Inr (queued_jobs limit d))"

definition TransitionStatus ::
    "env \<Rightarrow> uuid \<Rightarrow> string \<Rightarrow> string \<Rightarrow> (world, store_error + unit) state" where
  "TransitionStatus E jid from to =
     (if \<not> isLegalJobTransition from to then ret (Inl ErrIllegalTransition)
      else statement E (sql_TransitionStatus jid from to))"

definition Lease ::
    "env \<Rightarrow> uuid \<Rightarrow> uuid \<Rightarrow> uuid \<Rightarrow> time \<Rightarrow> (world, store_error + unit) state" where
  "Lease E jid leaseID runnerID deadline = statement E (sql_Lease jid leaseID runnerID deadline)"

definition RenewLease :: "env \<Rightarrow> uuid \<Rightarrow> time \<Rightarrow> (world, store_error + unit) state" where
  "RenewLease E leaseID deadline = statement E (sql_RenewLease leaseID deadline)"

definition RequeueExpired :: "env \<Rightarrow> time \<Rightarrow> (world, store_error + nat) state" where
  "RequeueExpired E now = statement E (sql_RequeueExpired now)"

definition SetResult ::
    "env \<Rightarrow> uuid \<Rightarrow> string \<Rightarrow> time \<Rightarrow> (world, store_error + unit) state" where
  "SetResult E jid result finishedAt = statement E (sql_SetResult jid result finishedAt)"

subsection \<open>Facts on the statements\<close>

lemmas job_sql_defs = sql_TransitionStatus_def sql_Lease_def sql_RenewLease_def
  sql_RequeueExpired_def sql_SetResult_def update_jobs_def

lemma snd_update_jobs: "snd (update_jobs err P f d) = d\<lparr>jobs := update_where P f (jobs d)\<rparr>"
  by (simp add: update_jobs_def rows_affected_0 update_where_none)

lemma fst_update_jobs:
  "fst (update_jobs err P f d) = (if \<exists>j\<in>set (jobs d). P j then Inr () else Inl err)"
  by (auto simp: update_jobs_def rows_affected_0)

lemma isLegal_cases:
  assumes "isLegalJobTransition from to"
  obtains "from = ''queued''" "to \<in> {''leased'', ''cancelled'', ''skipped''}"
    | "from = ''leased''" "to \<in> {''running'', ''queued'', ''cancelled''}"
    | "from = ''running''" "to \<in> {''success'', ''failure'', ''cancelled'', ''skipped''}"
  using assms
  by (auto simp: isLegalJobTransition_def jobTransitions_def split: if_splits option.splits)

lemma set_jobs_of_run [simp]: "set (jobs_of_run runID d) = {j \<in> set (jobs d). j_RunID j = runID}"
  by (simp add: jobs_of_run_def)

lemma queued_jobs_subset:
  "j \<in> set (queued_jobs limit d) \<Longrightarrow> j \<in> set (jobs d) \<and> j_Status j = ''queued''"
  by (auto simp: queued_jobs_def dest: in_set_takeD)

end
