(* ===== verification/Run_Store.thy ===== *)
theory Run_Store
  imports Job_Store
begin

text \<open>
  The other tables of \<open>internal/store\<close>: \<open>run_store.go\<close>, \<open>step_store.go\<close>,
  \<open>job_output_store.go\<close> and \<open>runner_store.go\<close>.
\<close>

subsection \<open>Runs\<close>

definition sql_CreateRun :: "bytes option \<Rightarrow> Run \<Rightarrow> time \<Rightarrow> database \<Rightarrow> (store_error + unit) \<times> database" where
  "sql_CreateRun payload r now d =
     (case payload of
        None \<Rightarrow> (Inl ErrConstraint, d)
      | Some p \<Rightarrow>
          if run_ID r \<in> run_ID ` set (workflow_runs d) then (Inl ErrConstraint, d)
          else (Inr (), d\<lparr>workflow_runs := workflow_runs d @
                 [r\<lparr>run_EventPayloadJSON := Some p, run_CreatedAt := now\<rparr>]\<rparr>))"

definition CreateRun :: "env \<Rightarrow> Run \<Rightarrow> (world, store_error + unit) state" where
  "CreateRun E r =
     (let payload = (case run_EventPayloadJSON r of None \<Rightarrow> ''{}'' | Some p \<Rightarrow> p)
      in statement E (sql_CreateRun (jsonb E payload) r))"

definition GetRun :: "env \<Rightarrow> uuid \<Rightarrow> (world, store_error + Run) state" where
  "GetRun E rid = query E (\<lambda>d. first_row (\<lambda>r. run_ID r = rid) (workflow_runs d))"

text \<open>
  \<open>ORDER BY created_at DESC LIMIT l OFFSET o\<close>; Postgres rejects a negative bound. Runs of one
  time come in any order.
\<close>

definition runs_listed :: "database \<Rightarrow> Run list" where
  "runs_listed d = sort_key (\<lambda>r. - run_CreatedAt r) (sort_key (row_order d \<circ> run_ID) (workflow_runs d))"

definition runs_page :: "int \<Rightarrow> int \<Rightarrow> database \<Rightarrow> Run list" where
  "runs_page limit offset d = take (nat limit) (drop (nat offset) (runs_listed d))"

definition ListRuns :: "env \<Rightarrow> int \<Rightarrow> int \<Rightarrow> (world, store_error + Run list) state" where
  "ListRuns E limit offset =
     query E (\<lambda>d. if limit < 0 \<or> offset < 0 then Inl ErrConstraint else Inr (runs_page limit offset d))"

definition sql_SetRunStatus :: "uuid \<Rightarrow> string \<Rightarrow> time \<Rightarrow> database \<Rightarrow> (store_error + unit) \<times> database" where
  "sql_SetRunStatus rid status now d =
     (if rows_affected (\<lambda>r. run_ID r = rid) (workflow_runs d) = 0 then (Inl ErrNoRows, d)
      else (Inr (), d\<lparr>workflow_runs :=
             update_where (\<lambda>r. run_ID r = rid) (\<lambda>r. r\<lparr>run_Status := status\<rparr>) (workflow_runs d)\<rparr>))"

definition SetRunStatus :: "env \<Rightarrow> uuid \<Rightarrow> string \<Rightarrow> (world, store_error + unit) state" where
  "SetRunStatus E rid status = statement E (sql_SetRunStatus rid status)"

subsection \<open>Steps\<close>

definition step_key :: "Step \<Rightarrow> uuid \<times> int" where
  "step_key st = (st_JobRowID st, st_StepIndex st)"

definition step_row :: "Step \<Rightarrow> Step \<Rightarrow> Step" where
  "step_row st old =
     old\<lparr>st_Name := st_Name st, st_Status := st_Status st,
         st_StartedAt := st_StartedAt st, st_FinishedAt := st_FinishedAt st\<rparr>"

definition sql_UpsertStep :: "Step \<Rightarrow> time \<Rightarrow> database \<Rightarrow> (store_error + uuid) \<times> database" where
  "sql_UpsertStep st now d =
     (case find (\<lambda>s. step_key s = step_key st) (steps d) of
        Some old \<Rightarrow>
          (Inr (st_ID old),
           d\<lparr>steps := update_where (\<lambda>s. step_key s = step_key st) (step_row st) (steps d)\<rparr>)
      | None \<Rightarrow>
          if st_ID st \<in> st_ID ` set (steps d) \<or> st_JobRowID st \<notin> j_ID ` set (jobs d)
          then (Inl ErrConstraint, d)
          else (Inr (st_ID st), d\<lparr>steps := steps d @ [st]\<rparr>))"

definition UpsertStep :: "env \<Rightarrow> Step \<Rightarrow> (world, store_error + uuid) state" where
  "UpsertStep E st = statement E (sql_UpsertStep st)"

definition steps_of_job :: "uuid \<Rightarrow> database \<Rightarrow> Step list" where
  "steps_of_job jobRowID d = sort_key st_StepIndex (filter (\<lambda>s. st_JobRowID s = jobRowID) (steps d))"

definition ListStepsForJob :: "env \<Rightarrow> uuid \<Rightarrow> (world, store_error + Step list) state" where
  "ListStepsForJob E jobRowID = query E (\<lambda>d. Inr (steps_of_job jobRowID d))"

subsection \<open>Job outputs\<close>

definition sql_UpsertOutput ::
    "uuid \<Rightarrow> string \<Rightarrow> string \<Rightarrow> time \<Rightarrow> database \<Rightarrow> (store_error + unit) \<times> database" where
  "sql_UpsertOutput jobRowID key value now d =
     (if \<exists>r\<in>set (job_outputs d). o_JobRowID r = jobRowID \<and> o_Key r = key
      then (Inr (), d\<lparr>job_outputs :=
              update_where (\<lambda>r. o_JobRowID r = jobRowID \<and> o_Key r = key) (\<lambda>r. r\<lparr>o_Value := value\<rparr>)
                (job_outputs d)\<rparr>)
      else if jobRowID \<notin> j_ID ` set (jobs d) then (Inl ErrConstraint, d)
      else (Inr (), d\<lparr>job_outputs := job_outputs d @
              [\<lparr>o_JobRowID = jobRowID, o_Key = key, o_Value = value\<rparr>]\<rparr>))"

definition UpsertOutput :: "env \<Rightarrow> uuid \<Rightarrow> string \<Rightarrow> string \<Rightarrow> (world, store_error + unit) state" where
  "UpsertOutput E jobRowID key value = statement E (sql_UpsertOutput jobRowID key value)"

text \<open>The Go map the rows are scanned into: a later row overwrites an earlier one.\<close>

definition outputs_of :: "uuid \<Rightarrow> database \<Rightarrow> (string \<rightharpoonup> string)" where
  "outputs_of jobRowID d =
     fold (\<lambda>r m. m(o_Key r \<mapsto> o_Value r)) (filter (\<lambda>r. o_JobRowID r = jobRowID) (job_outputs d)) Map.empty"

definition ListOutputs :: "env \<Rightarrow> uuid \<Rightarrow> (world, store_error + (string \<rightharpoonup> string)) state" where
  "ListOutputs E jobRowID = query E (\<lambda>d. Inr (outputs_of jobRowID d))"

subsection \<open>Runners\<close>

text \<open>The \<open>labels\<close> column is \<open>NOT NULL\<close>: a nil slice is sent as null and rejected.\<close>

definition sql_CreateRunner :: "Runner \<Rightarrow> time \<Rightarrow> database \<Rightarrow> (store_error + unit) \<times> database" where
  "sql_CreateRunner r now d =
     (if rn_ID r \<in> rn_ID ` set (runners d) \<or> rn_Labels r = None then (Inl ErrConstraint, d)
      else (Inr (), d\<lparr>runners := runners d @ [r\<lparr>rn_CreatedAt := now\<rparr>]\<rparr>))"

definition CreateRunner :: "env \<Rightarrow> Runner \<Rightarrow> (world, store_error + unit) state" where
  "CreateRunner E r = statement E (sql_CreateRunner r)"

definition update_runners ::
    "(Runner \<Rightarrow> bool) \<Rightarrow> (Runner \<Rightarrow> Runner) \<Rightarrow> database \<Rightarrow> (store_error + unit) \<times> database" where
  "update_runners P f d =
     (if rows_affected P (runners d) = 0 then (Inl ErrNoRows, d)
      else (Inr (), d\<lparr>runners := update_where P f (runners d)\<rparr>))"

definition sql_UpdateHeartbeat :: "uuid \<Rightarrow> time \<Rightarrow> time \<Rightarrow> database \<Rightarrow> (store_error + unit) \<times> database" where
  "sql_UpdateHeartbeat rid at now =
     update_runners (\<lambda>r. rn_ID r = rid) (\<lambda>r. r\<lparr>rn_LastHeartbeat := Some at\<rparr>)"

definition UpdateHeartbeat :: "env \<Rightarrow> uuid \<Rightarrow> time \<Rightarrow> (world, store_error + unit) state" where
  "UpdateHeartbeat E rid at = statement E (sql_UpdateHeartbeat rid at)"

definition sql_SetStatus :: "uuid \<Rightarrow> string \<Rightarrow> time \<Rightarrow> database \<Rightarrow> (store_error + unit) \<times> database" where
  "sql_SetStatus rid status now =
     update_runners (\<lambda>r. rn_ID r = rid) (\<lambda>r. r\<lparr>rn_Status := status\<rparr>)"

definition SetStatus :: "env \<Rightarrow> uuid \<Rightarrow> string \<Rightarrow> (world, store_error + unit) state" where
  "SetStatus E rid status = statement E (sql_SetStatus rid status)"

definition runners_listed :: "database \<Rightarrow> Runner list" where
  "runners_listed d = sort_key rn_CreatedAt (sort_key (row_order d \<circ> rn_ID) (runners d))"

definition ListRunners :: "env \<Rightarrow> (world, store_error + Runner list) state" where
  "ListRunners E = query E (\<lambda>d. Inr (map (\<lambda>r. r\<lparr>rn_AuthToken := ''''\<rparr>) (runners_listed d)))"

definition heartbeat_stale :: "time \<Rightarrow> Runner \<Rightarrow> bool" where
  "heartbeat_stale cutoff r \<longleftrightarrow>
     (case rn_LastHeartbeat r of None \<Rightarrow> False | Some t \<Rightarrow> t < cutoff) \<and> rn_Status r \<noteq> ''offline''"

definition sql_MarkStaleOffline :: "time \<Rightarrow> time \<Rightarrow> database \<Rightarrow> (store_error + nat) \<times> database" where
  "sql_MarkStaleOffline cutoff now d =
     (Inr (rows_affected (heartbeat_stale cutoff) (runners d)),
      d\<lparr>runners := update_where (heartbeat_stale cutoff) (\<lambda>r. r\<lparr>rn_Status := ''offline''\<rparr>) (runners d)\<rparr>)"

definition MarkStaleOffline :: "env \<Rightarrow> time \<Rightarrow> (world, store_error + nat) state" where
  "MarkStaleOffline E cutoff = statement E (sql_MarkStaleOffline cutoff)"

definition GetByID :: "env \<Rightarrow> uuid \<Rightarrow> (world, store_error + Runner) state" where
  "GetByID E rid = query E (\<lambda>d. first_row (\<lambda>r. rn_ID r = rid) (runners d))"

subsection \<open>Round trips\<close>

lemma first_row_unique:
  "distinct (map k rows) \<Longrightarrow> r \<in> set rows \<Longrightarrow> first_row (\<lambda>r'. k r' = k r) rows = Inr r"
  by (simp add: first_row_def find_unique_key)

lemma fold_outputs:
  "fold (\<lambda>r m. m(o_Key r \<mapsto> o_Value r)) rows m =
     (\<lambda>k. case find (\<lambda>r. o_Key r = k) (rev rows) of None \<Rightarrow> m k | Some r \<Rightarrow> Some (o_Value r))"
proof (induction rows arbitrary: m rule: rev_induct)
  case (snoc r rows)
  then show ?case by (auto simp: fun_eq_iff)
qed simp

lemma outputs_of_UpsertOutput:
  assumes "sql_UpsertOutput jid k v now d = (Inr (), d')"
  shows "outputs_of jid d' = (outputs_of jid d)(k \<mapsto> v)"
proof (cases "\<exists>r\<in>set (job_outputs d). o_JobRowID r = jid \<and> o_Key r = k")
  case True
  let ?L = "rev (filter (\<lambda>r. o_JobRowID r = jid) (job_outputs d))"
  have upd: "outputs_of jid d' = (\<lambda>x. case find (\<lambda>r. o_Key r = x) ?L of None \<Rightarrow> None
      | Some r \<Rightarrow> Some (o_Value (if o_JobRowID r = jid \<and> o_Key r = k then r\<lparr>o_Value := v\<rparr> else r)))"
    using True assms
    by (auto simp: sql_UpsertOutput_def outputs_of_def fold_outputs filter_update_where
        rev_update_where find_update_where option.case_eq_if option.map_sel)
  show ?thesis
  proof
    fix x
    have key: "o_JobRowID r = jid \<and> o_Key r = x" if "find (\<lambda>r. o_Key r = x) ?L = Some r" for r
      using find_Some_set [OF that] by auto
    have hit: "find (\<lambda>r. o_Key r = k) ?L \<noteq> None"
      using True by (auto simp: find_None_iff)
    show "outputs_of jid d' x = ((outputs_of jid d)(k \<mapsto> v)) x"
    proof (cases "find (\<lambda>r. o_Key r = x) ?L")
      case None
      with hit have "x \<noteq> k" by auto
      with None show ?thesis unfolding upd by (simp add: outputs_of_def fold_outputs)
    next
      case (Some r)
      from key [OF this] Some show ?thesis unfolding upd by (simp add: outputs_of_def fold_outputs)
    qed
  qed
next
  case False
  with assms show ?thesis
    by (auto simp: sql_UpsertOutput_def outputs_of_def fun_eq_iff split: if_splits)
qed

end
