(* ===== verification/Log_Store.thy ===== *)
theory Log_Store
  imports Run_Store
begin

text \<open>
  \<open>internal/logstore/logstore.go\<close>: log chunks in the table \<open>log_chunks\<close>, keyed by lease and
  sequence number, and the in-process fan-out to live subscribers. A subscriber is a buffered
  channel of capacity 256; \<open>log_subs\<close> is the registry of open channels by job row,
  \<open>closed_subs\<close> holds the channels that were closed, with what is still buffered in them.
\<close>

definition subscriberBuffer :: nat where
  "subscriberBuffer = 256"

subsection \<open>Persistence\<close>

text \<open>The \<open>data\<close> column is \<open>NOT NULL\<close>: nil data is sent as null and rejected.\<close>

definition sql_Append :: "Chunk \<Rightarrow> time \<Rightarrow> database \<Rightarrow> (store_error + bool) \<times> database" where
  "sql_Append c now d =
     (case c_Data c of
        None \<Rightarrow> (Inl ErrConstraint, d)
      | Some dat \<Rightarrow>
          if \<exists>r\<in>set (log_chunks d). lc_LeaseID r = c_LeaseID c \<and> lc_Seq r = c_Seq c
          then (Inr False, d)
          else (Inr True, d\<lparr>log_chunks := log_chunks d @
                 [\<lparr>lc_LeaseID = c_LeaseID c, lc_StepID = c_StepID c, lc_Seq = c_Seq c,
                   lc_Ts = c_Ts c, lc_Data = dat\<rparr>]\<rparr>))"

definition Append :: "env \<Rightarrow> Chunk \<Rightarrow> (world, store_error + bool) state" where
  "Append E c = statement E (sql_Append c)"

definition scan_chunk :: "uuid \<Rightarrow> ChunkRow \<Rightarrow> Chunk" where
  "scan_chunk jobRowID r =
     \<lparr>c_JobRowID = jobRowID, c_LeaseID = lc_LeaseID r, c_StepID = lc_StepID r, c_Seq = lc_Seq r,
      c_Ts = lc_Ts r, c_Data = Some (lc_Data r)\<rparr>"

text \<open>
  The join of \<open>log_chunks\<close> with \<open>jobs\<close> on the job's current lease, from \<open>fromSeq\<close> on, in
  the order of \<open>seq\<close>.
\<close>

definition replay :: "uuid \<Rightarrow> int \<Rightarrow> database \<Rightarrow> Chunk list" where
  "replay jobRowID fromSeq d =
     map (scan_chunk jobRowID) (sort_key lc_Seq
       (concat (map (\<lambda>j. filter (\<lambda>lc. j_LeaseID j = Some (lc_LeaseID lc) \<and> fromSeq \<le> lc_Seq lc) (log_chunks d))
         (filter (\<lambda>j. j_ID j = jobRowID) (jobs d)))))"

definition ReplayFrom :: "env \<Rightarrow> uuid \<Rightarrow> int \<Rightarrow> (world, store_error + Chunk list) state" where
  "ReplayFrom E jobRowID fromSeq = query E (\<lambda>d. Inr (replay jobRowID fromSeq d))"

subsection \<open>Fan-out\<close>

definition subs_of :: "uuid \<Rightarrow> (uuid \<times> subscriber list) list \<Rightarrow> subscriber list" where
  "subs_of jobRowID reg = map_get (map_of reg) jobRowID"

definition set_subs :: "uuid \<Rightarrow> subscriber list \<Rightarrow> (uuid \<times> subscriber list) list \<Rightarrow> (uuid \<times> subscriber list) list" where
  "set_subs jobRowID set' reg =
     (let rest = filter (\<lambda>e. fst e \<noteq> jobRowID) reg in if set' = [] then rest else (jobRowID, set') # rest)"

text \<open>
  The loop over the subscribers of one job: a channel with room gets the chunk, a full one is
  removed and closed. The result is the open channels and the closed ones.
\<close>

fun deliver :: "Chunk \<Rightarrow> subscriber list \<Rightarrow> subscriber list \<times> subscriber list" where
  "deliver c [] = ([], [])"
| "deliver c (s # ss) =
     (case deliver c ss of (live, dropped) \<Rightarrow>
        if length (sub_buffer s) < subscriberBuffer
        then (s\<lparr>sub_buffer := sub_buffer s @ [c]\<rparr> # live, dropped)
        else (live, s # dropped))"

definition publish :: "Chunk \<Rightarrow> world \<Rightarrow> world" where
  "publish c w =
     (case map_of (log_subs w) (c_JobRowID c) of
        None \<Rightarrow> w
      | Some set' \<Rightarrow>
          (case deliver c set' of (live, dropped) \<Rightarrow>
             w\<lparr>log_subs := set_subs (c_JobRowID c) live (log_subs w),
               closed_subs := closed_subs w @ dropped\<rparr>))"

definition Publish :: "Chunk \<Rightarrow> (world, unit) state" where
  "Publish c = State (\<lambda>w. ((), publish c w))"

text \<open>A new channel: the number of the interaction that makes it is its identity.\<close>

definition Subscribe :: "uuid \<Rightarrow> (world, nat) state" where
  "Subscribe jobRowID = State (\<lambda>w.
     (tick w, w\<lparr>log_subs := set_subs jobRowID
                  (\<lparr>sub_chan = tick w, sub_buffer = []\<rparr> # subs_of jobRowID (log_subs w)) (log_subs w),
                tick := Suc (tick w)\<rparr>))"

definition unsubscribe :: "uuid \<Rightarrow> nat \<Rightarrow> world \<Rightarrow> world" where
  "unsubscribe jobRowID ch w =
     (case map_of (log_subs w) jobRowID of
        None \<Rightarrow> w
      | Some set' \<Rightarrow>
          w\<lparr>log_subs := set_subs jobRowID (filter (\<lambda>s. sub_chan s \<noteq> ch) set') (log_subs w),
            closed_subs := closed_subs w @ filter (\<lambda>s. sub_chan s = ch) set'\<rparr>)"

definition cancel_sub :: "uuid \<Rightarrow> nat \<Rightarrow> (world, unit) state" where
  "cancel_sub jobRowID ch = State (\<lambda>w. ((), unsubscribe jobRowID ch w))"

subsection \<open>Invariant of the fan-out\<close>

text \<open>
  No job has two registry entries, no entry is empty, every channel is registered once and no
  buffer is over capacity.
\<close>

definition chans :: "(uuid \<times> subscriber list) list \<Rightarrow> nat list" where
  "chans reg = concat (map (map sub_chan \<circ> snd) reg)"

definition subs_ok :: "world \<Rightarrow> bool" where
  "subs_ok w \<longleftrightarrow> distinct (map fst (log_subs w)) \<and> (\<forall>e\<in>set (log_subs w). snd e \<noteq> []) \<and>
     (\<forall>e\<in>set (log_subs w). \<forall>s\<in>set (snd e). length (sub_buffer s) \<le> subscriberBuffer \<and> sub_chan s < tick w) \<and>
     (\<forall>e\<in>set (log_subs w). distinct (map sub_chan (snd e)))"

lemma deliver_spec:
  "deliver c ss =
     (map (\<lambda>s. s\<lparr>sub_buffer := sub_buffer s @ [c]\<rparr>) (filter (\<lambda>s. length (sub_buffer s) < subscriberBuffer) ss),
      filter (\<lambda>s. \<not> length (sub_buffer s) < subscriberBuffer) ss)"
  by (induction ss) auto

lemma map_of_set_subs:
  "map_of (set_subs k ss reg) = (if ss = [] then (map_of reg)(k := None) else (map_of reg)(k \<mapsto> ss))"
proof -
  have "map_of (filter (\<lambda>e. fst e \<noteq> k) reg) = (map_of reg)(k := None)"
    by (induction reg) (auto simp: fun_eq_iff)
  then show ?thesis by (auto simp: set_subs_def Let_def)
qed

lemma subs_of_set_subs: "subs_of k' (set_subs k ss reg) = (if k' = k then ss else subs_of k' reg)"
  by (auto simp: subs_of_def map_get_def map_of_set_subs)

lemma set_subs_elem: "e \<in> set (set_subs k ss reg) \<Longrightarrow> e = (k, ss) \<and> ss \<noteq> [] \<or> e \<in> set reg \<and> fst e \<noteq> k"
  by (auto simp: set_subs_def Let_def split: if_splits)

lemma distinct_set_subs: "distinct (map fst reg) \<Longrightarrow> distinct (map fst (set_subs k ss reg))"
  by (auto simp: set_subs_def Let_def distinct_map_filter)

text \<open>A registry whose entry for one job is replaced keeps the invariant when the new entry is sound.\<close>

lemma subs_ok_set:
  assumes "subs_ok w" and "log_subs w' = set_subs k ss (log_subs w)" and "tick w \<le> tick w'"
    and "\<forall>s\<in>set ss. length (sub_buffer s) \<le> subscriberBuffer \<and> sub_chan s < tick w'"
    and "distinct (map sub_chan ss)"
  shows "subs_ok w'"
  using assms unfolding subs_ok_def
  by (auto simp: distinct_set_subs dest!: set_subs_elem) fastforce+

lemma map_of_subs_ok:
  assumes "subs_ok w" and "map_of (log_subs w) k = Some ss"
  shows "\<forall>s\<in>set ss. length (sub_buffer s) \<le> subscriberBuffer \<and> sub_chan s < tick w" "distinct (map sub_chan ss)"
  using assms by (auto simp: subs_ok_def dest!: map_of_SomeD)

lemma subs_ok_publish: "subs_ok w \<Longrightarrow> subs_ok (publish c w)"
proof (cases "map_of (log_subs w) (c_JobRowID c)")
  case (Some ss)
  assume ok: "subs_ok w"
  have "subs_ok (w\<lparr>log_subs := set_subs (c_JobRowID c) (fst (deliver c ss)) (log_subs w),
               closed_subs := closed_subs w @ snd (deliver c ss)\<rparr>)"
    using map_of_subs_ok [OF ok Some]
    by (intro subs_ok_set [OF ok, where k = "c_JobRowID c" and ss = "fst (deliver c ss)"])
      (auto simp: deliver_spec comp_def distinct_map_filter)
  with Some show ?thesis by (simp add: publish_def split_beta)
qed (simp add: publish_def)

lemma subs_of_ok:
  assumes "subs_ok w"
  shows "\<forall>s\<in>set (subs_of k (log_subs w)). length (sub_buffer s) \<le> subscriberBuffer \<and> sub_chan s < tick w"
    and "distinct (map sub_chan (subs_of k (log_subs w)))"
  using map_of_subs_ok [OF assms, of k]
  by (cases "map_of (log_subs w) k"; simp add: subs_of_def map_get_def)+

lemma subs_ok_Subscribe:
  assumes "subs_ok w"
  shows "subs_ok (snd (run_state (Subscribe k) w))"
  using subs_of_ok [OF assms, of k]
  by (intro subs_ok_set [OF assms, where k = k and
        ss = "\<lparr>sub_chan = tick w, sub_buffer = []\<rparr> # subs_of k (log_subs w)"])
    (auto simp: Subscribe_def)

lemma subs_ok_unsubscribe: "subs_ok w \<Longrightarrow> subs_ok (unsubscribe k ch w)"
proof (cases "map_of (log_subs w) k")
  case (Some ss)
  assume ok: "subs_ok w"
  have "subs_ok (w\<lparr>log_subs := set_subs k (filter (\<lambda>s. sub_chan s \<noteq> ch) ss) (log_subs w),
            closed_subs := closed_subs w @ filter (\<lambda>s. sub_chan s = ch) ss\<rparr>)"
    using map_of_subs_ok [OF ok Some]
    by (intro subs_ok_set [OF ok, where k = k and ss = "filter (\<lambda>s. sub_chan s \<noteq> ch) ss"])
      (auto simp: distinct_map_filter)
  with Some show ?thesis by (simp add: unsubscribe_def)
qed (simp add: unsubscribe_def)

subsection \<open>Persistence laws\<close>

text \<open>The primary key of \<open>log_chunks\<close>.\<close>

definition chunks_ok :: "database \<Rightarrow> bool" where
  "chunks_ok d \<longleftrightarrow> distinct (map (\<lambda>r. (lc_LeaseID r, lc_Seq r)) (log_chunks d))"

lemma chunks_ok_Append: "chunks_ok d \<Longrightarrow> chunks_ok (snd (sql_Append c now d))"
  by (auto simp: chunks_ok_def sql_Append_def split: option.splits)

lemma Append_idem:
  assumes "sql_Append c now d = (Inr b, d')"
  shows "sql_Append c now' d' = (Inr False, d')"
  using assms by (auto simp: sql_Append_def split: option.splits if_splits)

end
