(* ===== verification/Stores.thy ===== *)
theory Stores
  imports Log_Store
begin

text \<open>
  What the handlers may rely on of the stores. \<open>call_rel\<close> is the interface of the calls of
  the dispatch service that never touch the status of a run: a relation on databases that
  every statement they send keeps. \<open>dispatch_rel\<close> adds the status of a run, for the roll-up
  behind a completion, and \<open>store_rel\<close> the insertion of jobs, for the planner. A handler that reaches the
  database only through the stores then keeps the relation, whatever the other sessions do
  within it. \<open>job_row_rel\<close> gives such a relation from a relation on single job
  rows. Four relations of the model are interpreted: jobs move along the state machine,
  the planned columns of a job never change, the database stays well formed, and rows are
  never removed.
\<close>

subsection \<open>The transitions the server asks for\<close>

definition terminal_statuses :: "string list" where
  "terminal_statuses = [''success'', ''failure'', ''skipped'', ''cancelled'']"

definition requested_transition :: "string \<Rightarrow> string \<Rightarrow> bool" where
  "requested_transition from to \<longleftrightarrow>
     from = ''queued'' \<and> to = ''skipped'' \<or> from = ''leased'' \<and> to = ''running'' \<or>
     from = ''running'' \<and> to \<in> set terminal_statuses"

definition new_job :: "Job \<Rightarrow> bool" where
  "new_job j \<longleftrightarrow> j_Status j = ''queued'' \<and> j_RunnerID j = None \<and> j_LeaseID j = None \<and>
     j_LeaseDeadline j = None \<and> j_Result j = None \<and> j_StartedAt j = None \<and> j_FinishedAt j = None"

lemma requested_legal: "requested_transition from to \<Longrightarrow> isLegalJobTransition from to"
  by (auto simp: requested_transition_def isLegalJobTransition_def jobTransitions_def terminal_statuses_def)

subsection \<open>Relations kept by every statement\<close>

locale call_rel = db_preorder +
  assumes R_TransitionStatus: "requested_transition from to \<Longrightarrow> R d (snd (sql_TransitionStatus jid from to t d))"
    and R_Lease: "R d (snd (sql_Lease jid leaseID runnerID deadline t d))"
    and R_RenewLease: "R d (snd (sql_RenewLease leaseID deadline t d))"
    and R_RequeueExpired: "R d (snd (sql_RequeueExpired cutoff t d))"
    and R_SetResult: "R d (snd (sql_SetResult jid result finishedAt t d))"
    and R_CreateRun: "R d (snd (sql_CreateRun payload r t d))"
    and R_UpsertStep: "R d (snd (sql_UpsertStep st t d))"
    and R_UpsertOutput: "R d (snd (sql_UpsertOutput jid key value t d))"
    and R_CreateRunner: "R d (snd (sql_CreateRunner rn t d))"
    and R_UpdateHeartbeat: "R d (snd (sql_UpdateHeartbeat rid at t d))"
    and R_SetStatus: "R d (snd (sql_SetStatus rid status t d))"
    and R_MarkStaleOffline: "R d (snd (sql_MarkStaleOffline cutoff t d))"
    and R_Append: "R d (snd (sql_Append c t d))"
begin

lemma guar_TransitionStatus:
  "rely E \<Longrightarrow> requested_transition from to \<Longrightarrow> guar (TransitionStatus E jid from to)"
  unfolding TransitionStatus_def
  by (auto intro!: guar_ret guar_statement R_TransitionStatus)

lemma guar_job_writes:
  assumes "rely E"
  shows "guar (Lease E jid leaseID runnerID deadline)" "guar (RenewLease E leaseID deadline)"
    "guar (RequeueExpired E cutoff)" "guar (SetResult E jid result finishedAt)"
  unfolding Lease_def RenewLease_def RequeueExpired_def SetResult_def
  by (rule guar_statement [OF assms], rule R_Lease R_RenewLease R_RequeueExpired R_SetResult)+

lemma guar_other_writes:
  assumes "rely E"
  shows "guar (CreateRun E r)" "guar (UpsertStep E st)"
    "guar (UpsertOutput E jid key value)" "guar (CreateRunner E rn)" "guar (UpdateHeartbeat E rid at)"
    "guar (SetStatus E rid status)" "guar (MarkStaleOffline E cutoff)" "guar (Append E c)"
  unfolding CreateRun_def UpsertStep_def UpsertOutput_def CreateRunner_def
    UpdateHeartbeat_def SetStatus_def MarkStaleOffline_def Append_def Let_def
  by (rule guar_statement [OF assms], rule R_CreateRun R_UpsertStep R_UpsertOutput
      R_CreateRunner R_UpdateHeartbeat R_SetStatus R_MarkStaleOffline R_Append)+

lemma guar_reads:
  assumes "rely E"
  shows "guar (GetJob E jid)" "guar (GetByLease E leaseID)" "guar (ListJobsForRun E rid)"
    "guar (ListQueuedJobs E limit)" "guar (GetRun E rid)" "guar (ListRuns E l off)"
    "guar (ListStepsForJob E jid)" "guar (ListOutputs E jid)" "guar (ListRunners E)"
    "guar (GetByID E rid)" "guar (ReplayFrom E jid fromSeq)"
  unfolding GetJob_def GetByLease_def ListJobsForRun_def ListQueuedJobs_def GetRun_def ListRuns_def
    ListStepsForJob_def ListOutputs_def ListRunners_def GetByID_def ReplayFrom_def
  by (rule guar_query [OF assms])+

lemma guar_Publish: "guar (Publish c)"
  unfolding Publish_def by (rule guar_memory) (auto simp: publish_def split: option.splits prod.splits)

lemma guar_Subscribe: "guar (Subscribe jid)"
  unfolding Subscribe_def by (rule guar_memory) simp

lemma guar_cancel_sub: "guar (cancel_sub jid ch)"
  unfolding cancel_sub_def by (rule guar_memory) (auto simp: unsubscribe_def split: option.splits)

lemmas guar_store = guar_TransitionStatus guar_job_writes guar_other_writes guar_reads
  guar_Publish guar_Subscribe guar_cancel_sub

end

locale dispatch_rel = call_rel +
  assumes R_SetRunStatus: "R d (snd (sql_SetRunStatus rid status t d))"
begin

lemma guar_SetRunStatus: "rely E \<Longrightarrow> guar (SetRunStatus E rid status)"
  unfolding SetRunStatus_def by (rule guar_statement) (simp_all add: R_SetRunStatus)

end

locale store_rel = dispatch_rel +
  assumes R_CreateJob: "new_job j \<Longrightarrow> R d (snd (sql_CreateJob cell j t d))"
begin

lemma guar_CreateJob: "rely E \<Longrightarrow> new_job j \<Longrightarrow> guar (CreateJob E j)"
  unfolding CreateJob_def Let_def
  by (rule guar_statement) (simp_all add: R_CreateJob new_job_def)

end

text \<open>No statement but the insertion of a job changes the number of jobs.\<close>

lemma jobs_length_sql:
  "length (jobs (snd (sql_TransitionStatus jid src dst t d))) = length (jobs d)"
  "length (jobs (snd (sql_Lease jid leaseID runnerID deadline t d))) = length (jobs d)"
  "length (jobs (snd (sql_RenewLease leaseID deadline t d))) = length (jobs d)"
  "length (jobs (snd (sql_RequeueExpired cutoff t d))) = length (jobs d)"
  "length (jobs (snd (sql_SetResult jid result finishedAt t d))) = length (jobs d)"
  "length (jobs (snd (sql_CreateRun payload r t d))) = length (jobs d)"
  "length (jobs (snd (sql_SetRunStatus rid status t d))) = length (jobs d)"
  "length (jobs (snd (sql_UpsertStep st t d))) = length (jobs d)"
  "length (jobs (snd (sql_UpsertOutput jid key val t d))) = length (jobs d)"
  "length (jobs (snd (sql_CreateRunner rn t d))) = length (jobs d)"
  "length (jobs (snd (sql_UpdateHeartbeat rid at t d))) = length (jobs d)"
  "length (jobs (snd (sql_SetStatus rid status t d))) = length (jobs d)"
  "length (jobs (snd (sql_MarkStaleOffline cutoff t d))) = length (jobs d)"
  "length (jobs (snd (sql_Append c t d))) = length (jobs d)"
  by (simp_all add: sql_TransitionStatus_def sql_Lease_def sql_RenewLease_def sql_RequeueExpired_def
      sql_SetResult_def snd_update_jobs sql_CreateRun_def sql_SetRunStatus_def sql_UpsertStep_def
      sql_UpsertOutput_def sql_CreateRunner_def sql_UpdateHeartbeat_def sql_SetStatus_def
      sql_MarkStaleOffline_def sql_Append_def update_runners_def split: option.splits)

subsection \<open>Relations on single job rows\<close>

definition rows_kept :: "(Job \<Rightarrow> Job \<Rightarrow> bool) \<Rightarrow> database \<Rightarrow> database \<Rightarrow> bool" where
  "rows_kept Q d d' \<longleftrightarrow> list_all2 Q (jobs d) (take (length (jobs d)) (jobs d'))"

lemma rows_kept_same: "(\<And>j. Q j j) \<Longrightarrow> jobs d' = jobs d @ new \<Longrightarrow> rows_kept Q d d'"
  by (simp add: rows_kept_def list.rel_refl)

lemma rows_kept_update:
  "(\<And>j. Q j j) \<Longrightarrow> (\<And>j. P j \<Longrightarrow> Q j (f j)) \<Longrightarrow> rows_kept Q d (d\<lparr>jobs := update_where P f (jobs d)\<rparr>)"
  by (simp add: rows_kept_def list_all2_update_where)

lemma rows_kept_trans:
  assumes "\<And>a b c. Q a b \<Longrightarrow> Q b c \<Longrightarrow> Q a c" and "rows_kept Q d d'" and "rows_kept Q d' d''"
  shows "rows_kept Q d d''"
proof -
  let ?n = "length (jobs d)"
  have "?n \<le> length (jobs d')"
    using assms(2) by (auto simp: rows_kept_def dest: list_all2_lengthD)
  moreover have "list_all2 Q (take ?n (jobs d')) (take ?n (take (length (jobs d')) (jobs d'')))"
    using assms(3) unfolding rows_kept_def by (rule list_all2_takeI)
  ultimately have "list_all2 Q (take ?n (jobs d')) (take ?n (jobs d''))"
    by (simp add: min_def)
  with assms(2) show ?thesis
    unfolding rows_kept_def by (blast intro: list_all2_trans assms(1))
qed

lemma rows_kept_nth:
  assumes "rows_kept Q d d'" and "i < length (jobs d)"
  shows "i < length (jobs d')" "Q (jobs d ! i) (jobs d' ! i)"
  using assms by (auto simp: rows_kept_def list_all2_conv_all_nth)

lemma rows_kept_row:
  assumes "rows_kept Q d d'" and "j \<in> set (jobs d)"
  obtains j' where "j' \<in> set (jobs d')" "Q j j'"
proof -
  from assms(2) obtain i where "i < length (jobs d)" "jobs d ! i = j" by (auto simp: in_set_conv_nth)
  with rows_kept_nth [OF assms(1)] show thesis by (intro that [of "jobs d' ! i"]) auto
qed

locale job_row_rel =
  fixes Q :: "Job \<Rightarrow> Job \<Rightarrow> bool"
  assumes Q_refl: "Q j j"
    and Q_trans: "Q j j' \<Longrightarrow> Q j' j'' \<Longrightarrow> Q j j''"
    and Q_status: "requested_transition (j_Status j) to \<Longrightarrow> Q j (j\<lparr>j_Status := to\<rparr>)"
    and Q_lease: "j_Status j = ''queued'' \<Longrightarrow> Q j (lease_row leaseID runnerID deadline t j)"
    and Q_renew: "j_LeaseID j = Some leaseID \<Longrightarrow> Q j (j\<lparr>j_LeaseDeadline := Some deadline\<rparr>)"
    and Q_requeue: "lease_expired cutoff j \<Longrightarrow> Q j (requeue_row j)"
    and Q_result: "Q j (result_row result finishedAt j)"
begin

lemmas job_rows = rows_kept_same [of Q, OF Q_refl] rows_kept_update [of Q, OF Q_refl]

end

sublocale job_row_rel \<subseteq> store_rel "rows_kept Q"
proof unfold_locales
  fix d d' d'' :: database
  show "rows_kept Q d d" by (rule job_rows(1) [where new = "[]"]) simp
  show "rows_kept Q d d' \<Longrightarrow> rows_kept Q d' d'' \<Longrightarrow> rows_kept Q d d''"
    by (rule rows_kept_trans [OF Q_trans])
next
  fix j :: Job and d :: database and cell t
  show "rows_kept Q d (snd (sql_CreateJob cell j t d))"
    by (rule job_rows(1) [where new = "if sql_CreateJob cell j t d = (Inl ErrConstraint, d) then []
          else [j\<lparr>j_MatrixCellJSON := the cell\<rparr>]"])
      (auto simp: sql_CreateJob_def split: option.splits)
next
  fix d jid src dst t
  assume "requested_transition src dst"
  then show "rows_kept Q d (snd (sql_TransitionStatus jid src dst t d))"
    unfolding sql_TransitionStatus_def snd_update_jobs by (intro job_rows(2)) (auto intro: Q_status)
next
  fix d :: database and jid leaseID runnerID :: uuid and deadline t
  show "rows_kept Q d (snd (sql_Lease jid leaseID runnerID deadline t d))"
    unfolding sql_Lease_def snd_update_jobs by (intro job_rows(2)) (auto intro: Q_lease)
  show "rows_kept Q d (snd (sql_RenewLease leaseID deadline t d))"
    unfolding sql_RenewLease_def snd_update_jobs by (intro job_rows(2)) (auto intro: Q_renew)
next
  fix d :: database and cutoff finishedAt t and jid :: uuid and result
  show "rows_kept Q d (snd (sql_RequeueExpired cutoff t d))"
    unfolding sql_RequeueExpired_def by (simp, intro job_rows(2)) (auto intro: Q_requeue)
  show "rows_kept Q d (snd (sql_SetResult jid result finishedAt t d))"
    unfolding sql_SetResult_def snd_update_jobs by (intro job_rows(2)) (auto intro: Q_result)
qed (rule job_rows(1) [where new = "[]"], auto simp: sql_CreateRun_def sql_SetRunStatus_def
    sql_UpsertStep_def sql_UpsertOutput_def sql_CreateRunner_def sql_UpdateHeartbeat_def
    sql_SetStatus_def sql_MarkStaleOffline_def sql_Append_def update_runners_def split: option.splits)+

end
