(* ===== verification/Job_Machine.thy ===== *)
theory Job_Machine
  imports Stores
begin

text \<open>
  The abstract behaviour of the jobs table. Interpretations of the store interface give the
  laws every handler inherits: a job moves along the state machine of \<open>jobTransitions\<close>, its
  planned columns and its start time never change, and the database stays well formed.
  Sequences of statements, from any number of sessions in any interleaving, then show the
  exactly-once handoff: a job is leased again only after the reaper found its lease expired.
\<close>

subsection \<open>The state machine\<close>

definition legal_path :: "string \<Rightarrow> string \<Rightarrow> bool" where
  "legal_path = isLegalJobTransition\<^sup>*\<^sup>*"

lemma legal_path_refl [simp]: "legal_path s s"
  by (simp add: legal_path_def)

lemma legal_path_trans: "legal_path a b \<Longrightarrow> legal_path b c \<Longrightarrow> legal_path a c"
  by (simp add: legal_path_def)

lemma legal_path_step: "isLegalJobTransition a b \<Longrightarrow> legal_path a b"
  by (auto simp: legal_path_def)

lemma terminal_no_step: "a \<in> set terminal_statuses \<Longrightarrow> \<not> isLegalJobTransition a b"
  by (auto simp: terminal_statuses_def isLegalJobTransition_def jobTransitions_def)

lemma terminal_path: "a \<in> set terminal_statuses \<Longrightarrow> legal_path a b \<longleftrightarrow> b = a"
  unfolding legal_path_def by (auto elim: converse_rtranclpE dest: terminal_no_step)

lemma running_path: "legal_path ''running'' b \<Longrightarrow> b = ''running'' \<or> b \<in> set terminal_statuses"
  unfolding legal_path_def
  by (erule converse_rtranclpE)
    (auto elim!: isLegal_cases simp: terminal_path [unfolded legal_path_def] terminal_statuses_def)

subsection \<open>Job rows along the machine\<close>

definition moves_legally :: "Job \<Rightarrow> Job \<Rightarrow> bool" where
  "moves_legally j j' \<longleftrightarrow> j_ID j' = j_ID j \<and> legal_path (j_Status j) (j_Status j')"

interpretation path: job_row_rel moves_legally
proof unfold_locales
  fix j :: Job and cutoff
  show "lease_expired cutoff j \<Longrightarrow> moves_legally j (requeue_row j)"
    by (auto simp: moves_legally_def requeue_row_def lease_expired_def isLegalJobTransition_def
        jobTransitions_def intro!: legal_path_step)
qed (auto simp: moves_legally_def lease_row_def result_row_def isLegalJobTransition_def
    jobTransitions_def intro: legal_path_trans legal_path_step requested_legal)

definition same_plan :: "Job \<Rightarrow> Job \<Rightarrow> bool" where
  "same_plan j j' \<longleftrightarrow> j_ID j' = j_ID j \<and> j_RunID j' = j_RunID j \<and> j_JobIDYAML j' = j_JobIDYAML j \<and>
     j_Name j' = j_Name j \<and> j_MatrixCellJSON j' = j_MatrixCellJSON j \<and> j_Needs j' = j_Needs j \<and>
     j_IfExpr j' = j_IfExpr j \<and> (j_StartedAt j \<noteq> None \<longrightarrow> j_StartedAt j' = j_StartedAt j)"

interpretation plan: job_row_rel same_plan
  by unfold_locales
    (auto simp: same_plan_def lease_row_def requeue_row_def result_row_def split: option.splits)

subsection \<open>Well-formed databases\<close>

text \<open>
  A queued job carries no lease; a leased or running one has a runner, a lease and a
  deadline. A job that was never leased has no start time.
\<close>

definition lease_shape :: "Job \<Rightarrow> bool" where
  "lease_shape j \<longleftrightarrow>
     (j_Status j = ''queued'' \<longrightarrow> j_RunnerID j = None \<and> j_LeaseID j = None \<and> j_LeaseDeadline j = None) \<and>
     (j_Status j \<in> {''leased'', ''running''} \<longrightarrow>
        j_RunnerID j \<noteq> None \<and> j_LeaseID j \<noteq> None \<and> j_LeaseDeadline j \<noteq> None \<and> j_StartedAt j \<noteq> None) \<and>
     j_Status j \<in> {''queued'', ''leased'', ''running''} \<union> set terminal_statuses \<and>
     j_Needs j \<noteq> None"

definition db_ok :: "database \<Rightarrow> bool" where
  "db_ok d \<longleftrightarrow>
     distinct (map j_ID (jobs d)) \<and> distinct (map run_ID (workflow_runs d)) \<and>
     distinct (map rn_ID (runners d)) \<and> distinct (map step_key (steps d)) \<and>
     distinct (map (\<lambda>r. (o_JobRowID r, o_Key r)) (job_outputs d)) \<and> chunks_ok d \<and>
     j_RunID ` set (jobs d) \<subseteq> run_ID ` set (workflow_runs d) \<and>
     st_JobRowID ` set (steps d) \<subseteq> j_ID ` set (jobs d) \<and>
     o_JobRowID ` set (job_outputs d) \<subseteq> j_ID ` set (jobs d) \<and>
     (\<forall>j\<in>set (jobs d). lease_shape j)"

definition keeps_ok :: "database \<Rightarrow> database \<Rightarrow> bool" where
  "keeps_ok d d' \<longleftrightarrow> (db_ok d \<longrightarrow> db_ok d')"

text \<open>An update of the jobs table that keeps keys and row shapes keeps the database well formed.\<close>

lemma keeps_ok_update_jobs:
  assumes "\<And>j. P j \<Longrightarrow> j_ID (f j) = j_ID j \<and> j_RunID (f j) = j_RunID j"
    and "\<And>j. P j \<Longrightarrow> lease_shape j \<Longrightarrow> lease_shape (f j)"
  shows "keeps_ok d (d\<lparr>jobs := update_where P f (jobs d)\<rparr>)"
proof -
  have ids: "map j_ID (update_where P f (jobs d)) = map j_ID (jobs d)"
    using assms(1) by (auto intro!: map_update_where_same)
  have "j_ID ` set (update_where P f (jobs d)) = j_ID ` set (jobs d)"
    "j_RunID ` set (update_where P f (jobs d)) = j_RunID ` set (jobs d)"
    using assms(1) by (auto intro!: image_update_where)
  moreover have "\<forall>j\<in>set (jobs d). lease_shape j \<Longrightarrow> \<forall>j\<in>set (update_where P f (jobs d)). lease_shape j"
    using assms(2) by (auto simp: set_update_where)
  ultimately show ?thesis
    using ids by (simp add: keeps_ok_def db_ok_def chunks_ok_def)
qed

lemma lease_shape_requested:
  "requested_transition (j_Status j) to \<Longrightarrow> lease_shape j \<Longrightarrow> lease_shape (j\<lparr>j_Status := to\<rparr>)"
  by (auto simp: lease_shape_def requested_transition_def terminal_statuses_def)

interpretation ok: store_rel keeps_ok
proof unfold_locales
  fix d :: database and j :: Job and cell t
  assume "new_job j"
  then show "keeps_ok d (snd (sql_CreateJob cell j t d))"
    by (auto simp: keeps_ok_def db_ok_def chunks_ok_def sql_CreateJob_def new_job_def lease_shape_def
        split: option.splits)
next
  fix d jid src dst t
  assume r: "requested_transition src dst"
  show "keeps_ok d (snd (sql_TransitionStatus jid src dst t d))"
    unfolding sql_TransitionStatus_def snd_update_jobs
    by (rule keeps_ok_update_jobs) (use r in \<open>auto intro: lease_shape_requested\<close>)
next
  fix d :: database and jid leaseID runnerID :: uuid and deadline t
  show "keeps_ok d (snd (sql_Lease jid leaseID runnerID deadline t d))"
    unfolding sql_Lease_def snd_update_jobs
    by (rule keeps_ok_update_jobs) (auto simp: lease_row_def lease_shape_def split: option.splits)
  show "keeps_ok d (snd (sql_RenewLease leaseID deadline t d))"
    unfolding sql_RenewLease_def snd_update_jobs
    by (rule keeps_ok_update_jobs) (auto simp: lease_shape_def)
next
  fix d :: database and cutoff finishedAt t and jid :: uuid and result
  show "keeps_ok d (snd (sql_RequeueExpired cutoff t d))"
    unfolding sql_RequeueExpired_def snd_conv
    by (rule keeps_ok_update_jobs) (auto simp: requeue_row_def lease_shape_def)
  show "keeps_ok d (snd (sql_SetResult jid result finishedAt t d))"
    unfolding sql_SetResult_def snd_update_jobs
    by (rule keeps_ok_update_jobs) (auto simp: result_row_def lease_shape_def)
next
  fix d :: database and payload and r :: Run and rid :: uuid and status t
  show "keeps_ok d (snd (sql_CreateRun payload r t d))"
    by (auto simp: keeps_ok_def db_ok_def chunks_ok_def sql_CreateRun_def split: option.splits)
  show "keeps_ok d (snd (sql_SetRunStatus rid status t d))"
    by (auto simp: keeps_ok_def db_ok_def chunks_ok_def sql_SetRunStatus_def map_update_where_same
        image_update_where)
next
  fix d :: database and st :: Step and t
  have "step_key (step_row st s) = step_key s" for s by (simp add: step_key_def step_row_def)
  then show "keeps_ok d (snd (sql_UpsertStep st t d))"
    by (auto simp: keeps_ok_def db_ok_def chunks_ok_def sql_UpsertStep_def map_update_where_same
        image_update_where step_row_def find_None_iff split: option.splits)
next
  fix d :: database and jid key val t
  show "keeps_ok d (snd (sql_UpsertOutput jid key val t d))"
    by (auto simp: keeps_ok_def db_ok_def chunks_ok_def sql_UpsertOutput_def map_update_where_same
        image_update_where)
next
  fix d :: database and rn :: Runner and rid :: uuid and at status cutoff c t
  show "keeps_ok d (snd (sql_CreateRunner rn t d))"
    by (simp add: keeps_ok_def db_ok_def chunks_ok_def sql_CreateRunner_def)
  show "keeps_ok d (snd (sql_UpdateHeartbeat rid at t d))"
    by (simp add: keeps_ok_def db_ok_def chunks_ok_def sql_UpdateHeartbeat_def update_runners_def map_update_where_same)
  show "keeps_ok d (snd (sql_SetStatus rid status t d))"
    by (simp add: keeps_ok_def db_ok_def chunks_ok_def sql_SetStatus_def update_runners_def map_update_where_same)
  show "keeps_ok d (snd (sql_MarkStaleOffline cutoff t d))"
    by (simp add: keeps_ok_def db_ok_def chunks_ok_def sql_MarkStaleOffline_def map_update_where_same)
  show "keeps_ok d (snd (sql_Append c t d))"
    by (auto simp: keeps_ok_def db_ok_def chunks_ok_def sql_Append_def split: option.splits)
qed (simp_all add: keeps_ok_def)

end
