(* ===== verification/Go_Strings.thy ===== *)
theory Go_Strings
  imports Prelude
begin

text \<open>
  The functions of Go's \<open>strings\<close> and \<open>strconv\<close> packages the server uses, on byte
  strings, with the laws the components need: splitting and joining, searching, and the
  round trip of decimal numbers.
\<close>

subsection \<open>Searching and trimming\<close>

definition HasPrefix :: "string \<Rightarrow> string \<Rightarrow> bool" where
  "HasPrefix s p = prefix p s"

definition HasSuffix :: "string \<Rightarrow> string \<Rightarrow> bool" where
  "HasSuffix s p = suffix p s"

definition TrimPrefix :: "string \<Rightarrow> string \<Rightarrow> string" where
  "TrimPrefix s p = (if prefix p s then drop (length p) s else s)"

text \<open>\<open>strings.Index\<close>; \<open>None\<close> is -1.\<close>

fun Index :: "string \<Rightarrow> string \<Rightarrow> nat option" where
  "Index [] sub = (if sub = [] then Some 0 else None)"
| "Index (c # cs) sub = (if prefix sub (c # cs) then Some 0 else map_option Suc (Index cs sub))"

definition Contains :: "string \<Rightarrow> string \<Rightarrow> bool" where
  "Contains s sub \<longleftrightarrow> Index s sub \<noteq> None"

text \<open>The ASCII white space \<open>strings.TrimSpace\<close> removes.\<close>

definition is_space :: "char \<Rightarrow> bool" where
  "is_space c \<longleftrightarrow> c \<in> {CHR '' '', CHR 0x09, CHR 0x0A, CHR 0x0B, CHR 0x0C, CHR 0x0D}"

definition TrimSpace :: "string \<Rightarrow> string" where
  "TrimSpace s = rev (dropWhile is_space (rev (dropWhile is_space s)))"

definition TrimRight :: "string \<Rightarrow> char \<Rightarrow> string" where
  "TrimRight s c = rev (dropWhile (\<lambda>x. x = c) (rev s))"

subsection \<open>Splitting and joining\<close>

fun Split :: "char \<Rightarrow> string \<Rightarrow> string list" where
  "Split sep [] = [[]]"
| "Split sep (c # cs) =
     (if c = sep then [] # Split sep cs
      else case Split sep cs of [] \<Rightarrow> [[c]] | p # ps \<Rightarrow> (c # p) # ps)"

text \<open>\<open>strings.SplitN(s, sep, 2)\<close>: what stands before the first separator, and the rest.\<close>

definition SplitN2 :: "char \<Rightarrow> string \<Rightarrow> string list" where
  "SplitN2 sep s =
     (let h = takeWhile (\<lambda>c. c \<noteq> sep) s in
      if length h = length s then [s] else [h, drop (Suc (length h)) s])"

fun Join :: "string list \<Rightarrow> string \<Rightarrow> string" where
  "Join [] sep = []"
| "Join [p] sep = p"
| "Join (p # ps) sep = p @ sep @ Join ps sep"

definition ReplaceAll :: "char \<Rightarrow> string \<Rightarrow> string" where
  "ReplaceAll c s = filter (\<lambda>x. x \<noteq> c) s"

subsection \<open>Decimal numbers\<close>

definition char_code :: "char \<Rightarrow> nat" where
  "char_code c = of_char c"

fun digits_val :: "nat \<Rightarrow> string \<Rightarrow> nat option" where
  "digits_val acc [] = Some acc"
| "digits_val acc (c # cs) =
     (if 48 \<le> char_code c \<and> char_code c \<le> 57 then digits_val (10 * acc + (char_code c - 48)) cs else None)"

text \<open>
  \<open>strconv.ParseInt(s, 10, 64)\<close> and \<open>strconv.Atoi\<close> on a 64-bit platform: an optional
  sign, at least one digit, and a value in the range of int64.
\<close>

definition int64_min :: int where "int64_min = - (2 ^ 63)"
definition int64_max :: int where "int64_max = 2 ^ 63 - 1"

definition in_int64 :: "int \<Rightarrow> bool" where
  "in_int64 n \<longleftrightarrow> int64_min \<le> n \<and> n \<le> int64_max"

definition range64 :: "int \<Rightarrow> int option" where
  "range64 n = (if in_int64 n then Some n else None)"

definition ParseInt :: "string \<Rightarrow> int option" where
  "ParseInt s =
     (let neg = (s \<noteq> [] \<and> hd s = CHR ''-'');
          body = (if s \<noteq> [] \<and> (hd s = CHR ''-'' \<or> hd s = CHR ''+'') then tl s else s)
      in if body = [] then None
         else case digits_val 0 body of
                None \<Rightarrow> None
              | Some n \<Rightarrow> range64 (if neg then - int n else int n))"

fun nat_digits :: "nat \<Rightarrow> string" where
  "nat_digits n = (if n < 10 then [char_of (48 + n)] else nat_digits (n div 10) @ [char_of (48 + n mod 10)])"

declare nat_digits.simps [simp del]

text \<open>The verb \<open>%d\<close>.\<close>

definition Itoa :: "int \<Rightarrow> string" where
  "Itoa n = (if n < 0 then CHR ''-'' # nat_digits (nat (- n)) else nat_digits (nat n))"

text \<open>A 64-bit signed result: Go's int64 arithmetic wraps around.\<close>

definition wrap64 :: "int \<Rightarrow> int" where
  "wrap64 n = sint (word_of_int n :: 64 word)"

subsection \<open>Laws\<close>

lemma Index_SomeD: "Index s sub = Some i \<Longrightarrow> s = take i s @ sub @ drop (i + length sub) s"
proof (induction s sub arbitrary: i rule: Index.induct)
  case (2 c cs sub)
  then show ?case by (auto simp: prefix_def split: if_splits)
qed (auto split: if_splits)

lemma Index_NoneD: "Index s sub = None \<Longrightarrow> s \<noteq> a @ sub @ b"
proof (induction s sub arbitrary: a rule: Index.induct)
  case (2 c cs sub)
  show ?case
  proof
    assume eq: "c # cs = a @ sub @ b"
    show False
    proof (cases a)
      case Nil
      with eq "2.prems" show False by (metis Index.simps(2) append_Nil option.distinct(1) prefixI)
    next
      case (Cons x a')
      with eq have "cs = a' @ sub @ b" by simp
      moreover have "Index cs sub = None" using "2.prems" by (auto split: if_splits)
      ultimately show False using "2.IH" "2.prems" by (auto split: if_splits)
    qed
  qed
qed (auto split: if_splits)

lemma Contains_iff: "Contains s sub \<longleftrightarrow> (\<exists>a b. s = a @ sub @ b)"
  unfolding Contains_def by (metis Index_NoneD Index_SomeD not_None_eq)

text \<open>The first occurrence of a byte that does not occur before it.\<close>

lemma Index_char_append: "c \<notin> set a \<Longrightarrow> Index (a @ c # b) [c] = Some (length a)"
  by (induction a) (auto simp: prefix_def)

lemma SplitN2_append: "sep \<notin> set a \<Longrightarrow> SplitN2 sep (a @ sep # b) = [a, b]"
proof -
  assume "sep \<notin> set a"
  then have "takeWhile (\<lambda>c. c \<noteq> sep) (a @ sep # b) = a" by (induction a) auto
  then show ?thesis by (simp add: SplitN2_def)
qed

lemma SplitN2_cases:
  obtains (one) "sep \<notin> set s" "SplitN2 sep s = [s]"
    | (two) a b where "s = a @ sep # b" "sep \<notin> set a" "SplitN2 sep s = [a, b]"
proof (cases "sep \<in> set s")
  case True
  then obtain a b where "s = a @ sep # b" "sep \<notin> set a" by (meson split_list_first)
  then show thesis by (intro that(2) [of a b]) (simp_all add: SplitN2_append)
next
  case False
  then have "takeWhile (\<lambda>c. c \<noteq> sep) s = s" by (induction s) auto
  with False that(1) show thesis by (simp add: SplitN2_def)
qed

lemma SplitN2_none: "c \<notin> set s \<Longrightarrow> SplitN2 c s = [s]"
  by (rule SplitN2_cases [of c s]) auto

lemma Split_nonempty [simp]: "Split sep s \<noteq> []"
  by (cases s) (auto split: list.splits)

lemma Split_no_sep: "p \<in> set (Split sep s) \<Longrightarrow> sep \<notin> set p"
proof (induction s arbitrary: p)
  case (Cons c s)
  then show ?case
    by (cases "Split sep s") (auto split: if_splits)
qed simp

lemma Join_Cons: "ps \<noteq> [] \<Longrightarrow> Join (p # ps) sep = p @ sep @ Join ps sep"
  by (cases ps) auto

lemma Join_Split: "Join (Split sep s) [sep] = s"
proof (induction s)
  case (Cons c s)
  show ?case
  proof (cases "Split sep s")
    case (Cons p ps)
    with Cons.IH show ?thesis by (cases ps) (auto simp: Join_Cons)
  qed simp
qed simp

lemma digit_code: "k < 10 \<Longrightarrow> char_code (char_of (48 + k)) = 48 + k"
  by (simp add: char_code_def of_char_of)

lemma digits_val_append: "digits_val acc (xs @ ys) =
    (case digits_val acc xs of None \<Rightarrow> None | Some a \<Rightarrow> digits_val a ys)"
  by (induction xs arbitrary: acc) auto

lemma digits_val_nat_digits: "digits_val 0 (nat_digits n) = Some n"
proof (induction n rule: nat_digits.induct)
  case (1 n)
  show ?case
  proof (cases "n < 10")
    case True
    then show ?thesis by (simp add: nat_digits.simps [of n] digit_code)
  next
    case False
    with 1 show ?thesis
      by (simp add: nat_digits.simps [of n] digits_val_append digit_code)
  qed
qed

lemma nat_digits_nonempty [simp]: "nat_digits n \<noteq> []"
  by (simp add: nat_digits.simps [of n])

lemma Itoa_nonempty [simp]: "Itoa n \<noteq> []"
  by (simp add: Itoa_def)

lemma nat_digits_hd: "\<exists>k<(10::nat). hd (nat_digits n) = char_of (48 + k)"
proof (induction n rule: nat_digits.induct)
  case (1 n)
  show ?case
  proof (cases "n < 10")
    case False
    with 1 show ?thesis by (subst nat_digits.simps) simp
  qed (subst nat_digits.simps, auto)
qed

lemma ParseInt_Itoa:
  assumes "in_int64 n"
  shows "ParseInt (Itoa n) = Some n"
proof -
  obtain k where k: "k < (10::nat)" "hd (nat_digits (nat n)) = char_of (48 + k)"
    using nat_digits_hd by blast
  then have "char_code (hd (nat_digits (nat n))) = 48 + k" by (simp add: digit_code)
  then have "hd (nat_digits (nat n)) \<noteq> CHR ''-''" "hd (nat_digits (nat n)) \<noteq> CHR ''+''"
    by (auto simp: char_code_def)
  with assms show ?thesis
    by (auto simp: ParseInt_def Itoa_def Let_def digits_val_nat_digits range64_def)
qed

lemma wrap64_id: "in_int64 n \<Longrightarrow> wrap64 n = n"
  unfolding wrap64_def in_int64_def int64_min_def int64_max_def
  by (simp add: signed_take_bit_int_eq_self sint_sbintrunc' )

lemma wrap64_range: "in_int64 (wrap64 n)"
  using sint_range_size [of "word_of_int n :: 64 word"]
  by (simp add: wrap64_def in_int64_def int64_min_def int64_max_def word_size)

end
