(* ===== verification/Sample.thy ===== *)
theory Sample
  imports Store_Model Go_Strings
begin

text \<open>
  A concrete environment and database, on which the witnesses of the theorems evaluate: a
  run with the jobs \<open>build\<close>, \<open>test\<close> (which needs \<open>build\<close>) and \<open>docs\<close> (which needs
  \<open>test\<close>), and one registered runner.
\<close>

definition sample_env :: env where
  "sample_env =
     \<lparr>other = \<lambda>_ d. d, fault = \<lambda>_. False, clock = \<lambda>n. int n * 1000000,
      new_uuid = \<lambda>n. of_nat (1000 + n), jsonb = Some\<rparr>"

lemma solo_sample_env [simp]: "solo sample_env"
  by (simp add: solo_def sample_env_def)

definition sample_run :: Run where
  "sample_run =
     \<lparr>run_ID = 1, run_Repo = ''acme/app'', run_Ref = ''refs/heads/main'', run_SHA = ''abc'',
      run_Event = ''push'', run_EventPayloadJSON = Some ''{}'', run_TriggeredBy = ''dev'',
      run_Status = ''queued'', run_WorkflowYAML = ''on: push'', run_CreatedAt = 0\<rparr>"

definition sample_job :: "uuid \<Rightarrow> string \<Rightarrow> string list \<Rightarrow> Job" where
  "sample_job jid yaml needs =
     \<lparr>j_ID = jid, j_RunID = 1, j_JobIDYAML = yaml, j_Name = yaml, j_MatrixCellJSON = None,
      j_Needs = Some needs, j_IfExpr = None, j_Status = ''queued'', j_RunnerID = None,
      j_LeaseID = None, j_LeaseDeadline = None, j_Result = None, j_StartedAt = None, j_FinishedAt = None\<rparr>"

definition sample_runner :: Runner where
  "sample_runner =
     \<lparr>rn_ID = 7, rn_Name = ''r7'', rn_Labels = Some [], rn_Mode = ''host'', rn_Capacity = 1,
      rn_Version = ''v1'', rn_Status = ''online'', rn_LastHeartbeat = Some 0, rn_CreatedAt = 0,
      rn_AuthToken = ''tok''\<rparr>"

definition sample_jobs :: "Job list" where
  "sample_jobs = [sample_job 11 ''build'' [], sample_job 12 ''test'' [''build''], sample_job 13 ''docs'' [''test'']]"

definition db_with :: "Job list \<Rightarrow> database" where
  "db_with js = empty_db\<lparr>runners := [sample_runner], workflow_runs := [sample_run], jobs := js\<rparr>"

definition world_with :: "database \<Rightarrow> world" where
  "world_with d = \<lparr>db = d, waiters = [], woken = [], log_subs = [], closed_subs = [], posted = [], tick = 0\<rparr>"

lemmas sample_defs = sample_run_def sample_job_def sample_runner_def sample_jobs_def
  db_with_def world_with_def empty_db_def

end
