(* ===== verification/Lease_Trace.thy ===== *)
theory Lease_Trace
  imports Job_Machine Sample
begin

text \<open>
  Sequences of the statements the server's sessions send to the jobs table, in any
  interleaving: the race of several \<open>AcquireJob\<close> calls for one job. The statements are
  those of \<open>job_store.go\<close>; a sequence is executed one after the other, as Postgres
  serialises updates of one row.
\<close>

datatype job_op =
    OpCreate "char slice option" Job
  | OpTransition uuid string string
  | OpLease uuid uuid uuid time
  | OpRenew uuid time
  | OpRequeue time
  | OpResult uuid string time

fun exec_op :: "time \<Rightarrow> job_op \<Rightarrow> database \<Rightarrow> (store_error + unit) \<times> database" where
  "exec_op t (OpCreate cell j) d = sql_CreateJob cell j t d"
| "exec_op t (OpTransition jid src dst) d = sql_TransitionStatus jid src dst t d"
| "exec_op t (OpLease jid leaseID runnerID deadline) d = sql_Lease jid leaseID runnerID deadline t d"
| "exec_op t (OpRenew leaseID deadline) d = sql_RenewLease leaseID deadline t d"
| "exec_op t (OpRequeue cutoff) d = (Inr (), snd (sql_RequeueExpired cutoff t d))"
| "exec_op t (OpResult jid result finishedAt) d = sql_SetResult jid result finishedAt t d"

text \<open>The statements the handlers send: only requested transitions, only new jobs.\<close>

fun server_op :: "job_op \<Rightarrow> bool" where
  "server_op (OpCreate cell j) = new_job j"
| "server_op (OpTransition jid src dst) = requested_transition src dst"
| "server_op _ = True"

fun run_ops :: "(time \<times> job_op) list \<Rightarrow> database \<Rightarrow> database" where
  "run_ops [] d = d"
| "run_ops ((t, x) # xs) d = run_ops xs (snd (exec_op t x d))"

definition job_row :: "uuid \<Rightarrow> database \<Rightarrow> Job option" where
  "job_row jid d = find (\<lambda>j. j_ID j = jid) (jobs d)"

lemma run_ops_append: "run_ops (xs @ ys) d = run_ops ys (run_ops xs d)"
  by (induction xs arbitrary: d) (auto split: prod.splits)

lemma job_row_update:
  assumes "\<And>j. P j \<Longrightarrow> j_ID (f j) = j_ID j"
  shows "job_row jid (d\<lparr>jobs := update_where P f (jobs d)\<rparr>) =
    map_option (\<lambda>j. if P j then f j else j) (job_row jid d)"
  using assms by (simp add: job_row_def find_update_where)

lemma job_row_create: "job_row jid d \<noteq> None \<Longrightarrow> job_row jid (snd (sql_CreateJob cell j t d)) = job_row jid d"
  by (auto simp: job_row_def sql_CreateJob_def find_snoc split: option.splits)

text \<open>What each statement does to one job row.\<close>

fun op_on_row :: "time \<Rightarrow> job_op \<Rightarrow> Job \<Rightarrow> Job" where
  "op_on_row t (OpCreate cell j) r = r"
| "op_on_row t (OpTransition jid src dst) r =
     (if j_ID r = jid \<and> j_Status r = src then r\<lparr>j_Status := dst\<rparr> else r)"
| "op_on_row t (OpLease jid leaseID runnerID deadline) r =
     (if j_ID r = jid \<and> j_Status r = ''queued'' then lease_row leaseID runnerID deadline t r else r)"
| "op_on_row t (OpRenew leaseID deadline) r =
     (if j_LeaseID r = Some leaseID then r\<lparr>j_LeaseDeadline := Some deadline\<rparr> else r)"
| "op_on_row t (OpRequeue cutoff) r = (if lease_expired cutoff r then requeue_row r else r)"
| "op_on_row t (OpResult jid result finishedAt) r =
     (if j_ID r = jid then result_row result finishedAt r else r)"

lemma job_row_exec:
  "job_row jid d = Some r \<Longrightarrow> job_row jid (snd (exec_op t x d)) = Some (op_on_row t x r)"
proof (cases x)
  case (OpCreate cell j)
  assume "job_row jid d = Some r"
  with OpCreate show ?thesis by (simp add: job_row_create)
qed (auto simp: sql_TransitionStatus_def sql_Lease_def sql_RenewLease_def sql_RequeueExpired_def
    sql_SetResult_def snd_update_jobs job_row_update lease_row_def requeue_row_def result_row_def)

text \<open>Only the reaper makes a job queued again.\<close>

lemma back_to_queued:
  assumes "server_op x" and "j_Status r \<noteq> ''queued''" and "j_Status (op_on_row t x r) = ''queued''"
  shows "\<exists>cutoff. x = OpRequeue cutoff \<and> lease_expired cutoff r"
  using assms
  by (cases x) (auto simp: requested_transition_def terminal_statuses_def lease_row_def result_row_def
      split: if_splits)

lemma requeued_between:
  assumes "list_all (server_op \<circ> snd) ys" and "job_row jid d = Some r" and "j_Status r \<noteq> ''queued''"
    and "job_row jid (run_ops ys d) = Some r'" and "j_Status r' = ''queued''"
  shows "\<exists>us t cutoff vs q. ys = us @ (t, OpRequeue cutoff) # vs \<and>
    job_row jid (run_ops us d) = Some q \<and> lease_expired cutoff q"
  using assms
proof (induction ys arbitrary: d r)
  case (Cons y ys)
  obtain t x where y: "y = (t, x)" by (cases y)
  let ?d = "snd (exec_op t x d)" and ?r = "op_on_row t x r"
  have row: "job_row jid ?d = Some ?r" using Cons.prems(2) by (rule job_row_exec)
  show ?case
  proof (cases "j_Status ?r = ''queued''")
    case True
    with back_to_queued Cons.prems y obtain cutoff where "x = OpRequeue cutoff" "lease_expired cutoff r"
      by (metis (no_types, lifting) comp_apply list.pred_inject(2) snd_conv)
    with y Cons.prems(2) show ?thesis
      by (intro exI [of _ "[]"] exI [of _ t] exI [of _ cutoff] exI [of _ ys] exI [of _ r]) simp
  next
    case False
    obtain us t' cutoff vs q where "ys = us @ (t', OpRequeue cutoff) # vs"
      "job_row jid (run_ops us ?d) = Some q" "lease_expired cutoff q"
      using Cons.IH [OF _ row False] Cons.prems y by auto
    with y show ?thesis
      by (intro exI [of _ "y # us"] exI [of _ t'] exI [of _ cutoff] exI [of _ vs] exI [of _ q]) simp
  qed
qed simp

text \<open>A lease that succeeds finds its job queued and leaves it leased to the caller.\<close>

lemma lease_wins:
  assumes "distinct (map j_ID (jobs d))" and "fst (exec_op t (OpLease jid leaseID runnerID deadline) d) = Inr ()"
  shows "\<exists>r. job_row jid d = Some r \<and> j_Status r = ''queued'' \<and>
    job_row jid (snd (exec_op t (OpLease jid leaseID runnerID deadline) d)) =
      Some (lease_row leaseID runnerID deadline t r)"
proof -
  from assms(2) obtain r where r: "r \<in> set (jobs d)" "j_ID r = jid" "j_Status r = ''queued''"
    by (auto simp: sql_Lease_def fst_update_jobs split: if_splits)
  with assms(1) have row: "job_row jid d = Some r"
    unfolding job_row_def by (metis find_unique_key)
  from job_row_exec [OF row, of t "OpLease jid leaseID runnerID deadline"] r row show ?thesis by simp
qed

lemma distinct_ids_exec: "distinct (map j_ID (jobs d)) \<Longrightarrow> distinct (map j_ID (jobs (snd (exec_op t x d))))"
  by (cases x) (auto simp: sql_CreateJob_def sql_TransitionStatus_def sql_Lease_def sql_RenewLease_def
      sql_RequeueExpired_def sql_SetResult_def snd_update_jobs map_update_where_same lease_row_def
      requeue_row_def result_row_def split: option.splits)

lemma distinct_ids_run: "distinct (map j_ID (jobs d)) \<Longrightarrow> distinct (map j_ID (jobs (run_ops xs d)))"
  by (induction xs d rule: run_ops.induct) (auto intro: distinct_ids_exec)

text \<open>
  C1: exactly-once handoff. Take any sequence of statements of any sessions in which a lease
  of a job succeeds and later, after the statements \<open>ys\<close>, another lease of the same job
  succeeds. Then between the two the reaper ran and found the first lease expired. In
  particular two \<open>AcquireJob\<close> calls racing for one queued job never both win it.
\<close>

theorem lease_exactly_once:
  assumes "distinct (map j_ID (jobs d))"
    and "fst (exec_op t1 (OpLease jid lease1 runner1 deadline1) d) = Inr ()"
    and "d1 = snd (exec_op t1 (OpLease jid lease1 runner1 deadline1) d)"
    and "list_all (server_op \<circ> snd) ys"
    and "fst (exec_op t2 (OpLease jid lease2 runner2 deadline2) (run_ops ys d1)) = Inr ()"
  shows "\<exists>us t cutoff vs q. ys = us @ (t, OpRequeue cutoff) # vs \<and>
    job_row jid (run_ops us d1) = Some q \<and> lease_expired cutoff q"
proof -
  obtain r1 where r1: "job_row jid d1 = Some r1" "j_Status r1 = ''leased''"
    using lease_wins [OF assms(1,2)] assms(3) by (auto simp: lease_row_def)
  have "distinct (map j_ID (jobs (run_ops ys d1)))"
    using assms(1,3) by (simp add: distinct_ids_exec distinct_ids_run del: exec_op.simps)
  then obtain r2 where "job_row jid (run_ops ys d1) = Some r2" "j_Status r2 = ''queued''"
    using lease_wins assms(5) by blast
  with r1 assms(4) show ?thesis by (intro requeued_between) auto
qed

theorem lease_exactly_once_witness:
  "\<exists>us t cutoff vs q. [(20, OpRequeue 15)] = us @ (t, OpRequeue cutoff) # vs \<and>
     job_row 11 (run_ops us (snd (exec_op 0 (OpLease 11 50 7 10) (db_with [sample_job 11 ''build'' []])))) = Some q \<and>
     lease_expired cutoff q"
  by (rule lease_exactly_once [of "db_with [sample_job 11 ''build'' []]" 0 11 50 7 10, where ?t2.0 = 30 and ?lease2.0 = 51 and ?runner2.0 = 8 and ?deadline2.0 = 40])
    (simp_all add: sample_defs sql_Lease_def sql_RequeueExpired_def update_jobs_def lease_row_def
      lease_expired_def requeue_row_def)

end
