(* ===== verification/Base64.thy ===== *)
theory Base64
  imports Go_Strings
begin

text \<open>
  Go's \<open>encoding/base64\<close>, as far as the server uses it: \<open>RawURLEncoding.EncodeToString\<close>
  for the auth tokens of runners and \<open>StdEncoding.DecodeString\<close> for file contents from
  GitHub, with the round trip between encoding and decoding.
\<close>

definition stdAlphabet :: string where
  "stdAlphabet = ''ABCDEFGHIJKLMNOPQRSTUVWXYZabcdefghijklmnopqrstuvwxyz0123456789+/''"

definition urlAlphabet :: string where
  "urlAlphabet = ''ABCDEFGHIJKLMNOPQRSTUVWXYZabcdefghijklmnopqrstuvwxyz0123456789-_''"

subsection \<open>Bytes and groups of six bits\<close>

fun sextets :: "nat list \<Rightarrow> nat list" where
  "sextets (a # b # c # xs) =
     a div 4 # (a mod 4 * 16 + b div 16) # (b mod 16 * 4 + c div 64) # c mod 64 # sextets xs"
| "sextets [a, b] = [a div 4, a mod 4 * 16 + b div 16, b mod 16 * 4]"
| "sextets [a] = [a div 4, a mod 4 * 16]"
| "sextets [] = []"

fun octets :: "nat list \<Rightarrow> nat list option" where
  "octets (a # b # c # d # xs) =
     map_option (\<lambda>r. (a * 4 + b div 16) # (b mod 16 * 16 + c div 4) # (c mod 4 * 64 + d) # r) (octets xs)"
| "octets [a, b, c] = Some [a * 4 + b div 16, b mod 16 * 16 + c div 4]"
| "octets [a, b] = Some [a * 4 + b div 16]"
| "octets [a] = None"
| "octets [] = Some []"

lemma high_bits:
  fixes b :: nat
  assumes "b < 256"
  shows "b div 16 div 16 = 0" "b div 16 mod 16 = b div 16" "b div 64 mod 4 = b div 64" "b div 64 div 4 = 0"
proof -
  have "b div 16 < 16" "b div 64 < 4" using assms by auto
  then show "b div 16 div 16 = 0" "b div 16 mod 16 = b div 16" "b div 64 mod 4 = b div 64" "b div 64 div 4 = 0"
    by simp_all
qed

lemma octets_sextets: "list_all (\<lambda>x. x < 256) xs \<Longrightarrow> octets (sextets xs) = Some xs"
  by (induction xs rule: sextets.induct) (simp_all add: high_bits)

lemma sextets_range: "list_all (\<lambda>x. x < 256) xs \<Longrightarrow> list_all (\<lambda>x. x < 64) (sextets xs)"
  by (induction xs rule: sextets.induct) auto

lemma length_sextets: "length (sextets xs) = (8 * length xs + 5) div 6"
  by (induction xs rule: sextets.induct) auto

subsection \<open>Encoding\<close>

definition encode_raw :: "string \<Rightarrow> bytes \<Rightarrow> string" where
  "encode_raw alphabet xs = map (\<lambda>i. alphabet ! i) (sextets (map char_code xs))"

definition RawURLEncoding_EncodeToString :: "bytes \<Rightarrow> string" where
  "RawURLEncoding_EncodeToString = encode_raw urlAlphabet"

subsection \<open>Decoding\<close>

fun index_of :: "string \<Rightarrow> char \<Rightarrow> nat option" where
  "index_of [] c = None"
| "index_of (x # xs) c = (if x = c then Some 0 else map_option Suc (index_of xs c))"

fun code_points :: "string \<Rightarrow> string \<Rightarrow> nat list option" where
  "code_points alphabet [] = Some []"
| "code_points alphabet (c # cs) =
     (case index_of alphabet c of
        None \<Rightarrow> None
      | Some i \<Rightarrow> map_option ((#) i) (code_points alphabet cs))"

definition decode_raw :: "string \<Rightarrow> string \<Rightarrow> bytes option" where
  "decode_raw alphabet s =
     (case code_points alphabet s of
        None \<Rightarrow> None
      | Some is \<Rightarrow> map_option (map char_of) (octets is))"

text \<open>
  Carriage returns and newlines are ignored; what remains is groups of four characters, the
  last of which may end in one or two padding characters.
\<close>

fun decode_groups :: "string \<Rightarrow> bytes option" where
  "decode_groups [] = Some []"
| "decode_groups (a # b # c # d # rest) =
     (if c = CHR ''='' then
        (if d = CHR ''='' \<and> rest = [] then decode_raw stdAlphabet [a, b] else None)
      else if d = CHR ''='' then
        (if rest = [] then decode_raw stdAlphabet [a, b, c] else None)
      else case decode_raw stdAlphabet [a, b, c, d] of
             None \<Rightarrow> None
           | Some xs \<Rightarrow> map_option ((@) xs) (decode_groups rest))"
| "decode_groups _ = None"

definition StdEncoding_DecodeString :: "string \<Rightarrow> bytes option" where
  "StdEncoding_DecodeString s = decode_groups (filter (\<lambda>c. c \<noteq> CHR 0x0D \<and> c \<noteq> CHR 0x0A) s)"

subsection \<open>Round trip\<close>

lemma index_of_nth: "distinct al \<Longrightarrow> i < length al \<Longrightarrow> index_of al (al ! i) = Some i"
proof (induction al arbitrary: i)
  case (Cons x xs)
  then show ?case by (cases i) auto
qed simp

lemma code_points_map:
  "distinct al \<Longrightarrow> list_all (\<lambda>i. i < length al) is \<Longrightarrow> code_points al (map ((!) al) is) = Some is"
  by (induction "is") (auto simp: index_of_nth)

lemma alphabets: "distinct urlAlphabet" "distinct stdAlphabet" "length urlAlphabet = 64" "length stdAlphabet = 64"
  by (simp_all add: urlAlphabet_def stdAlphabet_def)

lemma char_codes: "list_all (\<lambda>x. x < 256) (map char_code xs)"
  by (auto simp: list_all_iff char_code_def)

lemma char_of_code [simp]: "char_of (char_code c) = c"
  by (simp add: char_code_def)

lemma decode_encode_raw:
  assumes "distinct al" and "length al = 64"
  shows "decode_raw al (encode_raw al xs) = Some xs"
  using sextets_range [OF char_codes, of xs] octets_sextets [OF char_codes, of xs] assms
  by (simp add: decode_raw_def encode_raw_def code_points_map comp_def)

lemma RawURLEncoding_inj: "inj RawURLEncoding_EncodeToString"
  unfolding RawURLEncoding_EncodeToString_def
  by (rule injI) (metis alphabets(1,3) decode_encode_raw option.inject)

lemma length_encode_raw: "length (encode_raw al xs) = (8 * length xs + 5) div 6"
  by (simp add: encode_raw_def length_sextets)

lemma set_encode_raw: "length al = 64 \<Longrightarrow> set (encode_raw al xs) \<subseteq> set al"
  using sextets_range [OF char_codes, of xs] by (auto simp: encode_raw_def list_all_iff)

end
