(* ===== verification/Dispatch_Base.thy ===== *)
theory Dispatch_Base
  imports Stores Config Github_Client Base64
begin

text \<open>
  The parts of \<open>internal/dispatch\<close> every handler uses: the service, errors and gRPC
  status codes, the notifier of the job queue, lease durations, bearer tokens, and the
  enumerations of the wire protocol.
\<close>

subsection \<open>The service\<close>

text \<open>
  The stores of the service are the operations of the store theories in the environment
  \<open>svc_env\<close>. \<open>commitStatus\<close> tells whether a reporter is installed. \<open>uuid_parse\<close>
  and \<open>uuid_string\<close> are \<open>Parse\<close> and \<open>String\<close> of the package \<open>google/uuid\<close>;
  \<open>rand_bytes\<close> is the system's source of random bytes, which may fail.
\<close>

record Service =
  svc_env :: env
  cfg :: Config
  gh :: Client
  commitStatus :: bool
  uuid_parse :: "string \<Rightarrow> uuid option"
  uuid_string :: "uuid \<Rightarrow> string"
  rand_bytes :: "nat \<Rightarrow> bytes option"

definition NewService ::
    "env \<Rightarrow> Config \<Rightarrow> (string \<Rightarrow> uuid option) \<Rightarrow> (uuid \<Rightarrow> string) \<Rightarrow> (nat \<Rightarrow> bytes option) \<Rightarrow> Service" where
  "NewService E c parse str rnd =
     \<lparr>svc_env = E, cfg = c, gh = New (GitHubToken c), commitStatus = False,
      uuid_parse = parse, uuid_string = str, rand_bytes = rnd\<rparr>"

definition SetCommitStatusReporter :: "bool \<Rightarrow> Service \<Rightarrow> Service" where
  "SetCommitStatusReporter r s = s\<lparr>commitStatus := r\<rparr>"

text \<open>
  A Go error of the handlers: a store's error (possibly wrapped, \<open>errors.Is\<close> sees
  through), a gRPC status, or a failure of the stream itself.
\<close>

datatype code = InvalidArgument | NotFound | Unauthenticated | FailedPrecondition | Internal

datatype go_error = Wrapped store_error | Status code | StreamError

subsection \<open>Statuses\<close>

definition terminalNonSuccessJobStatuses :: "string list" where
  "terminalNonSuccessJobStatuses = [''failure'', ''cancelled'', ''skipped'']"

definition terminalJobStatuses :: "string list" where
  "terminalJobStatuses = [''success'', ''failure'', ''skipped'', ''cancelled'']"

definition isTerminalStatus :: "string \<Rightarrow> bool" where
  "isTerminalStatus st \<longleftrightarrow> st \<in> set terminalJobStatuses"

lemma isTerminal_iff: "isTerminalStatus st \<longleftrightarrow> st \<in> set terminal_statuses"
  by (auto simp: isTerminalStatus_def terminalJobStatuses_def terminal_statuses_def)

lemma blocking_terminal: "st \<in> set terminalNonSuccessJobStatuses \<longleftrightarrow> isTerminalStatus st \<and> st \<noteq> ''success''"
  by (auto simp: isTerminalStatus_def terminalJobStatuses_def terminalNonSuccessJobStatuses_def)

text \<open>The enumerations are open in proto3: a peer may send a number the schema does not name.\<close>

datatype Phase = PHASE_UNSPECIFIED | PHASE_PENDING | PHASE_RUNNING | PHASE_SUCCESS | PHASE_FAILURE
  | PHASE_SKIPPED | PHASE_CANCELLED | PHASE_OTHER int

datatype RunnerMode = RUNNER_MODE_UNSPECIFIED | RUNNER_MODE_HOST | RUNNER_MODE_DOCKER | RUNNER_MODE_K8S
  | RUNNER_MODE_OTHER int

fun phaseToStatus :: "Phase \<Rightarrow> go_error + string" where
  "phaseToStatus PHASE_PENDING = Inr ''queued''"
| "phaseToStatus PHASE_RUNNING = Inr ''running''"
| "phaseToStatus PHASE_SUCCESS = Inr ''success''"
| "phaseToStatus PHASE_FAILURE = Inr ''failure''"
| "phaseToStatus PHASE_SKIPPED = Inr ''skipped''"
| "phaseToStatus PHASE_CANCELLED = Inr ''cancelled''"
| "phaseToStatus _ = Inl (Status InvalidArgument)"

definition phaseToResult :: "Phase \<Rightarrow> go_error + string" where
  "phaseToResult p = phaseToStatus p"

fun runnerModeToString :: "RunnerMode \<Rightarrow> go_error + string" where
  "runnerModeToString RUNNER_MODE_HOST = Inr ''host''"
| "runnerModeToString RUNNER_MODE_DOCKER = Inr ''docker''"
| "runnerModeToString RUNNER_MODE_K8S = Inr ''k8s''"
| "runnerModeToString _ = Inl (Status InvalidArgument)"

subsection \<open>Bearer tokens\<close>

text \<open>
  The incoming metadata of a call: \<open>None\<close> without any, otherwise the values of the key
  \<open>authorization\<close>.
\<close>

type_synonym metadata = "string list option"

definition bearerToken :: "metadata \<Rightarrow> go_error + string" where
  "bearerToken md =
     (case md of
        None \<Rightarrow> Inl (Status Unauthenticated)
      | Some [] \<Rightarrow> Inl (Status Unauthenticated)
      | Some (v # vs) \<Rightarrow>
          if v = '''' then Inl (Status Unauthenticated)
          else if \<not> HasPrefix v ''Bearer '' then Inl (Status Unauthenticated)
          else let tok = TrimPrefix v ''Bearer '' in
               if tok = '''' then Inl (Status Unauthenticated) else Inr tok)"

text \<open>\<open>rand.Read\<close> fills the buffer of 32 bytes, or fails.\<close>

definition authTokenBytes :: nat where
  "authTokenBytes = 32"

definition generateAuthToken :: "Service \<Rightarrow> (world, string option) state" where
  "generateAuthToken s = State (\<lambda>w.
     (map_option (\<lambda>buf. RawURLEncoding_EncodeToString (take authTokenBytes buf)) (rand_bytes s (tick w)),
      w\<lparr>tick := Suc (tick w)\<rparr>))"

definition validToken :: "string \<Rightarrow> string \<Rightarrow> bool" where
  "validToken presented stored = (if stored = '''' then False else presented = stored)"

lemma bearerToken_Inr: "bearerToken md = Inr tok \<longleftrightarrow> (\<exists>vs. md = Some ((''Bearer '' @ tok) # vs) \<and> tok \<noteq> [])"
  by (auto simp: bearerToken_def HasPrefix_def TrimPrefix_def prefix_def Let_def
      split: option.splits list.splits if_splits)

lemma bearerToken_Inl: "bearerToken md = Inl e \<Longrightarrow> e = Status Unauthenticated"
  by (auto simp: bearerToken_def Let_def split: option.splits list.splits if_splits)

subsection \<open>Leases\<close>

text \<open>
  \<open>time.Duration\<close> counts nanoseconds in an int64. Durations of this program are whole
  seconds; Postgres keeps microseconds. \<open>Time.Add\<close> is exact over the dates the server
  can see.
\<close>

definition Second :: int where
  "Second = 1000000000"

definition leaseTTL :: "Service \<Rightarrow> int" where
  "leaseTTL s =
     (let interval = wrap64 (HeartbeatIntervalSeconds (cfg s) * Second)
      in wrap64 (interval * HeartbeatMissLimit (cfg s)))"

definition add_time :: "time \<Rightarrow> int \<Rightarrow> time" where
  "add_time t dur = t + dur div 1000"

definition unix :: "time \<Rightarrow> int" where
  "unix t = t div 1000000"

subsection \<open>The notifier\<close>

text \<open>\<open>wait\<close> registers a new channel, \<open>notify\<close> closes every registered one.\<close>

definition queue_wait :: "(world, nat) state" where
  "queue_wait = State (\<lambda>w. (tick w, w\<lparr>waiters := waiters w @ [tick w], tick := Suc (tick w)\<rparr>))"

definition Notify :: "(world, unit) state" where
  "Notify = State (\<lambda>w. ((), w\<lparr>waiters := [], woken := woken w @ waiters w\<rparr>))"

context db_preorder
begin

lemma guar_Notify: "guar Notify"
  unfolding Notify_def by (rule guar_memory) simp

lemma guar_generateAuthToken: "guar (generateAuthToken s)"
  unfolding generateAuthToken_def by (rule guar_memory) simp

lemma guar_queue_wait: "guar queue_wait"
  unfolding queue_wait_def by (rule guar_memory) simp

end

end
