(* ===== verification/Dispatch_Gate.thy ===== *)
theory Dispatch_Gate
  imports Dispatch_Base Job_Machine Sample
begin

text \<open>
  The needs gate of \<open>internal/dispatch/queue.go\<close> (\<open>needsSatisfied\<close>, \<open>gateRun\<close>,
  \<open>skipJob\<close>) and the roll-up of a run in \<open>service.go\<close> (\<open>finalizeRunIfComplete\<close>,
  \<open>reportCommitStatus\<close>).

  The loop of \<open>gateRun\<close> runs until a pass skips nothing. It takes fuel, the number of
  passes it may make, and gives \<open>None\<close> when that is not enough.
\<close>

subsection \<open>Needs\<close>

fun needs_rows :: "Job list \<Rightarrow> bool \<times> bool \<Rightarrow> bool \<times> bool" where
  "needs_rows [] acc = acc"
| "needs_rows (n # rows) (allTerminal, anyBlocking) =
     (if \<not> isTerminalStatus (j_Status n) then needs_rows rows (False, anyBlocking)
      else if j_Status n \<in> set terminalNonSuccessJobStatuses then needs_rows rows (allTerminal, True)
      else needs_rows rows (allTerminal, anyBlocking))"

fun needs_loop :: "string list \<Rightarrow> (string \<rightharpoonup> Job list) \<Rightarrow> bool \<times> bool \<Rightarrow> bool \<times> bool" where
  "needs_loop [] byJobID acc = acc"
| "needs_loop (need # needs) byJobID (allTerminal, anyBlocking) =
     (if map_get byJobID need = [] then needs_loop needs byJobID (False, anyBlocking)
      else needs_loop needs byJobID (needs_rows (map_get byJobID need) (allTerminal, anyBlocking)))"

definition needsSatisfied :: "Job \<Rightarrow> (string \<rightharpoonup> Job list) \<Rightarrow> bool \<times> bool" where
  "needsSatisfied job byJobID = needs_loop (elems (j_Needs job)) byJobID (True, False)"

definition groupJobsByJobID :: "Job list \<Rightarrow> (string \<rightharpoonup> Job list)" where
  "groupJobsByJobID js =
     fold (\<lambda>j m. m(j_JobIDYAML j \<mapsto> map_get m (j_JobIDYAML j) @ [j])) js Map.empty"

definition hasDefaultIfExpr :: "Job \<Rightarrow> bool" where
  "hasDefaultIfExpr job \<longleftrightarrow>
     (case j_IfExpr job of None \<Rightarrow> True | Some x \<Rightarrow> x = '''' \<or> x = ''success()'')"

subsection \<open>Skipping\<close>

definition skipJob :: "env \<Rightarrow> uuid \<Rightarrow> (world, store_error + unit) state" where
  "skipJob E jid = do {
     r \<leftarrow> TransitionStatus E jid ''queued'' ''skipped'';
     case r of
       Inl e \<Rightarrow> ret (Inl e)
     | Inr _ \<Rightarrow> do {
         now \<leftarrow> time_now E;
         SetResult E jid ''skipped'' now
       }
   }"

definition gate_skips :: "Job \<Rightarrow> (string \<rightharpoonup> Job list) \<Rightarrow> bool" where
  "gate_skips j byJobID \<longleftrightarrow>
     \<not> (j_Status j \<noteq> ''queued'' \<or> length (elems (j_Needs j)) = 0) \<and>
     (case needsSatisfied j byJobID of (allTerminal, anyBlocking) \<Rightarrow>
        \<not> (\<not> allTerminal \<or> \<not> anyBlocking \<or> \<not> hasDefaultIfExpr j))"

text \<open>One pass over the rows of a run; the result tells whether it skipped a job.\<close>

fun gate_pass :: "env \<Rightarrow> (string \<rightharpoonup> Job list) \<Rightarrow> Job list \<Rightarrow> bool \<Rightarrow> (world, store_error + bool) state" where
  "gate_pass E byJobID [] progressed = ret (Inr progressed)"
| "gate_pass E byJobID (j # js) progressed =
     (if \<not> gate_skips j byJobID then gate_pass E byJobID js progressed
      else do {
        r \<leftarrow> skipJob E (j_ID j);
        case r of
          Inl e \<Rightarrow> if e = ErrIllegalTransition then gate_pass E byJobID js progressed else ret (Inl e)
        | Inr _ \<Rightarrow> gate_pass E byJobID js True
      })"

fun gate_loop :: "nat \<Rightarrow> env \<Rightarrow> uuid \<Rightarrow> bool \<Rightarrow> (world, (store_error + bool) option) state" where
  "gate_loop 0 E runID changed = ret None"
| "gate_loop (Suc fuel) E runID changed = do {
     r \<leftarrow> ListJobsForRun E runID;
     case r of
       Inl e \<Rightarrow> ret (Some (Inl e))
     | Inr js \<Rightarrow> do {
         p \<leftarrow> gate_pass E (groupJobsByJobID js) js False;
         case p of
           Inl e \<Rightarrow> ret (Some (Inl e))
         | Inr progressed \<Rightarrow>
             if progressed then gate_loop fuel E runID True else ret (Some (Inr changed))
       }
   }"

subsection \<open>Roll-up\<close>

text \<open>
  The loop over the jobs of the run: \<open>None\<close> when one of them is not terminal, otherwise
  the flags \<open>allSuccessOrSkipped\<close> and \<open>anyFailure\<close>.
\<close>

fun finalize_loop :: "Job list \<Rightarrow> bool \<times> bool \<Rightarrow> (bool \<times> bool) option" where
  "finalize_loop [] acc = Some acc"
| "finalize_loop (j # js) (allSuccessOrSkipped, anyFailure) =
     (if \<not> isTerminalStatus (j_Status j) then None
      else finalize_loop js
        (if j_Status j \<noteq> ''success'' \<and> j_Status j \<noteq> ''skipped'' then False else allSuccessOrSkipped,
         if j_Status j = ''failure'' then True else anyFailure))"

definition run_status_of :: "bool \<times> bool \<Rightarrow> string" where
  "run_status_of fl =
     (case fl of (allSuccessOrSkipped, anyFailure) \<Rightarrow>
        if anyFailure then ''failure'' else if allSuccessOrSkipped then ''success'' else ''cancelled'')"

definition commitStatusForRunStatus :: "string \<Rightarrow> string \<times> string" where
  "commitStatusForRunStatus runStatus =
     (if runStatus = ''success'' then (''success'', ''Drassi run succeeded'')
      else if runStatus = ''failure'' then (''failure'', ''Drassi run failed'')
      else (''error'', ''Drassi run '' @ runStatus))"

text \<open>The call of the reporter; whether it fails is only logged.\<close>

definition post_status :: "string \<Rightarrow> string \<Rightarrow> string \<Rightarrow> string \<Rightarrow> (world, unit) state" where
  "post_status repo sha st description =
     State (\<lambda>w. ((), w\<lparr>posted := posted w @ [(repo, sha, st, description)]\<rparr>))"

definition reportCommitStatus :: "Service \<Rightarrow> uuid \<Rightarrow> string \<Rightarrow> (world, unit) state" where
  "reportCommitStatus s runID runStatus =
     (if \<not> commitStatus s then ret ()
      else do {
        r \<leftarrow> GetRun (svc_env s) runID;
        case r of
          Inl e \<Rightarrow> ret ()
        | Inr run \<Rightarrow>
            if run_Event run = ''manual'' \<or> run_Repo run = '''' \<or> run_SHA run = '''' then ret ()
            else (case commitStatusForRunStatus runStatus of (st, description) \<Rightarrow>
                    post_status (run_Repo run) (run_SHA run) st description)
      })"

definition finalizeRunIfComplete :: "Service \<Rightarrow> uuid \<Rightarrow> (world, go_error + unit) state" where
  "finalizeRunIfComplete s runID = do {
     r \<leftarrow> ListJobsForRun (svc_env s) runID;
     case r of
       Inl e \<Rightarrow> ret (Inl (Status Internal))
     | Inr js \<Rightarrow>
         case finalize_loop js (True, False) of
           None \<Rightarrow> ret (Inr ())
         | Some fl \<Rightarrow> do {
             u \<leftarrow> SetRunStatus (svc_env s) runID (run_status_of fl);
             case u of
               Inl e \<Rightarrow> ret (Inl (Status Internal))
             | Inr _ \<Rightarrow> do {
                 reportCommitStatus s runID (run_status_of fl);
                 ret (Inr ())
               }
           }
   }"

definition gateRun :: "nat \<Rightarrow> Service \<Rightarrow> uuid \<Rightarrow> (world, (go_error + unit) option) state" where
  "gateRun fuel s runID = do {
     r \<leftarrow> gate_loop fuel (svc_env s) runID False;
     case r of
       None \<Rightarrow> ret None
     | Some (Inl e) \<Rightarrow> ret (Some (Inl (Wrapped e)))
     | Some (Inr changed) \<Rightarrow> do {
         f \<leftarrow> finalizeRunIfComplete s runID;
         case f of
           Inl e \<Rightarrow> ret (Some (Inl e))
         | Inr _ \<Rightarrow>
             if changed then do { Notify; ret (Some (Inr ())) } else ret (Some (Inr ()))
       }
   }"

subsection \<open>What every relation of the stores gives\<close>

lemma requested_skip [simp]: "requested_transition ''queued'' ''skipped''"
  by (simp add: requested_transition_def)

context call_rel
begin

lemma guar_skipJob: "rely E \<Longrightarrow> guar (skipJob E jid)"
  unfolding skipJob_def by (intro guar_rules guar_store) auto

lemma guar_gate_pass: "rely E \<Longrightarrow> guar (gate_pass E by js p)"
  by (induction js arbitrary: p) (auto intro!: guar_rules guar_skipJob)

lemma guar_gate_loop: "rely E \<Longrightarrow> guar (gate_loop fuel E runID ch)"
  by (induction fuel arbitrary: ch) (auto intro!: guar_rules guar_gate_pass guar_reads)

lemma guar_post_status: "guar (post_status repo sha st description)"
  unfolding post_status_def by (rule guar_memory) simp

end

context dispatch_rel
begin

lemma guar_finalize: "rely (svc_env s) \<Longrightarrow> guar (finalizeRunIfComplete s runID)"
  unfolding finalizeRunIfComplete_def reportCommitStatus_def
  by (intro guar_rules guar_store guar_SetRunStatus guar_post_status) auto

lemma guar_gateRun: "rely (svc_env s) \<Longrightarrow> guar (gateRun fuel s runID)"
  unfolding gateRun_def
  by (intro guar_rules guar_gate_loop guar_finalize guar_Notify) auto

end

subsection \<open>A concrete service\<close>

definition sample_service :: Service where
  "sample_service =
     NewService sample_env
       \<lparr>HTTPAddr = defaultHTTPAddr, GRPCAddr = defaultGRPCAddr, DBDSN = defaultDBDSN,
        HeartbeatIntervalSeconds = 10, HeartbeatMissLimit = 3, GitHubToken = ''''\<rparr>
       (\<lambda>u. map_option of_int (ParseInt u)) (\<lambda>u. Itoa (uint u))
       (\<lambda>n. Some (replicate 32 (char_of n)))"

lemma sample_service_simps [simp]:
  "svc_env sample_service = sample_env" "commitStatus sample_service = False"
  "uuid_parse sample_service = (\<lambda>u. map_option of_int (ParseInt u))"
  "uuid_string sample_service = (\<lambda>u. Itoa (uint u))"
  "rand_bytes sample_service = (\<lambda>n. Some (replicate 32 (char_of n)))"
  "HeartbeatIntervalSeconds (cfg sample_service) = 10" "HeartbeatMissLimit (cfg sample_service) = 3"
  by (simp_all add: sample_service_def NewService_def)

end
