(* ===== verification/Gate_Spec.thy ===== *)
theory Gate_Spec
  imports Dispatch_Gate
begin

text \<open>
  What the needs gate promises: the jobs it skips are exactly the least set closed under the
  default rule of GitHub Actions (a queued job without an \<open>if:\<close> override is skipped when all
  its needs are settled and one of them did not succeed, where a skipped need counts as
  settled and not successful). Also the loop's termination under interference, and the
  roll-up of a run.
\<close>

subsection \<open>Needs\<close>

lemma needs_rows_eq: "needs_rows rows (t, b) =
    (t \<and> (\<forall>n\<in>set rows. isTerminalStatus (j_Status n)),
     b \<or> (\<exists>n\<in>set rows. j_Status n \<in> set terminalNonSuccessJobStatuses))"
  by (induction rows arbitrary: t b) (auto simp: blocking_terminal)

lemma needs_loop_eq: "needs_loop needs by (t, b) =
    (t \<and> (\<forall>need\<in>set needs. map_get by need \<noteq> [] \<and> (\<forall>n\<in>set (map_get by need). isTerminalStatus (j_Status n))),
     b \<or> (\<exists>need\<in>set needs. \<exists>n\<in>set (map_get by need). j_Status n \<in> set terminalNonSuccessJobStatuses))"
  by (induction needs arbitrary: t b) (auto simp: needs_rows_eq)

lemma map_get_group: "map_get (groupJobsByJobID js) k = filter (\<lambda>j. j_JobIDYAML j = k) js"
proof -
  have "map_get (fold (\<lambda>j m. m(j_JobIDYAML j \<mapsto> map_get m (j_JobIDYAML j) @ [j])) js m) k =
      map_get m k @ filter (\<lambda>j. j_JobIDYAML j = k) js" for m
    by (induction js arbitrary: m) auto
  then show ?thesis by (simp add: groupJobsByJobID_def)
qed

definition needs_of :: "Job \<Rightarrow> string set" where
  "needs_of j = set (elems (j_Needs j))"

text \<open>The two flags of \<open>needsSatisfied\<close>, over the rows of the run.\<close>

definition all_needs_terminal :: "Job list \<Rightarrow> Job \<Rightarrow> bool" where
  "all_needs_terminal js j \<longleftrightarrow>
     needs_of j \<subseteq> j_JobIDYAML ` set js \<and>
     (\<forall>n\<in>set js. j_JobIDYAML n \<in> needs_of j \<longrightarrow> isTerminalStatus (j_Status n))"

definition some_need_blocks :: "Job list \<Rightarrow> Job \<Rightarrow> bool" where
  "some_need_blocks js j \<longleftrightarrow>
     (\<exists>n\<in>set js. j_JobIDYAML n \<in> needs_of j \<and> isTerminalStatus (j_Status n) \<and> j_Status n \<noteq> ''success'')"

lemma needsSatisfied_eq:
  "needsSatisfied j (groupJobsByJobID js) = (all_needs_terminal js j, some_need_blocks js j)"
  by (auto simp: needsSatisfied_def needs_loop_eq map_get_group filter_empty_conv all_needs_terminal_def
      some_need_blocks_def needs_of_def blocking_terminal)

definition skippable :: "Job list \<Rightarrow> Job \<Rightarrow> bool" where
  "skippable js j \<longleftrightarrow> j_Status j = ''queued'' \<and> hasDefaultIfExpr j \<and> all_needs_terminal js j \<and> some_need_blocks js j"

lemma gate_skips_eq: "gate_skips j (groupJobsByJobID js) \<longleftrightarrow> skippable js j"
  by (auto simp: gate_skips_def needsSatisfied_eq skippable_def some_need_blocks_def needs_of_def)

subsection \<open>The abstract rule\<close>

inductive doomed :: "Job list \<Rightarrow> Job \<Rightarrow> bool" for js where
  doomedI: "j \<in> set js \<Longrightarrow> j_Status j = ''queued'' \<Longrightarrow> hasDefaultIfExpr j \<Longrightarrow>
    needs_of j \<subseteq> j_JobIDYAML ` set js \<Longrightarrow>
    (\<And>n. n \<in> set js \<Longrightarrow> j_JobIDYAML n \<in> needs_of j \<Longrightarrow> isTerminalStatus (j_Status n) \<or> doomed js n) \<Longrightarrow>
    n0 \<in> set js \<Longrightarrow> j_JobIDYAML n0 \<in> needs_of j \<Longrightarrow>
    isTerminalStatus (j_Status n0) \<and> j_Status n0 \<noteq> ''success'' \<or> doomed js n0 \<Longrightarrow> doomed js j"

lemma doomed_member: "doomed js j \<Longrightarrow> j \<in> set js \<and> j_Status j = ''queued''"
  by (auto elim: doomed.cases)

lemma skippable_doomed: "j \<in> set js \<Longrightarrow> skippable js j \<Longrightarrow> doomed js j"
  by (auto simp: skippable_def all_needs_terminal_def some_need_blocks_def intro: doomedI)

lemma no_skippable_no_doomed: "\<forall>j\<in>set js. \<not> skippable js j \<Longrightarrow> \<not> doomed js j"
proof
  assume none: "\<forall>j\<in>set js. \<not> skippable js j"
  assume "doomed js j"
  then show False
  proof induction
    case (doomedI j n0)
    then have "skippable js j"
      by (auto simp: skippable_def all_needs_terminal_def some_need_blocks_def)
    with none doomedI.hyps show False by blast
  qed
qed

subsection \<open>Skipping a set of rows\<close>

definition skip_row :: "time \<Rightarrow> Job \<Rightarrow> Job" where
  "skip_row t j = result_row ''skipped'' t (j\<lparr>j_Status := ''skipped''\<rparr>)"

lemma skip_row_simps [simp]:
  "j_ID (skip_row t j) = j_ID j" "j_RunID (skip_row t j) = j_RunID j"
  "j_JobIDYAML (skip_row t j) = j_JobIDYAML j" "j_Status (skip_row t j) = ''skipped''"
  "j_Needs (skip_row t j) = j_Needs j" "j_IfExpr (skip_row t j) = j_IfExpr j"
  by (simp_all add: skip_row_def result_row_def)

definition skip_all :: "Job set \<Rightarrow> (Job \<Rightarrow> time) \<Rightarrow> Job list \<Rightarrow> Job list" where
  "skip_all S ts js = map (\<lambda>j. if j \<in> S then skip_row (ts j) j else j) js"

lemma skip_all_ids [simp]: "map j_ID (skip_all S ts js) = map j_ID js"
  by (simp add: skip_all_def)

lemma length_skip_all [simp]: "length (skip_all S ts js) = length js"
  by (simp add: skip_all_def)

lemma skip_all_empty [simp]: "skip_all {} ts js = js"
  by (simp add: skip_all_def)

lemma skip_all_skip_all:
  assumes "\<forall>j\<in>C. j_Status j = ''queued''"
  shows "skip_all C ts' (skip_all S ts js) = skip_all (S \<union> C) (\<lambda>j. if j \<in> S then ts j else ts' j) js"
proof -
  have "skip_row (ts j) j \<notin> C" for j using assms by force
  then show ?thesis by (auto simp: skip_all_def)
qed

lemma skip_all_mem:
  assumes "n \<in> set js"
  shows "(if n \<in> S then skip_row (ts n) n else n) \<in> set (skip_all S ts js)"
  using assms by (auto simp: skip_all_def)

lemma skip_all_yaml [simp]: "j_JobIDYAML ` set (skip_all S ts js) = j_JobIDYAML ` set js"
  unfolding skip_all_def set_map image_image by (rule image_cong) simp_all

lemma skip_all_queued: "j \<in> set (skip_all S ts js) \<Longrightarrow> j_Status j = ''queued'' \<Longrightarrow> j \<in> set js"
  by (auto simp: skip_all_def split: if_splits)

lemma terminal_skipped: "isTerminalStatus ''skipped''" "\<not> isTerminalStatus ''queued''"
  by (simp_all add: isTerminalStatus_def terminalJobStatuses_def)

text \<open>Skipping doomed rows dooms no other row, and undooms none but those it skips.\<close>

lemma doomed_after_skip:
  assumes S: "\<forall>j\<in>S. doomed js j" and "doomed (skip_all S ts js) j"
  shows "doomed js j"
  using assms(2)
proof induction
  case (doomedI j n0)
  let ?js = "skip_all S ts js"
  have settled: "isTerminalStatus (j_Status n) \<or> doomed js n" if "n \<in> set js" "j_JobIDYAML n \<in> needs_of j" for n
    using doomedI.IH(1) [OF skip_all_mem [OF that(1)]] that(2) S by (cases "n \<in> S") auto
  obtain n1 where n1: "n1 \<in> set js" "n0 = (if n1 \<in> S then skip_row (ts n1) n1 else n1)"
    using doomedI.hyps by (auto simp: skip_all_def)
  have b: "isTerminalStatus (j_Status n1) \<and> j_Status n1 \<noteq> ''success'' \<or> doomed js n1"
    using doomedI.IH(2) n1 S by (cases "n1 \<in> S") auto
  have y: "j_JobIDYAML n1 \<in> needs_of j" using doomedI.hyps n1 by (auto split: if_splits)
  show ?case
    by (rule doomed.intros [OF skip_all_queued, of _ S ts _ n1])
      (use doomedI.hyps settled n1 b y in auto)
qed

lemma doomed_before_skip:
  assumes S: "\<forall>j\<in>S. j_Status j = ''queued''" and "doomed js j"
  shows "j \<in> S \<or> doomed (skip_all S ts js) j"
  using assms(2)
proof induction
  case (doomedI j n0)
  let ?js = "skip_all S ts js"
  show ?case
  proof (cases "j \<in> S")
    case False
    have tq: "n \<notin> S" if "isTerminalStatus (j_Status n)" for n
      using that S terminal_skipped by auto
    have settled: "isTerminalStatus (j_Status n) \<or> doomed ?js n" if n: "n \<in> set ?js" "j_JobIDYAML n \<in> needs_of j" for n
    proof -
      obtain m where m: "m \<in> set js" "n = (if m \<in> S then skip_row (ts m) m else m)"
        using n(1) by (auto simp: skip_all_def)
      with n(2) have "isTerminalStatus (j_Status m) \<or> m \<in> S \<or> doomed ?js m"
        using doomedI.IH(1) [of m] by (auto split: if_splits)
      with m show ?thesis by (auto simp: terminal_skipped)
    qed
    let ?n = "if n0 \<in> S then skip_row (ts n0) n0 else n0"
    have b: "isTerminalStatus (j_Status ?n) \<and> j_Status ?n \<noteq> ''success'' \<or> doomed ?js ?n"
      using doomedI.IH(2) tq by (auto simp: terminal_skipped)
    have "j \<in> set ?js" using skip_all_mem [of j js S ts] False doomedI.hyps(1) by simp
    then have "doomed ?js j"
      by (rule doomed.intros [of _ _ ?n])
        (use doomedI.hyps settled b skip_all_mem [of n0 js S ts] in auto)
    then show ?thesis ..
  qed simp
qed

subsection \<open>The passes, alone\<close>

text \<open>In a table with unique ids a row is the only one with its id.\<close>

lemma row_by_id: "distinct (map k rows) \<Longrightarrow> a \<in> set rows \<Longrightarrow> b \<in> set rows \<Longrightarrow> k a = k b \<Longrightarrow> a = b"
  by (auto simp: distinct_map dest: inj_onD)

lemma skipJob_solo:
  assumes E: "solo E" and ids: "distinct (map j_ID (jobs (db w)))"
    and j: "j \<in> set (jobs (db w))" "j_Status j = ''queued''"
  shows "run_state (skipJob E (j_ID j)) w =
    (Inr (), w\<lparr>db := (db w)\<lparr>jobs := skip_all {j} (\<lambda>_. clock E (Suc (tick w))) (jobs (db w))\<rparr>,
               tick := Suc (Suc (Suc (tick w)))\<rparr>)"
proof -
  let ?t = "clock E (Suc (tick w))"
  have upd: "update_where (\<lambda>r. j_ID r = j_ID j) (result_row ''skipped'' ?t)
      (update_where (\<lambda>r. j_ID r = j_ID j \<and> j_Status r = ''queued'') (\<lambda>r. r\<lparr>j_Status := ''skipped''\<rparr>) (jobs (db w)))
    = skip_all {j} (\<lambda>_. ?t) (jobs (db w))"
    using row_by_id [OF ids _ j(1)] j(2) by (auto simp: update_where_def skip_all_def skip_row_def)
  have "rows_affected (\<lambda>r. j_ID r = j_ID j \<and> j_Status r = ''queued'') (jobs (db w)) \<noteq> 0"
    using j by (auto simp: rows_affected_0)
  moreover have "rows_affected (\<lambda>r. j_ID r = j_ID j)
      (update_where (\<lambda>r. j_ID r = j_ID j \<and> j_Status r = ''queued'') (\<lambda>r. r\<lparr>j_Status := ''skipped''\<rparr>) (jobs (db w))) \<noteq> 0"
    using j(1) by (auto simp: rows_affected_key rows_affected_0)
  ultimately show ?thesis
    by (simp add: skipJob_def TransitionStatus_def isLegalJobTransition_def jobTransitions_def SetResult_def
        run_statement_solo [OF E] sql_TransitionStatus_def sql_SetResult_def update_jobs_def upd)
qed

text \<open>One pass skips every row of its snapshot that is skippable there.\<close>

lemma gate_pass_solo:
  assumes "solo E" and "distinct (map j_ID (jobs (db w)))" and "distinct js"
    and "\<forall>j\<in>set js. gate_skips j by \<longrightarrow> j \<in> set (jobs (db w)) \<and> j_Status j = ''queued''"
  shows "\<exists>ts n. run_state (gate_pass E by js p) w =
    (Inr (p \<or> (\<exists>j\<in>set js. gate_skips j by)),
     w\<lparr>db := (db w)\<lparr>jobs := skip_all {j \<in> set js. gate_skips j by} ts (jobs (db w))\<rparr>, tick := n\<rparr>)"
  using assms
proof (induction js arbitrary: w p)
  case Nil
  then show ?case by (intro exI [of _ "\<lambda>_. 0"] exI [of _ "tick w"]) simp
next
  case (Cons j js)
  let ?C = "{j \<in> set js. gate_skips j by}"
  show ?case
  proof (cases "gate_skips j by")
    case False
    then have "{i \<in> set (j # js). gate_skips i by} = ?C" by auto
    with False Cons show ?thesis by simp
  next
    case True
    let ?t = "\<lambda>_::Job. clock E (Suc (tick w))"
    let ?w = "w\<lparr>db := (db w)\<lparr>jobs := skip_all {j} ?t (jobs (db w))\<rparr>, tick := Suc (Suc (Suc (tick w)))\<rparr>"
    have mem: "i \<in> set (jobs (db ?w)) \<and> j_Status i = ''queued''" if "i \<in> set js" "gate_skips i by" for i
    proof -
      from that Cons.prems(3) have "i \<noteq> j" by auto
      with that Cons.prems(4) skip_all_mem [of i "jobs (db w)" "{j}" ?t] show ?thesis by simp
    qed
    obtain ts n where IH: "run_state (gate_pass E by js True) ?w = (Inr True,
        ?w\<lparr>db := (db ?w)\<lparr>jobs := skip_all ?C ts (jobs (db ?w))\<rparr>, tick := n\<rparr>)"
      using Cons.IH [of ?w True] Cons.prems mem by auto
    have "skip_all ?C ts (skip_all {j} ?t (jobs (db w))) =
        skip_all ({j} \<union> ?C) (\<lambda>i. if i \<in> {j} then ?t i else ts i) (jobs (db w))"
      using mem by (intro skip_all_skip_all) auto
    moreover have "{i \<in> set (j # js). gate_skips i by} = {j} \<union> ?C" using True by auto
    moreover have "run_state (skipJob E (j_ID j)) w = (Inr (), ?w)"
      by (rule skipJob_solo) (use Cons.prems True in auto)
    ultimately show ?thesis using True IH by auto
  qed
qed

subsection \<open>The loop, alone\<close>

definition doomed_in :: "uuid \<Rightarrow> database \<Rightarrow> Job set" where
  "doomed_in runID d = {j. doomed (jobs_of_run runID d) j}"

text \<open>A permutation or restriction of rows: only the set of rows of the run matters.\<close>

lemma doomed_set: "set js = set js' \<Longrightarrow> doomed js j \<longleftrightarrow> doomed js' j"
proof -
  have "doomed js j \<Longrightarrow> set js = set js' \<Longrightarrow> doomed js' j" for js js'
  proof (induction rule: doomed.induct)
    case (doomedI j n0)
    then show ?case by (intro doomed.intros [of j js' n0]) auto
  qed
  then show "set js = set js' \<Longrightarrow> ?thesis" by metis
qed

lemma jobs_of_run_skip_all:
  "set (jobs_of_run runID (d\<lparr>jobs := skip_all S ts (jobs d)\<rparr>)) = set (skip_all S ts (jobs_of_run runID d))"
  by (auto simp: skip_all_def)

lemma doomed_in_queued: "j \<in> doomed_in runID d \<Longrightarrow> j \<in> set (jobs d) \<and> j_RunID j = runID \<and> j_Status j = ''queued''"
  by (auto simp: doomed_in_def dest: doomed_member)

lemma doomed_in_skip_all:
  assumes "S \<subseteq> doomed_in runID d"
  shows "doomed_in runID d = S \<union> doomed_in runID (d\<lparr>jobs := skip_all S ts (jobs d)\<rparr>)"
proof -
  have q: "\<forall>j\<in>S. j_Status j = ''queued''" using assms doomed_in_queued by blast
  have D: "doomed (jobs_of_run runID (d\<lparr>jobs := skip_all S ts (jobs d)\<rparr>)) j \<longleftrightarrow>
      doomed (skip_all S ts (jobs_of_run runID d)) j" for j
    by (rule doomed_set) (rule jobs_of_run_skip_all)
  show ?thesis
    unfolding doomed_in_def D
    using assms doomed_after_skip [of S "jobs_of_run runID d" ts] doomed_before_skip [OF q, of "jobs_of_run runID d" _ ts]
    by (auto simp: doomed_in_def)
qed

text \<open>The loop ends with every doomed row skipped, and no other row changed.\<close>

lemma gate_loop_solo:
  assumes "solo E" and "distinct (map j_ID (jobs (db w)))"
    and "run_state (gate_loop fuel E runID ch) w = (Some c, w')"
  shows "\<exists>ts n. w' = w\<lparr>db := (db w)\<lparr>jobs := skip_all (doomed_in runID (db w)) ts (jobs (db w))\<rparr>, tick := n\<rparr> \<and>
    c = Inr (ch \<or> doomed_in runID (db w) \<noteq> {})"
  using assms
proof (induction fuel arbitrary: w ch)
  case (Suc fuel)
  let ?js = "jobs_of_run runID (db w)" and ?w = "w\<lparr>tick := Suc (tick w)\<rparr>"
  let ?C = "{j \<in> set ?js. skippable ?js j}"
  have "distinct ?js" using Suc.prems(2) by (auto simp: jobs_of_run_def distinct_map)
  then obtain ts n where pass: "run_state (gate_pass E (groupJobsByJobID ?js) ?js False) ?w =
      (Inr (\<exists>j\<in>set ?js. skippable ?js j),
       ?w\<lparr>db := (db ?w)\<lparr>jobs := skip_all ?C ts (jobs (db ?w))\<rparr>, tick := n\<rparr>)"
    using gate_pass_solo [OF Suc.prems(1), of ?w ?js "groupJobsByJobID ?js" False] Suc.prems(2)
    by (auto simp: gate_skips_eq skippable_def)
  have sub: "?C \<subseteq> doomed_in runID (db w)"
    using skippable_doomed by (auto simp: doomed_in_def)
  show ?case
  proof (cases "\<exists>j\<in>set ?js. skippable ?js j")
    case False
    then have none: "doomed_in runID (db w) = {}" "?C = {}"
      using no_skippable_no_doomed by (auto simp: doomed_in_def)
    have "w\<lparr>tick := n\<rparr> = w' \<and> c = Inr ch"
      using False pass [unfolded none(2)] Suc.prems by (auto simp: ListJobsForRun_def run_query_solo)
    then show ?thesis unfolding none by (intro exI [of _ ts] exI [of _ n]) auto
  next
    case True
    let ?w2 = "w\<lparr>db := (db w)\<lparr>jobs := skip_all ?C ts (jobs (db w))\<rparr>, tick := n\<rparr>"
    have rest: "run_state (gate_loop fuel E runID True) ?w2 = (Some c, w')"
      using True pass Suc.prems by (simp add: ListJobsForRun_def run_query_solo)
    obtain ts' n' where w': "w' = ?w2\<lparr>db := (db ?w2)\<lparr>jobs := skip_all (doomed_in runID (db ?w2)) ts' (jobs (db ?w2))\<rparr>, tick := n'\<rparr>"
      and c: "c = Inr True"
      using Suc.IH [OF Suc.prems(1) _ rest] Suc.prems(2) by auto
    have "\<forall>j\<in>doomed_in runID (db ?w2). j_Status j = ''queued''"
      by (auto dest: doomed_in_queued)
    from skip_all_skip_all [OF this, of ts' ?C ts "jobs (db w)"] w' c True sub
      doomed_in_skip_all [OF sub, of ts] show ?thesis by auto
  qed
qed simp

subsection \<open>Termination under interference\<close>

text \<open>
  Every skip adds a terminal row, terminal rows stay terminal whatever the other sessions do
  along the state machine, and there are at most as many terminal rows as jobs. So the loop
  ends within one pass more than the jobs table can have rows.
\<close>

definition done_jobs :: "database \<Rightarrow> nat" where
  "done_jobs d = length (filter (\<lambda>j. isTerminalStatus (j_Status j)) (jobs d))"

definition job_bound :: "nat \<Rightarrow> database \<Rightarrow> database \<Rightarrow> bool" where
  "job_bound N d d' \<longleftrightarrow> rows_kept moves_legally d d' \<and> (length (jobs d) \<le> N \<longrightarrow> length (jobs d') \<le> N)"

lemma done_jobs_mono: "job_bound N d d' \<Longrightarrow> done_jobs d \<le> done_jobs d'"
proof -
  assume "job_bound N d d'"
  then have *: "list_all2 moves_legally (jobs d) (take (length (jobs d)) (jobs d'))"
    by (simp add: job_bound_def rows_kept_def)
  have "length (filter (\<lambda>j. isTerminalStatus (j_Status j)) xs) \<le>
      length (filter (\<lambda>j. isTerminalStatus (j_Status j)) ys)" if "list_all2 moves_legally xs ys" for xs ys
    using that by induction (auto simp: moves_legally_def isTerminal_iff terminal_path)
  from this [OF *] show ?thesis
    unfolding done_jobs_def
    by (metis (no_types, lifting) append_take_drop_id filter_append le_add1 le_trans length_append)
qed

interpretation bnd: dispatch_rel "job_bound N" for N
  by unfold_locales
    (auto simp: job_bound_def jobs_length_sql path.R_refl path.R_TransitionStatus path.R_Lease path.R_RenewLease
      path.R_RequeueExpired path.R_SetResult path.R_CreateRun path.R_SetRunStatus path.R_UpsertStep
      path.R_UpsertOutput path.R_CreateRunner path.R_UpdateHeartbeat path.R_SetStatus
      path.R_MarkStaleOffline path.R_Append intro: path.R_trans)

lemma filter_update_where_count:
  "(\<And>r. P r \<Longrightarrow> \<not> T r \<and> T (f r)) \<Longrightarrow>
    length (filter T (update_where P f rows)) = length (filter T rows) + rows_affected P rows"
  by (induction rows) auto

lemma skipJob_progress:
  assumes E: "bnd.rely N E" and "run_state (skipJob E jid) w = (Inr (), w')"
  shows "done_jobs (db w) < done_jobs (db w')"
proof -
  let ?d = "other E (tick w) (db w)"
  obtain w1 where w1: "run_state (TransitionStatus E jid ''queued'' ''skipped'') w = (Inr (), w1)"
    and rest: "run_state (do { now \<leftarrow> time_now E; SetResult E jid ''skipped'' now }) w1 = (Inr (), w')"
    using assms(2) by (auto simp: skipJob_def split: sum.splits prod.splits)
  have d1: "fst (sql_TransitionStatus jid ''queued'' ''skipped'' (clock E (tick w)) ?d) = Inr ()"
      "db w1 = snd (sql_TransitionStatus jid ''queued'' ''skipped'' (clock E (tick w)) ?d)"
    using w1 by (auto simp: TransitionStatus_def isLegalJobTransition_def jobTransitions_def statement_def
        Let_def split: if_splits prod.splits)
  have "job_bound N (db w) ?d" using E by (simp add: bnd.rely_def)
  then have "done_jobs (db w) \<le> done_jobs ?d" by (rule done_jobs_mono)
  also have "\<dots> < done_jobs (db w1)"
    using d1 filter_update_where_count [of "\<lambda>j. j_ID j = jid \<and> j_Status j = ''queued''"
        "\<lambda>j. isTerminalStatus (j_Status j)" "\<lambda>j. j\<lparr>j_Status := ''skipped''\<rparr>" "jobs ?d"]
    by (simp add: sql_TransitionStatus_def update_jobs_def done_jobs_def terminal_skipped split: if_splits)
  also have "\<dots> \<le> done_jobs (db w')"
  proof (rule done_jobs_mono [OF bnd.guarD [OF _ rest]])
    show "bnd.guar N (do { now \<leftarrow> time_now E; SetResult E jid ''skipped'' now })"
      by (intro bnd.guar_rules bnd.guar_store E)
  qed
  finally show ?thesis .
qed

lemma gate_pass_progress:
  assumes "bnd.rely N E" and "run_state (gate_pass E by js p) w = (Inr True, w')" and "\<not> p"
  shows "done_jobs (db w) < done_jobs (db w')"
  using assms(2,3)
proof (induction js arbitrary: w p)
  case (Cons j js)
  show ?case
  proof (cases "gate_skips j by")
    case True
    obtain r w1 where r: "run_state (skipJob E (j_ID j)) w = (r, w1)" by (cases "run_state (skipJob E (j_ID j)) w")
    have skip: "done_jobs (db w) \<le> done_jobs (db w1)"
      by (rule done_jobs_mono [OF bnd.guarD [OF bnd.guar_skipJob [OF assms(1)] r]])
    show ?thesis
    proof (cases r)
      case (Inl e)
      with True r Cons.prems have "run_state (gate_pass E by js p) w1 = (Inr True, w')"
        by (auto split: if_splits)
      with Cons.IH Cons.prems skip show ?thesis by fastforce
    next
      case (Inr u)
      with True r Cons.prems have "run_state (gate_pass E by js True) w1 = (Inr True, w')" by simp
      from done_jobs_mono [OF bnd.guarD [OF bnd.guar_gate_pass [OF assms(1)] this]]
        skipJob_progress [OF assms(1)] r Inr show ?thesis by fastforce
    qed
  qed (use Cons in auto)
qed simp

lemma gate_loop_returns:
  assumes "bnd.rely N E" and "length (jobs (db w)) \<le> N" and "N < fuel + done_jobs (db w)"
  shows "fst (run_state (gate_loop fuel E runID ch) w) \<noteq> None"
  using assms(2,3)
proof (induction fuel arbitrary: w ch)
  case 0
  then show ?case by (metis add_0 done_jobs_def length_filter_le less_le_trans not_less)
next
  case (Suc fuel)
  obtain r w1 where r: "run_state (ListJobsForRun E runID) w = (r, w1)" by (cases "run_state (ListJobsForRun E runID) w")
  have b1: "job_bound N (db w) (db w1)" by (rule bnd.guarD [OF bnd.guar_reads(3) [OF assms(1)] r])
  show ?case
  proof (cases r)
    case (Inr js)
    obtain p w2 where p: "run_state (gate_pass E (groupJobsByJobID js) js False) w1 = (p, w2)"
      by (cases "run_state (gate_pass E (groupJobsByJobID js) js False) w1")
    have b2: "job_bound N (db w1) (db w2)" by (rule bnd.guarD [OF bnd.guar_gate_pass [OF assms(1)] p])
    show ?thesis
    proof (cases "p = Inr True")
      case True
      have "length (jobs (db w2)) \<le> N" using b1 b2 Suc.prems by (simp add: job_bound_def)
      moreover have "done_jobs (db w) < done_jobs (db w2)"
        using done_jobs_mono [OF b1] gate_pass_progress [OF assms(1) p [unfolded True]] by simp
      ultimately have "fst (run_state (gate_loop fuel E runID True) w2) \<noteq> None"
        using Suc.prems by (intro Suc.IH) auto
      with r Inr p True show ?thesis by simp
    next
      case False
      with r Inr p show ?thesis by (cases p) auto
    qed
  qed (use r in simp)
qed

subsection \<open>Roll-up\<close>

definition rollup :: "Job list \<Rightarrow> string option" where
  "rollup js =
     (if \<exists>j\<in>set js. \<not> isTerminalStatus (j_Status j) then None
      else Some (if \<exists>j\<in>set js. j_Status j = ''failure'' then ''failure''
                 else if \<forall>j\<in>set js. j_Status j \<in> {''success'', ''skipped''} then ''success'' else ''cancelled''))"

lemma finalize_loop_eq:
  "finalize_loop js (a, f) =
     (if \<exists>j\<in>set js. \<not> isTerminalStatus (j_Status j) then None
      else Some (a \<and> (\<forall>j\<in>set js. j_Status j \<in> {''success'', ''skipped''}), f \<or> (\<exists>j\<in>set js. j_Status j = ''failure'')))"
  by (induction js arbitrary: a f) auto

lemma rollup_eq: "rollup js = map_option run_status_of (finalize_loop js (True, False))"
  by (auto simp: rollup_def finalize_loop_eq run_status_of_def)

text \<open>The commit status due for a run that ends with a status.\<close>

definition due_post :: "Service \<Rightarrow> database \<Rightarrow> uuid \<Rightarrow> string \<Rightarrow> (string \<times> string \<times> string \<times> string) list" where
  "due_post s d runID st =
     (case find (\<lambda>r. run_ID r = runID) (workflow_runs d) of
        None \<Rightarrow> []
      | Some r \<Rightarrow>
          if commitStatus s \<and> run_Event r \<noteq> ''manual'' \<and> run_Repo r \<noteq> '''' \<and> run_SHA r \<noteq> ''''
          then [(run_Repo r, run_SHA r, commitStatusForRunStatus st)] else [])"

lemma finalize_solo:
  assumes "solo (svc_env s)"
  shows "\<exists>r n. run_state (finalizeRunIfComplete s runID) w = (r,
    (case rollup (jobs_of_run runID (db w)) of
       None \<Rightarrow> w\<lparr>tick := n\<rparr>
     | Some st \<Rightarrow>
         w\<lparr>db := (db w)\<lparr>workflow_runs :=
              update_where (\<lambda>r. run_ID r = runID) (\<lambda>r. r\<lparr>run_Status := st\<rparr>) (workflow_runs (db w))\<rparr>,
           tick := n, posted := posted w @ due_post s (db w) runID st\<rparr>)) \<and>
    (runID \<in> run_ID ` set (workflow_runs (db w)) \<longrightarrow> r = Inr ())"
proof (cases "finalize_loop (jobs_of_run runID (db w)) (True, False)")
  case None
  then show ?thesis
    by (simp add: finalizeRunIfComplete_def ListJobsForRun_def run_query_solo assms rollup_eq) blast
next
  case (Some fl)
  let ?st = "run_status_of fl"
  show ?thesis
  proof (cases "runID \<in> run_ID ` set (workflow_runs (db w))")
    case True
    then have "rows_affected (\<lambda>r. run_ID r = runID) (workflow_runs (db w)) \<noteq> 0"
      by (auto simp: rows_affected_0)
    with Some True show ?thesis
      by (auto simp: finalizeRunIfComplete_def ListJobsForRun_def SetRunStatus_def sql_SetRunStatus_def
          reportCommitStatus_def GetRun_def first_row_def run_query_solo run_statement_solo assms rollup_eq
          find_update_where due_post_def post_status_def commitStatusForRunStatus_def
          split: option.splits)
  next
    case False
    then have "rows_affected (\<lambda>r. run_ID r = runID) (workflow_runs (db w)) = 0"
      "find (\<lambda>r. run_ID r = runID) (workflow_runs (db w)) = None"
      by (auto simp: rows_affected_0 find_None_iff)
    with Some False show ?thesis
      by (auto simp: finalizeRunIfComplete_def ListJobsForRun_def SetRunStatus_def sql_SetRunStatus_def
          run_query_solo run_statement_solo assms rollup_eq due_post_def update_where_none rows_affected_0)
  qed
qed

subsection \<open>The gate as a whole\<close>

lemma rely_solo_bnd: "solo E \<Longrightarrow> bnd.rely N E"
  by (simp add: solo_def bnd.rely_def bnd.R_refl)

text \<open>
  The outcome of the gate on a run: the doomed rows are skipped, the run gets the status its
  jobs roll up to, the commit status due for it is posted, the waiting runners are woken when a
  job was skipped, and the other tables are as they were.
\<close>

definition gate_outcome :: "Service \<Rightarrow> uuid \<Rightarrow> world \<Rightarrow> (Job \<Rightarrow> time) \<Rightarrow> world \<Rightarrow> bool" where
  "gate_outcome s runID w ts w' \<longleftrightarrow>
     (let d = (db w)\<lparr>jobs := skip_all (doomed_in runID (db w)) ts (jobs (db w))\<rparr>;
          final = rollup (jobs_of_run runID d)
      in jobs (db w') = jobs d \<and>
         workflow_runs (db w') = (case final of
             None \<Rightarrow> workflow_runs d
           | Some st \<Rightarrow> update_where (\<lambda>r. run_ID r = runID) (\<lambda>r. r\<lparr>run_Status := st\<rparr>) (workflow_runs d)) \<and>
         posted w' = posted w @ (case final of None \<Rightarrow> [] | Some st \<Rightarrow> due_post s d runID st) \<and>
         waiters w' = (if doomed_in runID (db w) = {} then waiters w else []) \<and>
         runners (db w') = runners (db w) \<and> steps (db w') = steps (db w) \<and>
         job_outputs (db w') = job_outputs (db w) \<and> log_chunks (db w') = log_chunks (db w))"

lemma gateRun_solo:
  assumes E: "solo (svc_env s)" and ids: "distinct (map j_ID (jobs (db w)))"
    and fuel: "length (jobs (db w)) < fuel" and run: "runID \<in> run_ID ` set (workflow_runs (db w))"
  shows "\<exists>ts w'. run_state (gateRun fuel s runID) w = (Some (Inr ()), w') \<and> gate_outcome s runID w ts w'"
proof -
  let ?D = "doomed_in runID (db w)" and ?E = "svc_env s"
  obtain c w1 where loop: "run_state (gate_loop fuel ?E runID False) w = (Some c, w1)"
    using gate_loop_returns [OF rely_solo_bnd [OF E] order_refl, of w fuel runID False] fuel
    by (cases "run_state (gate_loop fuel ?E runID False) w") auto
  from gate_loop_solo [OF E ids this] obtain ts n where
    w1: "w1 = w\<lparr>db := (db w)\<lparr>jobs := skip_all ?D ts (jobs (db w))\<rparr>, tick := n\<rparr>"
    and c: "c = Inr (?D \<noteq> {})" by auto
  obtain m wf where wf: "wf = (case rollup (jobs_of_run runID (db w1)) of
         None \<Rightarrow> w1\<lparr>tick := m\<rparr>
       | Some st \<Rightarrow>
           w1\<lparr>db := (db w1)\<lparr>workflow_runs :=
                update_where (\<lambda>r. run_ID r = runID) (\<lambda>r. r\<lparr>run_Status := st\<rparr>) (workflow_runs (db w1))\<rparr>,
             tick := m, posted := posted w1 @ due_post s (db w1) runID st\<rparr>)"
    and fin: "run_state (finalizeRunIfComplete s runID) w1 = (Inr (), wf)"
    using finalize_solo [OF E, of runID w1] run w1 by auto
  have "run_state (gateRun fuel s runID) w = (Some (Inr ()), if ?D \<noteq> {} then snd (run_state Notify wf) else wf)"
    by (auto simp: gateRun_def loop fin c Notify_def)
  moreover have "gate_outcome s runID w ts (if ?D \<noteq> {} then snd (run_state Notify wf) else wf)"
    by (auto simp: gate_outcome_def Let_def wf w1 Notify_def split: option.splits)
  ultimately show ?thesis by blast
qed

lemma doomed_in_after: "doomed_in runID (d\<lparr>jobs := skip_all (doomed_in runID d) ts (jobs d)\<rparr>) = {}"
proof -
  let ?S = "doomed_in runID d" and ?d = "d\<lparr>jobs := skip_all (doomed_in runID d) ts (jobs d)\<rparr>"
  have "j \<notin> ?S" if "j \<in> doomed_in runID ?d" for j
    using doomed_in_queued [OF that] by (auto simp: skip_all_def split: if_splits)
  with doomed_in_skip_all [OF order_refl, of runID d ts] show ?thesis by blast
qed

lemma doomed_in_jobs: "jobs d = jobs d' \<Longrightarrow> doomed_in runID d = doomed_in runID d'"
  unfolding doomed_in_def by (rule Collect_cong, rule doomed_set) simp

lemma rollup_set: "set js = set js' \<Longrightarrow> rollup js = rollup js'"
  by (simp add: rollup_def)

lemma rollup_jobs: "jobs d = jobs d' \<Longrightarrow> rollup (jobs_of_run runID d) = rollup (jobs_of_run runID d')"
  by (rule rollup_set) simp

lemma update_where_idem:
  "(\<And>r. P r \<Longrightarrow> P (f r) \<and> f (f r) = f r) \<Longrightarrow> update_where P f (update_where P f rows) = update_where P f rows"
  by (induction rows) auto

text \<open>
  C4: what \<open>gateRun\<close> does, alone on the database. It returns, and the jobs it skips are
  exactly the least set closed under the default rule: a queued job of the run without an
  \<open>if:\<close> override, all of whose needs are terminal or in the set, one of them not
  successful. Every other job row is untouched; the run takes the status its jobs roll up to
  once all are terminal, its commit status is posted, and waiting runners are woken when a
  job was skipped.
\<close>

theorem gateRun_least_fixpoint:
  assumes "solo (svc_env s)" and "distinct (map j_ID (jobs (db w)))"
    and "length (jobs (db w)) < fuel" and "runID \<in> run_ID ` set (workflow_runs (db w))"
  shows "\<exists>ts w'. run_state (gateRun fuel s runID) w = (Some (Inr ()), w') \<and> gate_outcome s runID w ts w'"
  by (rule gateRun_solo [OF assms])

definition failed_build :: "Job list" where
  "failed_build = [(sample_job 11 ''build'' [])\<lparr>j_Status := ''failure'', j_Result := Some ''failure''\<rparr>,
     sample_job 12 ''test'' [''build''], sample_job 13 ''docs'' [''test'']]"

theorem gateRun_least_fixpoint_witness:
  "\<exists>ts w'. run_state (gateRun 4 sample_service 1) (world_with (db_with failed_build)) = (Some (Inr ()), w') \<and>
     gate_outcome sample_service 1 (world_with (db_with failed_build)) ts w'"
  by (rule gateRun_least_fixpoint) (simp_all add: sample_defs failed_build_def)

text \<open>
  C16: \<open>gateRun\<close> always returns, whatever the other sessions do. As long as they move jobs
  along the state machine and the jobs table has at most \<open>N\<close> rows, \<open>N + 1\<close> passes are
  enough, also when statements fail and races are lost.
\<close>

theorem gateRun_returns:
  assumes "\<forall>n d. job_bound N d (other (svc_env s) n d)" and "length (jobs (db w)) \<le> N" and "N < fuel"
  shows "\<exists>r w'. run_state (gateRun fuel s runID) w = (Some r, w')"
proof -
  have "bnd.rely N (svc_env s)" using assms(1) by (simp add: bnd.rely_def)
  from gate_loop_returns [OF this assms(2), of fuel runID False] assms(3)
  obtain c w1 where loop: "run_state (gate_loop fuel (svc_env s) runID False) w = (Some c, w1)"
    by (cases "run_state (gate_loop fuel (svc_env s) runID False) w") auto
  obtain f w2 where fin: "run_state (finalizeRunIfComplete s runID) w1 = (f, w2)"
    by (cases "run_state (finalizeRunIfComplete s runID) w1")
  show ?thesis by (cases c; cases f) (auto simp: gateRun_def loop fin Notify_def)
qed

theorem gateRun_returns_witness:
  "\<exists>r w'. run_state (gateRun 4 sample_service 1) (world_with (db_with failed_build)) = (Some r, w')"
  by (rule gateRun_returns [where N = 3])
    (simp_all add: sample_env_def bnd.R_refl world_with_def db_with_def failed_build_def)

text \<open>
  C30: \<open>gateRun\<close> is idempotent on the tables: a second call finds nothing to skip, leaves
  jobs and runs as they are and wakes nobody.
\<close>

theorem gateRun_idempotent:
  assumes "solo (svc_env s)" and "distinct (map j_ID (jobs (db w)))"
    and "length (jobs (db w)) < fuel" and "runID \<in> run_ID ` set (workflow_runs (db w))"
    and "run_state (gateRun fuel s runID) w = (r, w1)" and "run_state (gateRun fuel s runID) w1 = (r', w2)"
  shows "r' = Some (Inr ()) \<and> jobs (db w2) = jobs (db w1) \<and> workflow_runs (db w2) = workflow_runs (db w1) \<and>
    waiters w2 = waiters w1"
proof -
  from gateRun_solo [OF assms(1-4)] assms(5) obtain ts where o1: "gate_outcome s runID w ts w1" by auto
  let ?d = "(db w)\<lparr>jobs := skip_all (doomed_in runID (db w)) ts (jobs (db w))\<rparr>"
  have j1: "jobs (db w1) = jobs ?d" using o1 by (simp add: gate_outcome_def Let_def)
  have r1: "workflow_runs (db w1) = (case rollup (jobs_of_run runID ?d) of None \<Rightarrow> workflow_runs (db w)
      | Some st \<Rightarrow> update_where (\<lambda>r. run_ID r = runID) (\<lambda>r. r\<lparr>run_Status := st\<rparr>) (workflow_runs (db w)))"
    using o1 by (simp add: gate_outcome_def Let_def split: option.splits)
  have "run_ID ` set (workflow_runs (db w1)) = run_ID ` set (workflow_runs (db w))"
    unfolding r1 by (auto split: option.splits simp: image_update_where)
  then obtain ts' where run2: "r' = Some (Inr ())" and o2: "gate_outcome s runID w1 ts' w2"
    using gateRun_solo [OF assms(1), of w1 fuel runID] assms(2,3,4,6) j1 by auto
  have none: "doomed_in runID (db w1) = {}"
    using doomed_in_jobs [OF j1] doomed_in_after by simp
  have "rollup (jobs_of_run runID (db w1)) = rollup (jobs_of_run runID ?d)"
    by (rule rollup_jobs [OF j1])
  with o2 none r1 have "workflow_runs (db w2) = workflow_runs (db w1)"
    by (auto simp: gate_outcome_def Let_def update_where_idem split: option.splits)
  with o2 none run2 show ?thesis by (simp add: gate_outcome_def Let_def)
qed

theorem gateRun_idempotent_witness:
  "\<exists>w1 w2. run_state (gateRun 4 sample_service 1) (world_with (db_with failed_build)) = (Some (Inr ()), w1) \<and>
     run_state (gateRun 4 sample_service 1) w1 = (Some (Inr ()), w2) \<and> jobs (db w2) = jobs (db w1)"
proof -
  let ?w = "world_with (db_with failed_build)"
  have ok: "distinct (map j_ID (jobs (db ?w)))" "length (jobs (db ?w)) < 4" "1 \<in> run_ID ` set (workflow_runs (db ?w))"
    by (simp_all add: sample_defs failed_build_def)
  obtain w1 where w1: "run_state (gateRun 4 sample_service 1) ?w = (Some (Inr ()), w1)"
    using gateRun_solo [of sample_service ?w 4 1] ok by auto
  obtain r' w2 where w2: "run_state (gateRun 4 sample_service 1) w1 = (r', w2)"
    by (cases "run_state (gateRun 4 sample_service 1) w1")
  from gateRun_idempotent [OF _ ok w1 w2] w1 w2 show ?thesis by auto
qed

end
