(* ===== verification/Dispatch_Queue.thy ===== *)
theory Dispatch_Queue
  imports Gate_Spec
begin

text \<open>
  The job queue of \<open>internal/dispatch/queue.go\<close>: picking and leasing a queued job, the
  lease message with the outputs of the needs, the \<open>AcquireJob\<close> stream and the reaper of
  expired leases.
\<close>

definition candidateBatchSize :: nat where
  "candidateBatchSize = 10"

subsection \<open>Acquiring one job\<close>

type_synonym run_cache = "uuid \<rightharpoonup> (string \<rightharpoonup> Job list)"

definition jobsByJobIDForRun ::
    "env \<Rightarrow> uuid \<Rightarrow> run_cache \<Rightarrow> (world, store_error + (string \<rightharpoonup> Job list) \<times> run_cache) state" where
  "jobsByJobIDForRun E runID cache =
     (case cache runID of
        Some byJobID \<Rightarrow> ret (Inr (byJobID, cache))
      | None \<Rightarrow> do {
          r \<leftarrow> ListJobsForRun E runID;
          case r of
            Inl e \<Rightarrow> ret (Inl e)
          | Inr js \<Rightarrow>
              let byJobID = groupJobsByJobID js in ret (Inr (byJobID, cache(runID \<mapsto> byJobID)))
        })"

text \<open>The attempt to lease one candidate; \<open>None\<close> when the race for it was lost.\<close>

definition lease_candidate ::
    "env \<Rightarrow> uuid \<Rightarrow> int \<Rightarrow> Job \<Rightarrow> (world, store_error + (Job \<times> uuid) option) state" where
  "lease_candidate E runnerID ttl candidate = do {
     leaseID \<leftarrow> uuid_new E;
     now \<leftarrow> time_now E;
     r \<leftarrow> Lease E (j_ID candidate) leaseID runnerID (add_time now ttl);
     case r of
       Inl e \<Rightarrow> if e = ErrIllegalTransition then ret (Inr None) else ret (Inl e)
     | Inr _ \<Rightarrow> do {
         g \<leftarrow> GetJob E (j_ID candidate);
         case g of
           Inl e \<Rightarrow> ret (Inl e)
         | Inr leased \<Rightarrow> ret (Inr (Some (leased, leaseID)))
       }
   }"

text \<open>
  The checks on a candidate's needs: whether it may be leased, after a skip-by-rule job was
  skipped.
\<close>

definition check_candidate ::
    "env \<Rightarrow> Job \<Rightarrow> run_cache \<Rightarrow> (world, store_error + bool \<times> run_cache) state" where
  "check_candidate E candidate cache =
     (if 0 < length (elems (j_Needs candidate)) then do {
        r \<leftarrow> jobsByJobIDForRun E (j_RunID candidate) cache;
        case r of
          Inl e \<Rightarrow> ret (Inl e)
        | Inr (byJobID, cache') \<Rightarrow>
            (case needsSatisfied candidate byJobID of (allTerminal, anyBlocking) \<Rightarrow>
               if \<not> allTerminal then ret (Inr (False, cache'))
               else if anyBlocking \<and> hasDefaultIfExpr candidate then do {
                 sk \<leftarrow> skipJob E (j_ID candidate);
                 case sk of
                   Inl e \<Rightarrow> if e \<noteq> ErrIllegalTransition then ret (Inl e) else ret (Inr (False, cache'))
                 | Inr _ \<Rightarrow> ret (Inr (False, cache'))
               }
               else ret (Inr (True, cache')))
      }
      else ret (Inr (True, cache)))"

fun acquire_loop ::
    "env \<Rightarrow> uuid \<Rightarrow> int \<Rightarrow> Job list \<Rightarrow> run_cache \<Rightarrow> (world, store_error + (Job \<times> uuid) option) state" where
  "acquire_loop E runnerID ttl [] cache = ret (Inr None)"
| "acquire_loop E runnerID ttl (candidate # candidates) cache = do {
     c \<leftarrow> check_candidate E candidate cache;
     case c of
       Inl e \<Rightarrow> ret (Inl e)
     | Inr (leasable, cache') \<Rightarrow>
         if \<not> leasable then acquire_loop E runnerID ttl candidates cache'
         else do {
           r \<leftarrow> lease_candidate E runnerID ttl candidate;
           case r of
             Inl e \<Rightarrow> ret (Inl e)
           | Inr None \<Rightarrow> acquire_loop E runnerID ttl candidates cache'
           | Inr (Some l) \<Rightarrow> ret (Inr (Some l))
         }
   }"

definition acquireOneQueuedJob ::
    "env \<Rightarrow> uuid \<Rightarrow> int \<Rightarrow> (world, store_error + (Job \<times> uuid) option) state" where
  "acquireOneQueuedJob E runnerID ttl = do {
     r \<leftarrow> ListQueuedJobs E candidateBatchSize;
     case r of
       Inl e \<Rightarrow> ret (Inl e)
     | Inr candidates \<Rightarrow> acquire_loop E runnerID ttl candidates Map.empty
   }"

subsection \<open>The lease message\<close>

text \<open>One step of the loop of \<open>canonicalNeedRow\<close>; \<open>str\<close> is \<open>uuid.UUID.String\<close>.\<close>

definition canonical_step :: "(uuid \<Rightarrow> string) \<Rightarrow> Job \<Rightarrow> Job option \<Rightarrow> Job option" where
  "canonical_step str n canonical =
     (if j_Result n = None then canonical
      else case canonical of
        None \<Rightarrow> Some n
      | Some c \<Rightarrow>
          (case j_FinishedAt n of
             None \<Rightarrow> Some c
           | Some tn \<Rightarrow>
               (case j_FinishedAt c of
                  None \<Rightarrow> Some n
                | Some tc \<Rightarrow>
                    if tc < tn then Some n
                    else if tn = tc \<and> str (j_ID c) < str (j_ID n) then Some n
                    else Some c)))"

definition canonicalNeedRow :: "(uuid \<Rightarrow> string) \<Rightarrow> Job list \<Rightarrow> Job option" where
  "canonicalNeedRow str rows =
     (case fold (canonical_step str) rows None of
        Some c \<Rightarrow> Some c
      | None \<Rightarrow> (case rows of [] \<Rightarrow> None | r # _ \<Rightarrow> Some r))"

record NeedOutputs =
  no_Result :: string
  no_Outputs :: "string \<rightharpoonup> string"

fun needs_outputs_loop ::
    "Service \<Rightarrow> (string \<rightharpoonup> Job list) \<Rightarrow> string list \<Rightarrow> (string \<rightharpoonup> NeedOutputs) \<Rightarrow>
      (world, store_error + (string \<rightharpoonup> NeedOutputs)) state" where
  "needs_outputs_loop s byJobID [] acc = ret (Inr acc)"
| "needs_outputs_loop s byJobID (need # needs) acc =
     (case canonicalNeedRow (uuid_string s) (map_get byJobID need) of
        None \<Rightarrow> needs_outputs_loop s byJobID needs acc
      | Some n \<Rightarrow>
          (case j_Result n of
             None \<Rightarrow> needs_outputs_loop s byJobID needs acc
           | Some result \<Rightarrow> do {
               outs \<leftarrow> ListOutputs (svc_env s) (j_ID n);
               case outs of
                 Inl e \<Rightarrow> ret (Inl e)
               | Inr m \<Rightarrow>
                   needs_outputs_loop s byJobID needs (acc(need \<mapsto> \<lparr>no_Result = result, no_Outputs = m\<rparr>))
             }))"

definition buildNeedsOutputs ::
    "Service \<Rightarrow> Job \<Rightarrow> (world, store_error + (string \<rightharpoonup> NeedOutputs)) state" where
  "buildNeedsOutputs s job =
     (if length (elems (j_Needs job)) = 0 then ret (Inr Map.empty)
      else do {
        r \<leftarrow> ListJobsForRun (svc_env s) (j_RunID job);
        case r of
          Inl e \<Rightarrow> ret (Inl e)
        | Inr siblings \<Rightarrow>
            needs_outputs_loop s (groupJobsByJobID siblings) (elems (j_Needs job)) Map.empty
      })"

record JobLease =
  jl_LeaseId :: string
  jl_JobRunId :: string
  jl_WorkflowYaml :: string
  jl_JobId :: string
  jl_MatrixCellJson :: string
  jl_EventName :: string
  jl_EventJson :: string
  jl_RepoUrl :: string
  jl_Ref :: string
  jl_Sha :: string
  jl_Actor :: string
  jl_Env :: "string \<rightharpoonup> string"
  jl_Vars :: "string \<rightharpoonup> string"
  jl_Secrets :: "string \<rightharpoonup> string"
  jl_NeedsOutputs :: "string \<rightharpoonup> NeedOutputs"
  jl_LeaseDeadlineUnix :: int

definition buildJobLease :: "Service \<Rightarrow> Job \<Rightarrow> uuid \<Rightarrow> int \<Rightarrow> (world, go_error + JobLease) state" where
  "buildJobLease s job leaseID ttl = do {
     r \<leftarrow> GetRun (svc_env s) (j_RunID job);
     case r of
       Inl e \<Rightarrow> ret (Inl (Status Internal))
     | Inr run \<Rightarrow> do {
         o' \<leftarrow> buildNeedsOutputs s job;
         case o' of
           Inl e \<Rightarrow> ret (Inl (Status Internal))
         | Inr needsOutputs \<Rightarrow> do {
             now \<leftarrow> time_now (svc_env s);
             ret (Inr
               \<lparr>jl_LeaseId = uuid_string s leaseID, jl_JobRunId = uuid_string s (j_ID job),
                jl_WorkflowYaml = run_WorkflowYAML run, jl_JobId = j_JobIDYAML job,
                jl_MatrixCellJson = elems (j_MatrixCellJSON job), jl_EventName = run_Event run,
                jl_EventJson = elems (run_EventPayloadJSON run), jl_RepoUrl = CloneURL (gh s) (run_Repo run),
                jl_Ref = run_Ref run, jl_Sha = run_SHA run, jl_Actor = run_TriggeredBy run,
                jl_Env = Map.empty, jl_Vars = Map.empty, jl_Secrets = Map.empty,
                jl_NeedsOutputs = needsOutputs,
                jl_LeaseDeadlineUnix =
                  (case j_LeaseDeadline job of None \<Rightarrow> unix (add_time now ttl) | Some dl \<Rightarrow> unix dl)\<rparr>)
           }
       }
   }"

subsection \<open>The stream\<close>

text \<open>
  What ends a wait for work: the runner is gone, \<open>Notify\<close> closed the channel, or the
  backstop ticker fired. A stream is served along a list of such events; it is still
  blocked, \<open>None\<close>, when the list is used up. \<open>send_ok\<close> tells whether the \<open>n\<close>-th
  \<open>Send\<close> succeeds.
\<close>

datatype wake = CtxDone | Notified | PollTick

fun acquire_slots ::
    "Service \<Rightarrow> uuid \<Rightarrow> (nat \<Rightarrow> bool) \<Rightarrow> nat \<Rightarrow> wake list \<Rightarrow> JobLease list \<Rightarrow>
      (world, (go_error + unit) option \<times> JobLease list) state" where
  "acquire_slots s runnerID send_ok 0 evs sent = ret (Some (Inr ()), sent)"
| "acquire_slots s runnerID send_ok (Suc n) evs sent = do {
     r \<leftarrow> acquireOneQueuedJob (svc_env s) runnerID (leaseTTL s);
     case r of
       Inl e \<Rightarrow> ret (Some (Inl (Status Internal)), sent)
     | Inr None \<Rightarrow> do {
         queue_wait;
         case evs of
           [] \<Rightarrow> ret (None, sent)
         | ev # evs' \<Rightarrow>
             if ev = CtxDone then ret (Some (Inr ()), sent)
             else acquire_slots s runnerID send_ok (Suc n) evs' sent
       }
     | Inr (Some (job, leaseID)) \<Rightarrow> do {
         l \<leftarrow> buildJobLease s job leaseID (leaseTTL s);
         case l of
           Inl e \<Rightarrow> ret (Some (Inl e), sent)
         | Inr lease \<Rightarrow>
             if send_ok (length sent) then acquire_slots s runnerID send_ok n evs (sent @ [lease])
             else ret (Some (Inl StreamError), sent)
       }
   }"

record AcquireJobRequest =
  aq_RunnerId :: string
  aq_FreeSlots :: int

definition AcquireJob ::
    "Service \<Rightarrow> metadata \<Rightarrow> AcquireJobRequest \<Rightarrow> (nat \<Rightarrow> bool) \<Rightarrow> wake list \<Rightarrow>
      (world, (go_error + unit) option \<times> JobLease list) state" where
  "AcquireJob s md req send_ok evs =
     (case bearerToken md of
        Inl e \<Rightarrow> ret (Some (Inl e), [])
      | Inr tok \<Rightarrow>
     (case uuid_parse s (aq_RunnerId req) of
        None \<Rightarrow> ret (Some (Inl (Status InvalidArgument)), [])
      | Some runnerID \<Rightarrow> do {
          r \<leftarrow> GetByID (svc_env s) runnerID;
          case r of
            Inl e \<Rightarrow> ret (Some (Inl (Status NotFound)), [])
          | Inr runner \<Rightarrow>
              if \<not> validToken tok (rn_AuthToken runner) then ret (Some (Inl (Status Unauthenticated)), [])
              else if aq_FreeSlots req \<le> 0 then ret (Some (Inl (Status InvalidArgument)), [])
              else acquire_slots s runnerID send_ok (nat (aq_FreeSlots req)) evs []
        }))"

subsection \<open>The lease reaper\<close>

text \<open>Five seconds, in microseconds.\<close>

definition jobReaperInterval :: int where
  "jobReaperInterval = 5 * 1000000"

definition reap_leases :: "Service \<Rightarrow> (world, unit) state" where
  "reap_leases s = do {
     now \<leftarrow> time_now (svc_env s);
     r \<leftarrow> RequeueExpired (svc_env s) now;
     case r of
       Inl e \<Rightarrow> ret ()
     | Inr n \<Rightarrow> if 0 < n then Notify else ret ()
   }"

text \<open>The ticks of the reaper until its context is cancelled.\<close>

fun StartJobReaper :: "Service \<Rightarrow> nat \<Rightarrow> (world, unit) state" where
  "StartJobReaper s 0 = ret ()"
| "StartJobReaper s (Suc ticks) = do { reap_leases s; StartJobReaper s ticks }"

subsection \<open>What every relation of the stores gives\<close>

context call_rel
begin

lemma guar_lease_candidate: "rely E \<Longrightarrow> guar (lease_candidate E runnerID ttl cand)"
  unfolding lease_candidate_def by (intro guar_rules guar_store) auto

lemma guar_check_candidate: "rely E \<Longrightarrow> guar (check_candidate E cand cache)"
  unfolding check_candidate_def jobsByJobIDForRun_def
  by (intro guar_rules guar_store guar_skipJob) auto

lemma guar_acquire_loop: "rely E \<Longrightarrow> guar (acquire_loop E runnerID ttl cands cache)"
  by (induction cands arbitrary: cache) (auto intro!: guar_rules guar_check_candidate guar_lease_candidate)

lemma guar_acquireOne: "rely E \<Longrightarrow> guar (acquireOneQueuedJob E runnerID ttl)"
  unfolding acquireOneQueuedJob_def by (intro guar_rules guar_store guar_acquire_loop) auto

lemma guar_needs_outputs_loop: "rely (svc_env s) \<Longrightarrow> guar (needs_outputs_loop s by needs acc)"
  by (induction needs arbitrary: acc) (auto intro!: guar_rules guar_reads)

lemma guar_buildJobLease: "rely (svc_env s) \<Longrightarrow> guar (buildJobLease s job leaseID ttl)"
  unfolding buildJobLease_def buildNeedsOutputs_def
  by (intro guar_rules guar_store guar_needs_outputs_loop) auto

lemma guar_acquire_slots: "rely (svc_env s) \<Longrightarrow> guar (acquire_slots s runnerID ok n evs sent)"
  by (induction s runnerID ok n evs sent rule: acquire_slots.induct)
    (auto intro!: guar_rules guar_acquireOne guar_buildJobLease guar_queue_wait)

lemma guar_AcquireJob: "rely (svc_env s) \<Longrightarrow> guar (AcquireJob s md req ok evs)"
  unfolding AcquireJob_def by (intro guar_rules guar_store guar_acquire_slots) auto

lemma guar_StartJobReaper: "rely (svc_env s) \<Longrightarrow> guar (StartJobReaper s ticks)"
  by (induction ticks) (auto simp: reap_leases_def intro!: guar_rules guar_store guar_Notify)

end

end
