(* ===== verification/Queue_Spec.thy ===== *)
theory Queue_Spec
  imports Dispatch_Queue
begin

text \<open>
  What the job queue promises: a job is leased only when its needs allow it, whatever the
  other sessions do meanwhile; the representative of a matrixed need does not depend on the
  order of its rows; an \<open>AcquireJob\<close> stream sends at most as many leases as it has slots and
  ends when the runner disconnects; the reaper requeues exactly the expired leases.
\<close>

subsection \<open>Interference that adds no job to a run in progress\<close>

text \<open>
  Between two statements of a handler the other sessions move jobs along the state machine,
  keep the planned columns and a well-formed database, and insert jobs only into runs that
  had none before: the planner inserts the jobs of a new run.
\<close>

definition no_late_jobs :: "database \<Rightarrow> database \<Rightarrow> bool" where
  "no_late_jobs d d' \<longleftrightarrow>
     (\<forall>j\<in>set (drop (length (jobs d)) (jobs d')). j_RunID j \<notin> j_RunID ` set (jobs d))"

definition calm :: "database \<Rightarrow> database \<Rightarrow> bool" where
  "calm d d' \<longleftrightarrow> rows_kept moves_legally d d' \<and> rows_kept same_plan d d' \<and> keeps_ok d d' \<and> no_late_jobs d d'"

lemma no_late_same_length: "length (jobs d') = length (jobs d) \<Longrightarrow> no_late_jobs d d'"
  by (simp add: no_late_jobs_def)

lemma rows_kept_length: "rows_kept Q d d' \<Longrightarrow> length (jobs d) \<le> length (jobs d')"
  by (auto simp: rows_kept_def dest: list_all2_lengthD)

lemma same_plan_runs: "rows_kept same_plan d d' \<Longrightarrow> j_RunID ` set (jobs d) \<subseteq> j_RunID ` set (jobs d')"
proof
  fix x assume "rows_kept same_plan d d'" and "x \<in> j_RunID ` set (jobs d)"
  then obtain j j' where "x = j_RunID j" "j' \<in> set (jobs d')" "same_plan j j'"
    by (auto elim: rows_kept_row)
  then show "x \<in> j_RunID ` set (jobs d')" by (simp add: same_plan_def rev_image_eqI)
qed

lemma no_late_trans:
  assumes "rows_kept same_plan d d'" and "rows_kept same_plan d' d''"
    and "no_late_jobs d d'" and "no_late_jobs d' d''"
  shows "no_late_jobs d d''"
  unfolding no_late_jobs_def
proof
  fix j assume "j \<in> set (drop (length (jobs d)) (jobs d''))"
  then obtain i where i: "length (jobs d) \<le> i" "i < length (jobs d'')" "j = jobs d'' ! i"
    by (auto simp: in_set_conv_nth) (metis le_add1 less_diff_conv add.commute)
  show "j_RunID j \<notin> j_RunID ` set (jobs d)"
  proof (cases "i < length (jobs d')")
    case True
    then have "same_plan (jobs d' ! i) j" using rows_kept_nth(2) [OF assms(2)] i(3) by simp
    moreover have "jobs d' ! i \<in> set (drop (length (jobs d)) (jobs d'))"
      using True i(1) by (auto simp: in_set_conv_nth intro!: exI [of _ "i - length (jobs d)"])
    ultimately show ?thesis using assms(3) by (simp add: no_late_jobs_def same_plan_def)
  next
    case False
    then have "j \<in> set (drop (length (jobs d')) (jobs d''))"
      using i by (auto simp: in_set_conv_nth intro!: exI [of _ "i - length (jobs d')"])
    then show ?thesis using assms(4) same_plan_runs [OF assms(1)] unfolding no_late_jobs_def by blast
  qed
qed

interpretation calm: dispatch_rel calm
  by unfold_locales
    (auto simp: calm_def no_late_same_length jobs_length_sql path.R_refl plan.R_refl ok.R_refl
      path.R_TransitionStatus plan.R_TransitionStatus ok.R_TransitionStatus
      path.R_Lease plan.R_Lease ok.R_Lease path.R_RenewLease plan.R_RenewLease ok.R_RenewLease
      path.R_RequeueExpired plan.R_RequeueExpired ok.R_RequeueExpired
      path.R_SetResult plan.R_SetResult ok.R_SetResult path.R_CreateRun plan.R_CreateRun ok.R_CreateRun
      path.R_SetRunStatus plan.R_SetRunStatus ok.R_SetRunStatus
      path.R_UpsertStep plan.R_UpsertStep ok.R_UpsertStep
      path.R_UpsertOutput plan.R_UpsertOutput ok.R_UpsertOutput
      path.R_CreateRunner plan.R_CreateRunner ok.R_CreateRunner
      path.R_UpdateHeartbeat plan.R_UpdateHeartbeat ok.R_UpdateHeartbeat
      path.R_SetStatus plan.R_SetStatus ok.R_SetStatus
      path.R_MarkStaleOffline plan.R_MarkStaleOffline ok.R_MarkStaleOffline
      path.R_Append plan.R_Append ok.R_Append
      intro: path.R_trans plan.R_trans ok.R_trans no_late_trans)

text \<open>The rows of a run after calm interference are those before it, moved along the machine.\<close>

lemma calm_row:
  assumes "calm d d'" and "j \<in> set (jobs d)"
  obtains j' where "j' \<in> set (jobs d')" "same_plan j j'" "moves_legally j j'"
proof -
  from assms(2) obtain i where i: "i < length (jobs d)" "jobs d ! i = j" by (auto simp: in_set_conv_nth)
  with assms(1) have "same_plan j (jobs d' ! i)" "moves_legally j (jobs d' ! i)" "i < length (jobs d')"
    using rows_kept_nth [of same_plan d d' i] rows_kept_nth [of moves_legally d d' i] by (auto simp: calm_def)
  then show thesis by (intro that [of "jobs d' ! i"]) auto
qed

lemma calm_old_row:
  assumes "calm d d'" and "j' \<in> set (jobs d')" and "j_RunID j' \<in> j_RunID ` set (jobs d)"
  obtains j where "j \<in> set (jobs d)" "same_plan j j'" "moves_legally j j'"
proof -
  from assms(2) obtain i where i: "i < length (jobs d')" "jobs d' ! i = j'" by (auto simp: in_set_conv_nth)
  have "i < length (jobs d)"
  proof (rule ccontr)
    assume "\<not> i < length (jobs d)"
    with i have "j' \<in> set (drop (length (jobs d)) (jobs d'))"
      by (auto simp: in_set_conv_nth intro!: exI [of _ "i - length (jobs d)"])
    with assms(1,3) show False by (auto simp: calm_def no_late_jobs_def)
  qed
  with assms(1) i show thesis
    using rows_kept_nth [of same_plan d d' i] rows_kept_nth [of moves_legally d d' i]
    by (intro that [of "jobs d ! i"]) (auto simp: calm_def)
qed

lemma terminal_stays: "moves_legally j j' \<Longrightarrow> isTerminalStatus (j_Status j) \<Longrightarrow> j_Status j' = j_Status j"
  by (auto simp: moves_legally_def isTerminal_iff terminal_path)

text \<open>Needs that are terminal stay so, with the same outcome.\<close>

lemma needs_stable:
  assumes calm: "calm d d'" and j: "j \<in> set (jobs d)" and plan: "same_plan j j'"
    and ready: "all_needs_terminal (jobs_of_run (j_RunID j) d) j"
  shows "all_needs_terminal (jobs_of_run (j_RunID j) d') j'"
    and "some_need_blocks (jobs_of_run (j_RunID j) d') j' \<longleftrightarrow> some_need_blocks (jobs_of_run (j_RunID j) d) j"
proof -
  have needs: "needs_of j' = needs_of j" using plan by (simp add: needs_of_def same_plan_def)
  have backw: "\<exists>n\<in>set (jobs d). j_RunID n = j_RunID j \<and> j_JobIDYAML n = j_JobIDYAML n' \<and> j_Status n' = j_Status n \<and>
      isTerminalStatus (j_Status n)"
    if n': "n' \<in> set (jobs d')" "j_RunID n' = j_RunID j" "j_JobIDYAML n' \<in> needs_of j" for n'
  proof -
    from calm_old_row [OF calm n'(1)] n'(2) j obtain n where
      n: "n \<in> set (jobs d)" "same_plan n n'" "moves_legally n n'" by auto
    then have "isTerminalStatus (j_Status n)"
      using ready n' by (auto simp: all_needs_terminal_def same_plan_def)
    with terminal_stays [OF n(3)] n n' show ?thesis by (auto simp: same_plan_def)
  qed
  have forth: "\<exists>n'\<in>set (jobs d'). j_RunID n' = j_RunID j \<and> j_JobIDYAML n' = j_JobIDYAML n \<and>
      (isTerminalStatus (j_Status n) \<longrightarrow> j_Status n' = j_Status n)"
    if n: "n \<in> set (jobs d)" "j_RunID n = j_RunID j" for n
  proof -
    obtain n' where "n' \<in> set (jobs d')" "same_plan n n'" "moves_legally n n'"
      using calm_row [OF calm n(1)] by blast
    with n(2) show ?thesis by (intro bexI [of _ n']) (auto simp: same_plan_def terminal_stays)
  qed
  have cover: "needs_of j \<subseteq> j_JobIDYAML ` {n \<in> set (jobs d'). j_RunID n = j_RunID j}"
  proof
    fix need assume "need \<in> needs_of j"
    then obtain n where "n \<in> set (jobs d)" "j_RunID n = j_RunID j" "j_JobIDYAML n = need"
      using ready by (auto simp: all_needs_terminal_def)
    moreover from this(1,2) obtain n' where "n' \<in> set (jobs d')" "j_RunID n' = j_RunID j" "j_JobIDYAML n' = j_JobIDYAML n"
      using forth by blast
    ultimately show "need \<in> j_JobIDYAML ` {n \<in> set (jobs d'). j_RunID n = j_RunID j}"
      by (auto intro!: image_eqI [of _ _ n'])
  qed
  show "all_needs_terminal (jobs_of_run (j_RunID j) d') j'"
    unfolding all_needs_terminal_def needs set_jobs_of_run using cover backw by fastforce
  show "some_need_blocks (jobs_of_run (j_RunID j) d') j' \<longleftrightarrow> some_need_blocks (jobs_of_run (j_RunID j) d) j"
  proof
    assume "some_need_blocks (jobs_of_run (j_RunID j) d') j'"
    then obtain n' where "n' \<in> set (jobs d')" "j_RunID n' = j_RunID j" "j_JobIDYAML n' \<in> needs_of j" "j_Status n' \<noteq> ''success''"
      by (auto simp: some_need_blocks_def needs)
    with backw [of n'] show "some_need_blocks (jobs_of_run (j_RunID j) d) j" by (auto simp: some_need_blocks_def)
  next
    assume "some_need_blocks (jobs_of_run (j_RunID j) d) j"
    then obtain n where "n \<in> set (jobs d)" "j_RunID n = j_RunID j" "j_JobIDYAML n \<in> needs_of j"
      "isTerminalStatus (j_Status n)" "j_Status n \<noteq> ''success''"
      by (auto simp: some_need_blocks_def)
    with forth [of n] show "some_need_blocks (jobs_of_run (j_RunID j) d') j'" by (auto simp: some_need_blocks_def needs)
  qed
qed

subsection \<open>A job is leased only when its needs allow it\<close>

definition may_lease :: "database \<Rightarrow> Job \<Rightarrow> bool" where
  "may_lease d j \<longleftrightarrow>
     all_needs_terminal (jobs_of_run (j_RunID j) d) j \<and>
     (hasDefaultIfExpr j \<longrightarrow> \<not> some_need_blocks (jobs_of_run (j_RunID j) d) j)"

lemma may_lease_stable:
  assumes "calm d d'" and "j \<in> set (jobs d)" and "same_plan j j'" and "may_lease d j"
  shows "may_lease d' j'"
  using needs_stable [OF assms(1-3)] assms(3,4)
  by (simp add: may_lease_def same_plan_def hasDefaultIfExpr_def)

lemma needs_same_plan:
  assumes "same_plan j j'"
  shows "all_needs_terminal js j' = all_needs_terminal js j" "some_need_blocks js j' = some_need_blocks js j"
    "hasDefaultIfExpr j' = hasDefaultIfExpr j"
  using assms by (simp_all add: all_needs_terminal_def some_need_blocks_def needs_of_def same_plan_def
      hasDefaultIfExpr_def)

text \<open>
  The cache of an \<open>acquireOneQueuedJob\<close> call that listed its candidates in \<open>dc\<close>: every entry is
  a listing made since.
\<close>

definition cache_ok :: "database \<Rightarrow> run_cache \<Rightarrow> database \<Rightarrow> bool" where
  "cache_ok dc cache d \<longleftrightarrow>
     (\<forall>rid by. cache rid = Some by \<longrightarrow>
        (\<exists>d0. by = groupJobsByJobID (jobs_of_run rid d0) \<and> calm dc d0 \<and> calm d0 d))"

lemma cache_ok_later: "cache_ok dc cache d \<Longrightarrow> calm d d' \<Longrightarrow> cache_ok dc cache d'"
  unfolding cache_ok_def by (blast intro: calm.R_trans)

lemma query_result: "run_state (query E f) w = (Inr a, w') \<Longrightarrow> f (db w') = Inr a"
  by (auto simp: query_def statement_def Let_def split: if_splits)

lemma jobsByJobIDForRun_ok:
  assumes "calm.rely E" and "calm dc (db w)" and "cache_ok dc cache (db w)"
    and "run_state (jobsByJobIDForRun E rid cache) w = (Inr (by, cache'), w')"
  shows "calm (db w) (db w') \<and> cache_ok dc cache' (db w') \<and> cache' rid = Some by"
proof (cases "cache rid")
  case (Some x)
  with assms show ?thesis by (simp add: jobsByJobIDForRun_def calm.R_refl)
next
  case None
  with assms(4) obtain js where js: "run_state (ListJobsForRun E rid) w = (Inr js, w')"
    "by = groupJobsByJobID js" "cache' = cache(rid \<mapsto> groupJobsByJobID js)"
    by (auto simp: jobsByJobIDForRun_def Let_def split: prod.splits sum.splits)
  have step: "calm (db w) (db w')" by (rule calm.guarD [OF calm.guar_reads(3) [OF assms(1)] js(1)])
  have "js = jobs_of_run rid (db w')"
    using query_result [OF js(1) [unfolded ListJobsForRun_def]] by simp
  with js step cache_ok_later [OF assms(3) step] assms(2) show ?thesis
    by (auto simp: cache_ok_def intro: calm.R_trans calm.R_refl)
qed

lemma check_candidate_ok:
  assumes E: "calm.rely E" and dc: "calm dc (db w)" "cand \<in> set (jobs dc)" "cache_ok dc cache (db w)"
    and run: "run_state (check_candidate E cand cache) w = (Inr (b, cache'), w')"
  shows "cache_ok dc cache' (db w') \<and> (b \<longrightarrow> (\<exists>c\<in>set (jobs (db w')). same_plan cand c \<and> may_lease (db w') c))"
proof (cases "elems (j_Needs cand) = []")
  case True
  with run have "b" "cache' = cache" "w' = w" by (simp_all add: check_candidate_def)
  moreover from calm_row [OF dc(1,2)] obtain c where "c \<in> set (jobs (db w))" "same_plan cand c" by auto
  moreover from this True have "may_lease (db w) c"
    by (simp add: may_lease_def all_needs_terminal_def some_need_blocks_def needs_of_def same_plan_def)
  ultimately show ?thesis using dc(3) by auto
next
  case False
  obtain r w1 where r: "run_state (jobsByJobIDForRun E (j_RunID cand) cache) w = (r, w1)"
    by (cases "run_state (jobsByJobIDForRun E (j_RunID cand) cache) w")
  with run False obtain grp where grp: "r = Inr (grp, cache')"
    by (auto simp: check_candidate_def split: sum.splits prod.splits if_splits)
  from jobsByJobIDForRun_ok [OF E dc(1,3)] r grp
  have later: "calm (db w) (db w1)" "cache_ok dc cache' (db w1)" "cache' (j_RunID cand) = Some grp" by auto
  then obtain d0 where d0: "grp = groupJobsByJobID (jobs_of_run (j_RunID cand) d0)" "calm dc d0" "calm d0 (db w1)"
    by (auto simp: cache_ok_def)
  have "calm (db w) (db w')" by (rule calm.guarD [OF calm.guar_check_candidate [OF E] run])
  have w1w': "calm (db w1) (db w')"
  proof -
    have "w' = w1 \<or> (\<exists>x. run_state (skipJob E (j_ID cand)) w1 = (x, w'))"
      using run False r grp by (auto simp: check_candidate_def split: sum.splits prod.splits if_splits)
    then show ?thesis using calm.guarD [OF calm.guar_skipJob [OF E]] calm.R_refl by blast
  qed
  have "\<exists>c\<in>set (jobs (db w')). same_plan cand c \<and> may_lease (db w') c" if b
  proof -
    have yes: "all_needs_terminal (jobs_of_run (j_RunID cand) d0) cand"
      "\<not> (some_need_blocks (jobs_of_run (j_RunID cand) d0) cand \<and> hasDefaultIfExpr cand)"
      using run False r grp that d0(1)
      by (auto simp: check_candidate_def needsSatisfied_eq split: sum.splits prod.splits if_splits)
    obtain c0 where c0: "c0 \<in> set (jobs d0)" "same_plan cand c0" using calm_row [OF d0(2) dc(2)] by auto
    with yes have m0: "may_lease d0 c0" by (auto simp: may_lease_def needs_same_plan) (auto simp: same_plan_def)
    have "calm d0 (db w')" using d0(3) w1w' by (rule calm.R_trans)
    moreover from calm_row [OF this c0(1)] obtain c where c: "c \<in> set (jobs (db w'))" "same_plan c0 c" by blast
    ultimately have "may_lease (db w') c" using may_lease_stable c0(1) m0 by blast
    with c plan.Q_trans [OF c0(2) c(2)] show ?thesis by blast
  qed
  with cache_ok_later [OF later(2) w1w'] show ?thesis by blast
qed

lemma lease_candidate_ok:
  assumes E: "calm.rely E" and ok: "db_ok (db w)"
    and c: "c \<in> set (jobs (db w))" "same_plan cand c" "may_lease (db w) c"
    and run: "run_state (lease_candidate E runnerID ttl cand) w = (Inr (Some (leased, leaseID)), w')"
  shows "leased \<in> set (jobs (db w')) \<and> may_lease (db w') leased"
proof -
  have later: "calm (db w) (db w')" by (rule calm.guarD [OF calm.guar_lease_candidate [OF E] run])
  from run have "first_row (\<lambda>j. j_ID j = j_ID cand) (jobs (db w')) = Inr leased"
    by (auto simp: lease_candidate_def GetJob_def split: prod.splits sum.splits if_splits dest: query_result)
  then have leased: "leased \<in> set (jobs (db w'))" "j_ID leased = j_ID cand"
    by (auto simp: first_row_def split: option.splits dest: find_Some_set)
  obtain c' where c': "c' \<in> set (jobs (db w'))" "same_plan c c'" using calm_row [OF later c(1)] by blast
  have "distinct (map j_ID (jobs (db w')))"
    using later ok by (simp add: calm_def keeps_ok_def db_ok_def)
  then have "leased = c'"
    using row_by_id leased c' c(2) by (metis same_plan_def)
  with leased may_lease_stable [OF later c(1) c'(2) c(3)] show ?thesis by simp
qed

lemma calm_ok: "calm d d' \<Longrightarrow> db_ok d \<Longrightarrow> db_ok d'"
  by (simp add: calm_def keeps_ok_def)

lemma acquire_loop_ok:
  assumes E: "calm.rely E" and "db_ok (db w)" and "calm dc (db w)" and "set cands \<subseteq> set (jobs dc)"
    and "cache_ok dc cache (db w)"
    and "run_state (acquire_loop E runnerID ttl cands cache) w = (Inr (Some (leased, leaseID)), w')"
  shows "leased \<in> set (jobs (db w')) \<and> may_lease (db w') leased"
  using assms(2-)
proof (induction cands arbitrary: w cache)
  case (Cons cand cands)
  obtain r w1 where r: "run_state (check_candidate E cand cache) w = (r, w1)"
    by (cases "run_state (check_candidate E cand cache) w")
  with Cons.prems obtain b cache' where b: "r = Inr (b, cache')" by (auto split: sum.splits)
  from r b have chk: "run_state (check_candidate E cand cache) w = (Inr (b, cache'), w1)" by simp
  have c1: "calm (db w) (db w1)" by (rule calm.guarD [OF calm.guar_check_candidate [OF E] r])
  have at1: "db_ok (db w1)" "calm dc (db w1)"
    using calm_ok [OF c1] calm.R_trans [OF _ c1] Cons.prems by auto
  have ok1: "cache_ok dc cache' (db w1)"
    "b \<Longrightarrow> \<exists>c\<in>set (jobs (db w1)). same_plan cand c \<and> may_lease (db w1) c"
    using check_candidate_ok [OF E Cons.prems(2) _ Cons.prems(4) chk] Cons.prems(3) by auto
  show ?case
  proof (cases b)
    case False
    with Cons.prems(5) chk have "run_state (acquire_loop E runnerID ttl cands cache') w1 = (Inr (Some (leased, leaseID)), w')"
      by simp
    with Cons.IH at1 Cons.prems(3) ok1(1) show ?thesis by simp
  next
    case True
    obtain l w2 where l: "run_state (lease_candidate E runnerID ttl cand) w1 = (l, w2)"
      by (cases "run_state (lease_candidate E runnerID ttl cand) w1")
    have c2: "calm (db w1) (db w2)" by (rule calm.guarD [OF calm.guar_lease_candidate [OF E] l])
    from True Cons.prems(5) chk l consider
        "l = Inr (Some (leased, leaseID))" "w2 = w'"
      | "l = Inr None" "run_state (acquire_loop E runnerID ttl cands cache') w2 = (Inr (Some (leased, leaseID)), w')"
      by (auto split: sum.splits option.splits)
    then show ?thesis
    proof cases
      case 1
      with lease_candidate_ok [OF E at1(1)] ok1(2) True l show ?thesis by blast
    next
      case 2
      show ?thesis
        by (rule Cons.IH [OF calm_ok [OF c2 at1(1)] calm.R_trans [OF at1(2) c2] _ cache_ok_later [OF ok1(1) c2] 2(2)])
          (use Cons.prems(3) in simp)
    qed
  qed
qed simp

lemma acquireOne_ok:
  assumes E: "calm.rely E" and ok: "db_ok (db w)"
    and run: "run_state (acquireOneQueuedJob E runnerID ttl) w = (Inr (Some (leased, leaseID)), w')"
  shows "leased \<in> set (jobs (db w')) \<and> may_lease (db w') leased"
proof -
  obtain r w1 where r: "run_state (ListQueuedJobs E candidateBatchSize) w = (r, w1)"
    by (cases "run_state (ListQueuedJobs E candidateBatchSize) w")
  with run obtain cands where cands: "r = Inr cands"
    and loop: "run_state (acquire_loop E runnerID ttl cands Map.empty) w1 = (Inr (Some (leased, leaseID)), w')"
    by (auto simp: acquireOneQueuedJob_def split: sum.splits)
  have "calm (db w) (db w1)" by (rule calm.guarD [OF calm.guar_reads(4) [OF E] r])
  moreover have "cands = queued_jobs candidateBatchSize (db w1)"
    using query_result [OF r [unfolded cands ListQueuedJobs_def]] by simp
  then have "set cands \<subseteq> set (jobs (db w1))" by (auto dest: queued_jobs_subset)
  ultimately show ?thesis
    using acquire_loop_ok [OF E _ calm.R_refl _ _ loop] ok calm_ok by (auto simp: cache_ok_def)
qed

text \<open>
  C5: a job is never leased with unsatisfied needs. When \<open>acquireOneQueuedJob\<close> hands out a
  job, then on the database it leaves behind every need of that job has rows in the run and
  all of them are terminal, and unless the job has an \<open>if:\<close> override none of them ended
  other than in success. This holds whatever the other sessions do between the statements of
  the call, as long as they keep to the state machine and add no job to a run that already
  has some.
\<close>

theorem acquire_respects_needs:
  assumes "\<forall>n d. calm d (other E n d)" and "db_ok (db w)"
    and "run_state (acquireOneQueuedJob E runnerID ttl) w = (Inr (Some (leased, leaseID)), w')"
  shows "leased \<in> set (jobs (db w')) \<and>
    needs_of leased \<subseteq> j_JobIDYAML ` set (jobs_of_run (j_RunID leased) (db w')) \<and>
    (\<forall>n\<in>set (jobs_of_run (j_RunID leased) (db w')). j_JobIDYAML n \<in> needs_of leased \<longrightarrow>
       isTerminalStatus (j_Status n) \<and> (hasDefaultIfExpr leased \<longrightarrow> j_Status n = ''success''))"
  using acquireOne_ok [OF _ assms(2,3)] assms(1)
  by (auto simp: calm.rely_def may_lease_def all_needs_terminal_def some_need_blocks_def)

definition done_build :: "Job list" where
  "done_build = [(sample_job 11 ''build'' [])\<lparr>j_Status := ''success'', j_Result := Some ''success'', j_FinishedAt := Some 5\<rparr>,
     sample_job 12 ''test'' [''build'']]"

definition leases_needing :: "string list \<Rightarrow> store_error + (Job \<times> uuid) option \<Rightarrow> bool" where
  "leases_needing needs r \<longleftrightarrow> (case r of Inr (Some (leased, leaseID)) \<Rightarrow> j_Needs leased = Some needs | _ \<Rightarrow> False)"

lemma acquire_done_build:
  "leases_needing [''build'']
     (fst (run_state (acquireOneQueuedJob sample_env 7 1000) (world_with (db_with done_build))))"
  by code_simp

theorem acquire_respects_needs_witness:
  "\<exists>leased leaseID w'. run_state (acquireOneQueuedJob sample_env 7 1000) (world_with (db_with done_build)) =
     (Inr (Some (leased, leaseID)), w') \<and> ''build'' \<in> needs_of leased \<and>
     (\<exists>n\<in>set (jobs_of_run (j_RunID leased) (db w')). j_JobIDYAML n = ''build'' \<and> isTerminalStatus (j_Status n))"
proof -
  obtain leased leaseID w' where run: "run_state (acquireOneQueuedJob sample_env 7 1000) (world_with (db_with done_build)) =
     (Inr (Some (leased, leaseID)), w')" and needs: "needs_of leased = {''build''}"
    using acquire_done_build
    by (cases "run_state (acquireOneQueuedJob sample_env 7 1000) (world_with (db_with done_build))")
      (auto simp: leases_needing_def needs_of_def split: sum.splits option.splits)
  have "\<forall>n d. calm d (other sample_env n d)" by (simp add: sample_env_def calm.R_refl)
  moreover have "db_ok (db (world_with (db_with done_build)))"
    by (simp add: db_ok_def chunks_ok_def sample_defs done_build_def lease_shape_def terminal_statuses_def)
  ultimately show ?thesis
    using acquire_respects_needs [OF _ _ run] run needs by (auto simp: image_iff)
qed

subsection \<open>The row that stands for a matrixed need\<close>

definition newer :: "(uuid \<Rightarrow> string) \<Rightarrow> Job \<Rightarrow> Job \<Rightarrow> bool" where
  "newer str n c \<longleftrightarrow>
     the (j_FinishedAt c) < the (j_FinishedAt n) \<or>
     the (j_FinishedAt n) = the (j_FinishedAt c) \<and> str (j_ID c) < str (j_ID n)"

lemma newer_trans: "newer str a b \<Longrightarrow> newer str b c \<Longrightarrow> newer str a c"
  by (auto simp: newer_def)

lemma not_newer_trans: "\<not> newer str b a \<Longrightarrow> \<not> newer str c b \<Longrightarrow> \<not> newer str c a"
  by (auto simp: newer_def)

definition finished_rows :: "Job list \<Rightarrow> Job list" where
  "finished_rows rows = filter (\<lambda>n. j_Result n \<noteq> None) rows"

lemma canonical_step_skip: "j_Result n = None \<Longrightarrow> canonical_step str n acc = acc"
  by (simp add: canonical_step_def)

lemma canonical_step_first: "j_Result n \<noteq> None \<Longrightarrow> canonical_step str n None = Some n"
  by (simp add: canonical_step_def)

lemma canonical_step_eq:
  "j_Result n \<noteq> None \<Longrightarrow> j_FinishedAt n \<noteq> None \<Longrightarrow> j_FinishedAt c \<noteq> None \<Longrightarrow>
    canonical_step str n (Some c) = Some (if newer str n c then n else c)"
  by (auto simp: canonical_step_def newer_def)

lemma fold_finished: "fold (canonical_step str) rows acc = fold (canonical_step str) (finished_rows rows) acc"
  by (induction rows arbitrary: acc) (auto simp: finished_rows_def canonical_step_skip)

lemma canonical_fold:
  assumes "\<forall>n\<in>set rows. j_Result n \<noteq> None \<and> j_FinishedAt n \<noteq> None" and "j_FinishedAt c \<noteq> None"
  shows "\<exists>c'\<in>insert c (set rows). fold (canonical_step str) rows (Some c) = Some c' \<and>
    (\<forall>n\<in>insert c (set rows). \<not> newer str n c')"
  using assms
proof (induction rows arbitrary: c)
  case (Cons n rows)
  define c1 where "c1 = (if newer str n c then n else c)"
  have "j_FinishedAt c1 \<noteq> None" using Cons.prems by (simp add: c1_def)
  with Cons obtain c' where c': "c' \<in> insert c1 (set rows)" "fold (canonical_step str) rows (Some c1) = Some c'"
    "\<forall>m\<in>insert c1 (set rows). \<not> newer str m c'"
    by (metis list.set_intros(2))
  have "fold (canonical_step str) (n # rows) (Some c) = Some c'"
    using c'(2) canonical_step_eq [of n c str] Cons.prems by (simp add: c1_def)
  moreover have "\<not> newer str c c' \<and> \<not> newer str n c'"
    using c'(3) newer_trans [of str n c c'] not_newer_trans [of str c c' n] by (auto simp: c1_def split: if_splits)
  ultimately show ?case using c'(1,3) by (auto simp: c1_def split: if_splits)
qed (simp add: newer_def)

lemma canonical_newest:
  assumes "\<forall>n\<in>set (finished_rows rows). j_FinishedAt n \<noteq> None" and "finished_rows rows \<noteq> []"
  shows "\<exists>c\<in>set (finished_rows rows). canonicalNeedRow str rows = Some c \<and>
    (\<forall>n\<in>set (finished_rows rows). \<not> newer str n c)"
proof -
  obtain x xs where xs: "finished_rows rows = x # xs" using assms(2) by (cases "finished_rows rows") auto
  have "\<forall>n\<in>set (x # xs). j_Result n \<noteq> None" unfolding xs [symmetric] by (simp add: finished_rows_def)
  with canonical_fold [of xs x str] assms(1) xs show ?thesis
    by (auto simp: canonicalNeedRow_def fold_finished [of str rows] canonical_step_first)
qed

text \<open>
  The outputs a dependent sees of a matrixed need are those of the cell that finished
  last. For rows whose results carry a finish time, as \<open>SetResult\<close> writes them, and ids
  that print differently, \<open>canonicalNeedRow\<close> picks a row with the latest finish time among
  the rows with a result, and picks the same row for every order the rows are listed in.
\<close>

theorem canonicalNeedRow_last_finished:
  assumes "\<forall>n\<in>set rows. j_Result n \<noteq> None \<longrightarrow> j_FinishedAt n \<noteq> None"
    and "\<exists>n\<in>set rows. j_Result n \<noteq> None"
    and "inj_on (str \<circ> j_ID) (set rows)" and "set rows' = set rows"
  shows "\<exists>c\<in>set rows. canonicalNeedRow str rows = Some c \<and> canonicalNeedRow str rows' = Some c \<and>
    j_Result c \<noteq> None \<and>
    (\<forall>n\<in>set rows. j_Result n \<noteq> None \<longrightarrow> the (j_FinishedAt n) \<le> the (j_FinishedAt c))"
proof -
  let ?F = "set (finished_rows rows)"
  have same: "set (finished_rows rows') = ?F" using assms(4) by (simp add: finished_rows_def)
  have pre: "\<forall>n\<in>?F. j_FinishedAt n \<noteq> None" "finished_rows rows \<noteq> []"
    using assms(1,2) by (auto simp: finished_rows_def filter_empty_conv)
  then have pre': "finished_rows rows' \<noteq> []" using same by (metis set_empty)
  from canonical_newest [OF pre, of str] obtain c where c: "c \<in> ?F" "canonicalNeedRow str rows = Some c"
    "\<forall>n\<in>?F. \<not> newer str n c" by blast
  from canonical_newest [of rows' str] pre(1) pre' same obtain c' where c': "c' \<in> ?F" "canonicalNeedRow str rows' = Some c'"
    "\<forall>n\<in>?F. \<not> newer str n c'" by metis
  have "str (j_ID c) = str (j_ID c')" using c c' by (force simp: newer_def)
  then have "c = c'" using assms(3) c(1) c'(1) by (auto simp: inj_on_def finished_rows_def)
  with c c' show ?thesis by (force simp: finished_rows_def newer_def)
qed

theorem canonicalNeedRow_last_finished_witness:
  "\<exists>c. canonicalNeedRow (\<lambda>u. Itoa (uint u))
     [(sample_job 11 ''build'' [])\<lparr>j_Result := Some ''success'', j_FinishedAt := Some 5\<rparr>,
      (sample_job 12 ''build'' [])\<lparr>j_Result := Some ''success'', j_FinishedAt := Some 9\<rparr>] = Some c \<and>
     9 \<le> the (j_FinishedAt c)"
proof -
  let ?a = "(sample_job 11 ''build'' [])\<lparr>j_Result := Some ''success'', j_FinishedAt := Some 5\<rparr>"
  let ?b = "(sample_job 12 ''build'' [])\<lparr>j_Result := Some ''success'', j_FinishedAt := Some 9\<rparr>"
  have "inj_on ((\<lambda>u. Itoa (uint u)) \<circ> j_ID) (set [?a, ?b])"
    by (simp add: sample_defs Itoa_def nat_digits.simps)
  moreover have "set [?b, ?a] = set [?a, ?b]" by auto
  ultimately show ?thesis
    using canonicalNeedRow_last_finished [of "[?a, ?b]" "\<lambda>u. Itoa (uint u)" "[?b, ?a]"] by auto
qed

subsection \<open>The stream\<close>

lemma acquire_slots_bounds:
  "run_state (acquire_slots s runnerID ok n evs sent) w = ((r, sent'), w') \<Longrightarrow>
     length sent' \<le> length sent + n \<and> (CtxDone \<in> set evs \<longrightarrow> r \<noteq> None) \<and>
     (r = Some (Inr ()) \<longrightarrow> length sent' = length sent + n \<or> CtxDone \<in> set evs)"
proof (induction s runnerID ok n evs sent arbitrary: w rule: acquire_slots.induct)
  case (2 s runnerID ok n evs sent)
  obtain a w1 where a: "run_state (acquireOneQueuedJob (svc_env s) runnerID (leaseTTL s)) w = (a, w1)"
    by (cases "run_state (acquireOneQueuedJob (svc_env s) runnerID (leaseTTL s)) w")
  consider (err) e where "a = Inl e" | (none) "a = Inr None" | (some) job leaseID where "a = Inr (Some (job, leaseID))"
    by (metis old.prod.exhaust option.exhaust sum.exhaust)
  then show ?case
  proof cases
    case err
    with "2.prems" a show ?thesis by auto
  next
    case none
    with 2 a show ?thesis by (auto split: list.splits if_splits simp: queue_wait_def)
  next
    case some
    obtain b w2 where b: "run_state (buildJobLease s job leaseID (leaseTTL s)) w1 = (b, w2)"
      by (cases "run_state (buildJobLease s job leaseID (leaseTTL s)) w1")
    show ?thesis
    proof (cases b)
      case (Inl e)
      with "2.prems" a some b show ?thesis by auto
    next
      case (Inr lease)
      with 2 a some b show ?thesis by (fastforce split: if_splits)
    qed
  qed
qed auto

text \<open>
  An \<open>AcquireJob\<close> stream sends at most \<open>free_slots\<close> leases; it returns once the
  runner disconnects; and it returns without error only after it sent all of them or the
  runner disconnected.
\<close>

theorem AcquireJob_slots:
  assumes "run_state (AcquireJob s md req ok evs) w = ((r, sent), w')"
  shows "length sent \<le> nat (aq_FreeSlots req) \<and> (CtxDone \<in> set evs \<longrightarrow> r \<noteq> None) \<and>
    (r = Some (Inr ()) \<longrightarrow> length sent = nat (aq_FreeSlots req) \<or> CtxDone \<in> set evs)"
proof -
  have "r \<noteq> None \<and> r \<noteq> Some (Inr ()) \<and> sent = [] \<or>
      (\<exists>runnerID w1. run_state (acquire_slots s runnerID ok (nat (aq_FreeSlots req)) evs []) w1 = ((r, sent), w'))"
    using assms unfolding AcquireJob_def
    by (auto split: sum.splits option.splits prod.splits if_splits)
  then show ?thesis using acquire_slots_bounds [of s _ ok "nat (aq_FreeSlots req)" evs "[]"] by fastforce
qed

lemma acquireOne_idle:
  assumes "solo E" and "\<forall>j\<in>set (jobs (db w)). j_Status j \<noteq> ''queued''"
  shows "run_state (acquireOneQueuedJob E runnerID ttl) w = (Inr None, w\<lparr>tick := Suc (tick w)\<rparr>)"
proof -
  have "filter (\<lambda>j. j_Status j = ''queued'') (jobs (db w)) = []"
    using assms(2) by (simp add: filter_empty_conv)
  then show ?thesis
    by (simp add: acquireOneQueuedJob_def ListQueuedJobs_def queued_jobs_def run_query_solo [OF assms(1)])
qed

text \<open>
  An idle runner's stream registers one more waiter with every poll. With nothing queued,
  after \<open>n\<close> ticks of the backstop timer the stream is still blocked and the notifier holds
  \<open>n + 1\<close> channels more than before: only \<open>Notify\<close> ever removes one.
\<close>

theorem AcquireJob_idle_waiters:
  assumes "solo (svc_env s)" and "\<forall>j\<in>set (jobs (db w)). j_Status j \<noteq> ''queued''"
  shows "\<exists>w'. run_state (acquire_slots s runnerID ok (Suc k) (replicate n PollTick) sent) w = ((None, sent), w') \<and>
    db w' = db w \<and> length (waiters w') = length (waiters w) + Suc n"
  using assms(2)
proof (induction n arbitrary: w)
  case 0
  then show ?case by (simp add: acquireOne_idle [OF assms(1)] queue_wait_def)
next
  case (Suc n)
  let ?w = "w\<lparr>tick := Suc (Suc (tick w)), waiters := waiters w @ [Suc (tick w)]\<rparr>"
  have "run_state (acquire_slots s runnerID ok (Suc k) (replicate (Suc n) PollTick) sent) w =
      run_state (acquire_slots s runnerID ok (Suc k) (replicate n PollTick) sent) ?w"
    using Suc.prems by (simp add: acquireOne_idle [OF assms(1)] queue_wait_def)
  with Suc.IH [of ?w] Suc.prems show ?case by auto
qed

theorem AcquireJob_idle_waiters_witness:
  "\<exists>w'. run_state (acquire_slots sample_service 7 (\<lambda>_. True) 1 (replicate 5 PollTick) []) (world_with (db_with [])) =
     ((None, []), w') \<and> length (waiters w') = 6"
  using AcquireJob_idle_waiters [of sample_service "world_with (db_with [])" 7 "\<lambda>_. True" 0 5 "[]"]
  by (auto simp: world_with_def db_with_def)

theorem AcquireJob_slots_witness:
  "length (snd (fst (run_state (AcquireJob sample_service (Some [''Bearer tok'']) \<lparr>aq_RunnerId = ''7'', aq_FreeSlots = 1\<rparr>
      (\<lambda>_. True) [CtxDone]) (world_with (db_with sample_jobs))))) \<le> 1"
  using AcquireJob_slots [of sample_service "Some [''Bearer tok'']" "\<lparr>aq_RunnerId = ''7'', aq_FreeSlots = 1\<rparr>"
      "\<lambda>_. True" "[CtxDone]" "world_with (db_with sample_jobs)"]
  by (metis One_nat_def AcquireJobRequest.select_convs(2) nat_one_as_int prod.collapse)

subsection \<open>Lease durations and the reaper\<close>

text \<open>
  A lease lasts \<open>interval * miss-limit\<close> seconds: no overflow of the 64-bit nanosecond
  count occurs up to a product of 9223372036 seconds (292 years).
\<close>

theorem leaseTTL_exact:
  assumes "0 < HeartbeatIntervalSeconds (cfg s)" and "0 < HeartbeatMissLimit (cfg s)"
    and "HeartbeatIntervalSeconds (cfg s) * HeartbeatMissLimit (cfg s) \<le> 9223372036"
  shows "0 < leaseTTL s \<and>
    add_time now (leaseTTL s) = now + HeartbeatIntervalSeconds (cfg s) * HeartbeatMissLimit (cfg s) * 1000000"
proof -
  let ?i = "HeartbeatIntervalSeconds (cfg s)" and ?m = "HeartbeatMissLimit (cfg s)"
  have "?i * 1 \<le> ?i * ?m" using assms by (intro mult_left_mono) auto
  then have "?i \<le> 9223372036" using assms(3) by linarith
  then have "wrap64 (?i * Second) = ?i * Second"
    using assms(1) by (intro wrap64_id) (auto simp: in_int64_def int64_min_def int64_max_def Second_def)
  moreover have pos: "0 < ?i * ?m" using assms(1,2) by simp
  then have "wrap64 (?i * ?m * Second) = ?i * ?m * Second"
    using assms(3) by (intro wrap64_id) (auto simp: in_int64_def int64_min_def int64_max_def Second_def)
  ultimately have "leaseTTL s = ?i * ?m * Second" by (simp add: leaseTTL_def mult.commute mult.left_commute)
  with pos show ?thesis by (simp add: add_time_def Second_def)
qed

theorem leaseTTL_exact_witness: "0 < leaseTTL sample_service \<and> add_time 0 (leaseTTL sample_service) = 30000000"
  using leaseTTL_exact [of sample_service 0] by simp

text \<open>
  The configuration does not rule the overflow out. There is a configuration that \<open>Load\<close>
  accepts under which the lease duration is negative: every lease is expired when granted.
\<close>

lemma leaseTTL_can_overflow:
  "\<exists>s. (\<exists>env_var. Load env_var = Inr (cfg s)) \<and> leaseTTL s < 0"
proof -
  let ?c = "(cfg sample_service)\<lparr>HeartbeatIntervalSeconds := 9223372037, HeartbeatMissLimit := 1\<rparr>"
  have "config_ok ?c"
    by (simp add: sample_service_def NewService_def config_ok_def in_int64_def int64_min_def int64_max_def
        defaultHTTPAddr_def defaultGRPCAddr_def defaultDBDSN_def)
  moreover have "leaseTTL (sample_service\<lparr>cfg := ?c\<rparr>) < 0" by code_simp
  ultimately show ?thesis
    using Load_env_of by (intro exI [of _ "sample_service\<lparr>cfg := ?c\<rparr>"]) auto
qed

text \<open>
  One tick of the lease reaper, alone on the database. Exactly the leased jobs whose
  deadline has passed are queued again, with runner, lease and deadline cleared; every waiting
  stream is woken when there was one, and nobody otherwise.
\<close>

theorem reap_leases_spec:
  assumes "solo (svc_env s)"
  shows "\<exists>n. snd (run_state (reap_leases s) w) =
    (let now = clock (svc_env s) (tick w); expired = filter (lease_expired now) (jobs (db w)) in
     w\<lparr>db := (db w)\<lparr>jobs := map (\<lambda>j. if lease_expired now j then requeue_row j else j) (jobs (db w))\<rparr>,
       waiters := (if expired = [] then waiters w else []),
       woken := (if expired = [] then woken w else woken w @ waiters w), tick := n\<rparr>)"
  by (intro exI [of _ "Suc (Suc (tick w))"])
    (auto simp: reap_leases_def RequeueExpired_def run_statement_solo assms sql_RequeueExpired_def Let_def
      Notify_def update_where_def rows_affected_def intro!: world.equality)

theorem reap_leases_spec_witness:
  "map j_Status (jobs (db (snd (run_state (reap_leases sample_service)
     (world_with (db_with [lease_row 50 7 (- 5) (- 9) (sample_job 11 ''build'' [])])))))) = [''queued'']"
proof -
  let ?w = "world_with (db_with [lease_row 50 7 (- 5) (- 9) (sample_job 11 ''build'' [])])"
  have "tick ?w = 0" "jobs (db ?w) = [lease_row 50 7 (- 5) (- 9) (sample_job 11 ''build'' [])]" "clock sample_env 0 = 0"
    by (simp_all add: world_with_def db_with_def sample_env_def)
  moreover have "lease_expired 0 (lease_row 50 7 (- 5) (- 9) (sample_job 11 ''build'' []))"
    by (simp add: lease_expired_def lease_row_def sample_job_def)
  ultimately show ?thesis
    using reap_leases_spec [of sample_service ?w] by (auto simp: requeue_row_def Let_def)
qed

end
