(* ===== verification/Dispatch_Service.thy ===== *)
theory Dispatch_Service
  imports Queue_Spec
begin

text \<open>
  The handlers of \<open>internal/dispatch/service.go\<close>: registration, heartbeats, log streams,
  status reports, job completion and the reaper of silent runners.

  A client stream is the list of the messages it delivers and what ends it: the client's
  half-close (\<open>io.EOF\<close>), a cancellation, or another error. \<open>send_ok n\<close> tells whether the
  \<open>n\<close>-th \<open>Send\<close> on the stream succeeds.
\<close>

datatype stream_end = EndEOF | EndCanceled | EndError

definition wrap32 :: "int \<Rightarrow> int" where
  "wrap32 n = sint (word_of_int n :: 32 word)"

text \<open>\<open>time.Unix(sec, 0)\<close>.\<close>

definition from_unix :: "int \<Rightarrow> time" where
  "from_unix sec = sec * 1000000"

subsection \<open>Registration\<close>

record RegisterRunnerRequest =
  rr_Name :: string
  rr_Labels :: "string slice"
  rr_Mode :: RunnerMode
  rr_Capacity :: int
  rr_Version :: string

record RegisterRunnerResponse =
  rs_RunnerId :: string
  rs_AuthToken :: string
  rs_HeartbeatIntervalSeconds :: int

definition RegisterRunner ::
    "Service \<Rightarrow> RegisterRunnerRequest \<Rightarrow> (world, go_error + RegisterRunnerResponse) state" where
  "RegisterRunner s req =
     (if rr_Name req = '''' then ret (Inl (Status InvalidArgument))
      else if rr_Capacity req < 0 then ret (Inl (Status InvalidArgument))
      else case runnerModeToString (rr_Mode req) of
        Inl e \<Rightarrow> ret (Inl e)
      | Inr mode \<Rightarrow> do {
          t \<leftarrow> generateAuthToken s;
          case t of
            None \<Rightarrow> ret (Inl (Status Internal))
          | Some tok \<Rightarrow> do {
              now \<leftarrow> time_now (svc_env s);
              rid \<leftarrow> uuid_new (svc_env s);
              r \<leftarrow> CreateRunner (svc_env s)
                \<lparr>rn_ID = rid, rn_Name = rr_Name req, rn_Labels = rr_Labels req, rn_Mode = mode,
                 rn_Capacity = rr_Capacity req, rn_Version = rr_Version req, rn_Status = ''online'',
                 rn_LastHeartbeat = Some now, rn_CreatedAt = 0, rn_AuthToken = tok\<rparr>;
              case r of
                Inl e \<Rightarrow> ret (Inl (Status Internal))
              | Inr _ \<Rightarrow> ret (Inr
                  \<lparr>rs_RunnerId = uuid_string s rid, rs_AuthToken = tok,
                   rs_HeartbeatIntervalSeconds = wrap32 (HeartbeatIntervalSeconds (cfg s))\<rparr>)
            }
        })"

subsection \<open>Leases and their runners\<close>

definition resolveLeaseJob :: "Service \<Rightarrow> uuid \<Rightarrow> (world, go_error + Job option) state" where
  "resolveLeaseJob s leaseID = do {
     r \<leftarrow> GetByLease (svc_env s) leaseID;
     case r of
       Inl e \<Rightarrow> if e = ErrNoRows then ret (Inr None) else ret (Inl (Status Internal))
     | Inr job \<Rightarrow> ret (Inr (Some job))
   }"

definition authorizeJobRunner :: "Service \<Rightarrow> string \<Rightarrow> Job \<Rightarrow> (world, go_error + unit) state" where
  "authorizeJobRunner s tok job =
     (case j_RunnerID job of
        None \<Rightarrow> ret (Inl (Status FailedPrecondition))
      | Some rid \<Rightarrow> do {
          r \<leftarrow> GetByID (svc_env s) rid;
          case r of
            Inl e \<Rightarrow> ret (Inl (Status Internal))
          | Inr runner \<Rightarrow>
              if \<not> validToken tok (rn_AuthToken runner) then ret (Inl (Status Unauthenticated))
              else ret (Inr ())
        })"

fun renew_loop :: "Service \<Rightarrow> uuid \<Rightarrow> time \<Rightarrow> string list \<Rightarrow> (world, unit) state" where
  "renew_loop s runnerID deadline [] = ret ()"
| "renew_loop s runnerID deadline (raw # raws) =
     (case uuid_parse s raw of
        None \<Rightarrow> renew_loop s runnerID deadline raws
      | Some leaseID \<Rightarrow> do {
          r \<leftarrow> GetByLease (svc_env s) leaseID;
          case r of
            Inl e \<Rightarrow> renew_loop s runnerID deadline raws
          | Inr job \<Rightarrow>
              if j_RunnerID job \<noteq> Some runnerID then renew_loop s runnerID deadline raws
              else do {
                RenewLease (svc_env s) leaseID deadline;
                renew_loop s runnerID deadline raws
              }
        })"

definition renewActiveLeases :: "Service \<Rightarrow> uuid \<Rightarrow> string list \<Rightarrow> time \<Rightarrow> (world, unit) state" where
  "renewActiveLeases s runnerID leaseIDs now =
     (if length leaseIDs = 0 then ret ()
      else renew_loop s runnerID (add_time now (leaseTTL s)) leaseIDs)"

subsection \<open>Heartbeats\<close>

record HeartbeatPing =
  hp_RunnerId :: string
  hp_ActiveLeaseIds :: "string list"

record HeartbeatAck =
  ha_NextIntervalSeconds :: int
  ha_CancelLeaseIds :: "string slice"

text \<open>One turn of the receive loop, up to the acknowledgement it is about to send.\<close>

definition heartbeat_ping :: "Service \<Rightarrow> string \<Rightarrow> HeartbeatPing \<Rightarrow> (world, go_error + HeartbeatAck) state" where
  "heartbeat_ping s tok ping =
     (case uuid_parse s (hp_RunnerId ping) of
        None \<Rightarrow> ret (Inl (Status InvalidArgument))
      | Some runnerID \<Rightarrow> do {
          g \<leftarrow> GetByID (svc_env s) runnerID;
          case g of
            Inl e \<Rightarrow> ret (Inl (Status NotFound))
          | Inr runner \<Rightarrow>
              if \<not> validToken tok (rn_AuthToken runner) then ret (Inl (Status Unauthenticated))
              else do {
                now \<leftarrow> time_now (svc_env s);
                u \<leftarrow> UpdateHeartbeat (svc_env s) runnerID now;
                case u of
                  Inl e \<Rightarrow> ret (Inl (Status Internal))
                | Inr _ \<Rightarrow> do {
                    o' \<leftarrow> (if rn_Status runner \<noteq> ''online'' then SetStatus (svc_env s) runnerID ''online''
                           else ret (Inr ()));
                    case o' of
                      Inl e \<Rightarrow> ret (Inl (Status Internal))
                    | Inr _ \<Rightarrow> do {
                        renewActiveLeases s runnerID (hp_ActiveLeaseIds ping) now;
                        ret (Inr \<lparr>ha_NextIntervalSeconds = wrap32 (HeartbeatIntervalSeconds (cfg s)),
                                  ha_CancelLeaseIds = None\<rparr>)
                      }
                  }
              }
        })"

fun heartbeat_loop ::
    "Service \<Rightarrow> string \<Rightarrow> (nat \<Rightarrow> bool) \<Rightarrow> HeartbeatPing list \<Rightarrow> stream_end \<Rightarrow> HeartbeatAck list \<Rightarrow>
      (world, (go_error + unit) \<times> HeartbeatAck list) state" where
  "heartbeat_loop s tok send_ok [] ending acks =
     ret (if ending = EndError then Inl StreamError else Inr (), acks)"
| "heartbeat_loop s tok send_ok (ping # pings) ending acks = do {
     r \<leftarrow> heartbeat_ping s tok ping;
     case r of
       Inl e \<Rightarrow> ret (Inl e, acks)
     | Inr ack \<Rightarrow>
         if send_ok (length acks) then heartbeat_loop s tok send_ok pings ending (acks @ [ack])
         else ret (Inl StreamError, acks)
   }"

definition Heartbeat ::
    "Service \<Rightarrow> metadata \<Rightarrow> (nat \<Rightarrow> bool) \<Rightarrow> HeartbeatPing list \<Rightarrow> stream_end \<Rightarrow>
      (world, (go_error + unit) \<times> HeartbeatAck list) state" where
  "Heartbeat s md send_ok pings ending =
     (case bearerToken md of
        Inl e \<Rightarrow> ret (Inl e, [])
      | Inr tok \<Rightarrow> heartbeat_loop s tok send_ok pings ending [])"

subsection \<open>The reaper of silent runners\<close>

definition reap_runners :: "Service \<Rightarrow> int \<Rightarrow> (world, unit) state" where
  "reap_runners s staleAfter = do {
     now \<leftarrow> time_now (svc_env s);
     MarkStaleOffline (svc_env s) (add_time now (wrap64 (- staleAfter)));
     ret ()
   }"

fun reaper_ticks :: "Service \<Rightarrow> int \<Rightarrow> nat \<Rightarrow> (world, unit) state" where
  "reaper_ticks s staleAfter 0 = ret ()"
| "reaper_ticks s staleAfter (Suc n) = do { reap_runners s staleAfter; reaper_ticks s staleAfter n }"

text \<open>
  The ticks until the context is cancelled. \<open>time.NewTicker\<close> panics, \<open>None\<close>, on an
  interval that is not positive.
\<close>

definition RunReaper :: "Service \<Rightarrow> nat \<Rightarrow> (world, unit option) state" where
  "RunReaper s ticks =
     (let interval = wrap64 (HeartbeatIntervalSeconds (cfg s) * Second);
          staleAfter = wrap64 (HeartbeatMissLimit (cfg s) * interval)
      in if interval \<le> 0 then ret None
         else do { reaper_ticks s staleAfter ticks; ret (Some ()) })"

subsection \<open>Log streams\<close>

record LogChunk =
  lk_LeaseId :: string
  lk_StepId :: string
  lk_Seq :: int
  lk_TsUnix :: int
  lk_Data :: "char slice"

text \<open>
  The cached resolution of a lease: the job, or the fact that no job holds it. A chunk of a
  lease no job holds is dropped.
\<close>

definition resolve_cached ::
    "Service \<Rightarrow> string \<Rightarrow> uuid \<Rightarrow> (uuid \<rightharpoonup> Job option) \<Rightarrow>
      (world, go_error + Job option \<times> (uuid \<rightharpoonup> Job option)) state" where
  "resolve_cached s tok leaseID resolved =
     (case resolved leaseID of
        Some job \<Rightarrow> ret (Inr (job, resolved))
      | None \<Rightarrow> do {
          r \<leftarrow> resolveLeaseJob s leaseID;
          case r of
            Inl e \<Rightarrow> ret (Inl e)
          | Inr None \<Rightarrow> ret (Inr (None, resolved(leaseID \<mapsto> None)))
          | Inr (Some job) \<Rightarrow> do {
              a \<leftarrow> authorizeJobRunner s tok job;
              case a of
                Inl e \<Rightarrow> ret (Inl e)
              | Inr _ \<Rightarrow> ret (Inr (Some job, resolved(leaseID \<mapsto> Some job)))
            }
        })"

definition log_chunk ::
    "Service \<Rightarrow> string \<Rightarrow> (uuid \<rightharpoonup> Job option) \<Rightarrow> LogChunk \<Rightarrow>
      (world, go_error + (uuid \<rightharpoonup> Job option)) state" where
  "log_chunk s tok resolved chunk =
     (case uuid_parse s (lk_LeaseId chunk) of
        None \<Rightarrow> ret (Inl (Status InvalidArgument))
      | Some leaseID \<Rightarrow> do {
          r \<leftarrow> resolve_cached s tok leaseID resolved;
          case r of
            Inl e \<Rightarrow> ret (Inl e)
          | Inr (None, resolved') \<Rightarrow> ret (Inr resolved')
          | Inr (Some job, resolved') \<Rightarrow>
              let c = \<lparr>c_JobRowID = j_ID job, c_LeaseID = leaseID, c_StepID = lk_StepId chunk,
                       c_Seq = lk_Seq chunk, c_Ts = from_unix (lk_TsUnix chunk), c_Data = lk_Data chunk\<rparr>
              in do {
                a \<leftarrow> Append (svc_env s) c;
                case a of
                  Inl e \<Rightarrow> ret (Inl (Status Internal))
                | Inr inserted \<Rightarrow>
                    if inserted then do { Publish c; ret (Inr resolved') } else ret (Inr resolved')
              }
        })"

fun log_loop ::
    "Service \<Rightarrow> string \<Rightarrow> (nat \<Rightarrow> bool) \<Rightarrow> LogChunk list \<Rightarrow> stream_end \<Rightarrow> (uuid \<rightharpoonup> Job option) \<Rightarrow>
      (world, go_error + unit) state" where
  "log_loop s tok send_ok [] ending resolved =
     ret (case ending of
            EndEOF \<Rightarrow> if send_ok 0 then Inr () else Inl StreamError
          | EndCanceled \<Rightarrow> Inr ()
          | EndError \<Rightarrow> Inl StreamError)"
| "log_loop s tok send_ok (chunk # chunks) ending resolved = do {
     r \<leftarrow> log_chunk s tok resolved chunk;
     case r of
       Inl e \<Rightarrow> ret (Inl e)
     | Inr resolved' \<Rightarrow> log_loop s tok send_ok chunks ending resolved'
   }"

definition StreamLogs ::
    "Service \<Rightarrow> metadata \<Rightarrow> (nat \<Rightarrow> bool) \<Rightarrow> LogChunk list \<Rightarrow> stream_end \<Rightarrow> (world, go_error + unit) state" where
  "StreamLogs s md send_ok chunks ending =
     (case bearerToken md of
        Inl e \<Rightarrow> ret (Inl e)
      | Inr tok \<Rightarrow> log_loop s tok send_ok chunks ending Map.empty)"

subsection \<open>Status reports\<close>

record StatusUpdate =
  su_LeaseId :: string
  su_StepId :: string
  su_StepName :: string
  su_StepIndex :: int
  su_Phase :: Phase
  su_TsUnix :: int

text \<open>
  \<open>UpsertStep\<close> writes the whole row, so the timestamps of an earlier report are carried
  forward.
\<close>

definition step_times :: "Step list \<Rightarrow> int \<Rightarrow> string \<Rightarrow> time \<Rightarrow> time option \<times> time option" where
  "step_times existing idx stepStatus ts =
     (let (startedAt, finishedAt) =
            (case find (\<lambda>es. st_StepIndex es = idx) existing of
               None \<Rightarrow> (None, None) | Some es \<Rightarrow> (st_StartedAt es, st_FinishedAt es));
          startedAt' = (if stepStatus = ''running'' \<and> startedAt = None then Some ts else startedAt);
          finishedAt' = (if isTerminalStatus stepStatus then Some ts else finishedAt)
      in (startedAt', finishedAt'))"

definition mark_running :: "Service \<Rightarrow> Job \<Rightarrow> (world, go_error + unit) state" where
  "mark_running s job = do {
     r \<leftarrow> TransitionStatus (svc_env s) (j_ID job) ''leased'' ''running'';
     case r of
       Inl e \<Rightarrow> if e \<noteq> ErrIllegalTransition then ret (Inl (Status Internal)) else ret (Inr ())
     | Inr _ \<Rightarrow> ret (Inr ())
   }"

definition report_step :: "Service \<Rightarrow> Job \<Rightarrow> StatusUpdate \<Rightarrow> string \<Rightarrow> time \<Rightarrow> (world, go_error + unit) state" where
  "report_step s job req stepStatus ts = do {
     l \<leftarrow> ListStepsForJob (svc_env s) (j_ID job);
     case l of
       Inl e \<Rightarrow> ret (Inl (Status Internal))
     | Inr existing \<Rightarrow>
         (case step_times existing (su_StepIndex req) stepStatus ts of (startedAt, finishedAt) \<Rightarrow> do {
            sid \<leftarrow> uuid_new (svc_env s);
            u \<leftarrow> UpsertStep (svc_env s)
              \<lparr>st_ID = sid, st_JobRowID = j_ID job, st_StepIndex = su_StepIndex req, st_Name = su_StepName req,
               st_Status = stepStatus, st_StartedAt = startedAt, st_FinishedAt = finishedAt\<rparr>;
            case u of
              Inl e \<Rightarrow> ret (Inl (Status Internal))
            | Inr _ \<Rightarrow> if stepStatus = ''running'' then mark_running s job else ret (Inr ())
          })
   }"

definition ReportStatus :: "Service \<Rightarrow> metadata \<Rightarrow> StatusUpdate \<Rightarrow> (world, go_error + unit) state" where
  "ReportStatus s md req =
     (case bearerToken md of
        Inl e \<Rightarrow> ret (Inl e)
      | Inr tok \<Rightarrow>
     (case uuid_parse s (su_LeaseId req) of
        None \<Rightarrow> ret (Inl (Status InvalidArgument))
      | Some leaseID \<Rightarrow> do {
          r \<leftarrow> resolveLeaseJob s leaseID;
          case r of
            Inl e \<Rightarrow> ret (Inl e)
          | Inr None \<Rightarrow> ret (Inr ())
          | Inr (Some job) \<Rightarrow> do {
              a \<leftarrow> authorizeJobRunner s tok job;
              case a of
                Inl e \<Rightarrow> ret (Inl e)
              | Inr _ \<Rightarrow>
                  (case phaseToStatus (su_Phase req) of
                     Inl e \<Rightarrow> ret (Inl e)
                   | Inr stepStatus \<Rightarrow>
                       if su_StepId req \<noteq> '''' \<or> su_StepName req \<noteq> ''''
                       then report_step s job req stepStatus (from_unix (su_TsUnix req))
                       else if stepStatus = ''running'' then mark_running s job
                       else ret (Inr ()))
            }
        }))"

subsection \<open>Completion\<close>

text \<open>The outputs of a request are a map; the list is in the order the map is iterated.\<close>

record CompleteJobRequest =
  cj_LeaseId :: string
  cj_Result :: Phase
  cj_Outputs :: "(string \<times> string) list"

fun write_outputs :: "Service \<Rightarrow> Job \<Rightarrow> (string \<times> string) list \<Rightarrow> (world, go_error + unit) state" where
  "write_outputs s job [] = ret (Inr ())"
| "write_outputs s job ((k, v) # kvs) = do {
     r \<leftarrow> UpsertOutput (svc_env s) (j_ID job) k v;
     case r of
       Inl e \<Rightarrow> ret (Inl (Status Internal))
     | Inr _ \<Rightarrow> write_outputs s job kvs
   }"

text \<open>
  The writes of a completion, up to the outputs: the result, the best-effort step from leased
  to running, the terminal status.
\<close>

definition record_completion :: "Service \<Rightarrow> Job \<Rightarrow> string \<Rightarrow> (string \<times> string) list \<Rightarrow> (world, go_error + unit) state" where
  "record_completion s job result outputs = do {
     finishedAt \<leftarrow> time_now (svc_env s);
     sr \<leftarrow> SetResult (svc_env s) (j_ID job) result finishedAt;
     case sr of
       Inl e \<Rightarrow> ret (Inl (Status Internal))
     | Inr _ \<Rightarrow> do {
         m \<leftarrow> mark_running s job;
         case m of
           Inl e \<Rightarrow> ret (Inl e)
         | Inr _ \<Rightarrow> do {
             t \<leftarrow> TransitionStatus (svc_env s) (j_ID job) ''running'' result;
             case t of
               Inl e \<Rightarrow>
                 if e \<noteq> ErrIllegalTransition then ret (Inl (Status Internal))
                 else write_outputs s job outputs
             | Inr _ \<Rightarrow> write_outputs s job outputs
           }
       }
   }"

text \<open>The result is \<open>None\<close> when the fuel of \<open>gateRun\<close> does not suffice.\<close>

definition CompleteJob ::
    "nat \<Rightarrow> Service \<Rightarrow> metadata \<Rightarrow> CompleteJobRequest \<Rightarrow> (world, (go_error + unit) option) state" where
  "CompleteJob fuel s md req =
     (case bearerToken md of
        Inl e \<Rightarrow> ret (Some (Inl e))
      | Inr tok \<Rightarrow>
     (case uuid_parse s (cj_LeaseId req) of
        None \<Rightarrow> ret (Some (Inl (Status InvalidArgument)))
      | Some leaseID \<Rightarrow> do {
          r \<leftarrow> resolveLeaseJob s leaseID;
          case r of
            Inl e \<Rightarrow> ret (Some (Inl e))
          | Inr None \<Rightarrow> ret (Some (Inr ()))
          | Inr (Some job) \<Rightarrow> do {
              a \<leftarrow> authorizeJobRunner s tok job;
              case a of
                Inl e \<Rightarrow> ret (Some (Inl e))
              | Inr _ \<Rightarrow>
                  (case phaseToResult (cj_Result req) of
                     Inl e \<Rightarrow> ret (Some (Inl e))
                   | Inr result \<Rightarrow>
                       if \<not> isTerminalStatus result then ret (Some (Inl (Status InvalidArgument)))
                       else do {
                         c \<leftarrow> record_completion s job result (cj_Outputs req);
                         case c of
                           Inl e \<Rightarrow> ret (Some (Inl e))
                         | Inr _ \<Rightarrow> do {
                             g \<leftarrow> gateRun fuel s (j_RunID job);
                             case g of
                               None \<Rightarrow> ret None
                             | Some _ \<Rightarrow> ret (Some (Inr ()))
                           }
                       })
            }
        }))"

subsection \<open>What every relation of the stores gives\<close>

lemma requested_running [simp]: "requested_transition ''leased'' ''running''"
  by (simp add: requested_transition_def)

lemma requested_result: "isTerminalStatus result \<Longrightarrow> requested_transition ''running'' result"
  by (simp add: requested_transition_def isTerminal_iff)

context call_rel
begin

lemma guar_RegisterRunner: "rely (svc_env s) \<Longrightarrow> guar (RegisterRunner s req)"
  unfolding RegisterRunner_def by (intro guar_rules guar_store guar_generateAuthToken) auto

lemma guar_resolve: "rely (svc_env s) \<Longrightarrow> guar (resolveLeaseJob s leaseID)"
  unfolding resolveLeaseJob_def by (intro guar_rules guar_store) auto

lemma guar_authorize: "rely (svc_env s) \<Longrightarrow> guar (authorizeJobRunner s tok job)"
  unfolding authorizeJobRunner_def by (intro guar_rules guar_store) auto

lemma guar_renew_loop: "rely (svc_env s) \<Longrightarrow> guar (renew_loop s runnerID deadline raws)"
  by (induction raws) (auto intro!: guar_rules guar_store)

lemma guar_heartbeat_ping: "rely (svc_env s) \<Longrightarrow> guar (heartbeat_ping s tok ping)"
  unfolding heartbeat_ping_def renewActiveLeases_def
  by (intro guar_rules guar_store guar_renew_loop) auto

lemma guar_heartbeat_loop: "rely (svc_env s) \<Longrightarrow> guar (heartbeat_loop s tok ok pings ending acks)"
  by (induction pings arbitrary: acks) (auto intro!: guar_rules guar_heartbeat_ping)

lemma guar_Heartbeat: "rely (svc_env s) \<Longrightarrow> guar (Heartbeat s md ok pings ending)"
  unfolding Heartbeat_def by (intro guar_rules guar_heartbeat_loop)

lemma guar_reaper_ticks: "rely (svc_env s) \<Longrightarrow> guar (reaper_ticks s stale n)"
  by (induction n) (auto simp: reap_runners_def intro!: guar_rules guar_store)

lemma guar_RunReaper: "rely (svc_env s) \<Longrightarrow> guar (RunReaper s ticks)"
  unfolding RunReaper_def by (intro guar_rules guar_reaper_ticks) auto

lemma guar_log_chunk: "rely (svc_env s) \<Longrightarrow> guar (log_chunk s tok resolved chunk)"
  unfolding log_chunk_def resolve_cached_def
  by (intro guar_rules guar_store guar_resolve guar_authorize) auto

lemma guar_log_loop: "rely (svc_env s) \<Longrightarrow> guar (log_loop s tok ok chunks ending resolved)"
  by (induction chunks arbitrary: resolved) (auto intro!: guar_rules guar_log_chunk)

lemma guar_StreamLogs: "rely (svc_env s) \<Longrightarrow> guar (StreamLogs s md ok chunks ending)"
  unfolding StreamLogs_def by (intro guar_rules guar_log_loop)

lemma guar_mark_running: "rely (svc_env s) \<Longrightarrow> guar (mark_running s job)"
  unfolding mark_running_def by (intro guar_rules guar_store) auto

lemma guar_ReportStatus: "rely (svc_env s) \<Longrightarrow> guar (ReportStatus s md req)"
  unfolding ReportStatus_def report_step_def
  by (intro guar_rules guar_store guar_resolve guar_authorize guar_mark_running)

lemma guar_write_outputs: "rely (svc_env s) \<Longrightarrow> guar (write_outputs s job kvs)"
  by (induction kvs) (auto intro!: guar_rules guar_store)

lemma guar_record_completion:
  "rely (svc_env s) \<Longrightarrow> isTerminalStatus result \<Longrightarrow> guar (record_completion s job result outputs)"
  unfolding record_completion_def
  by (intro guar_rules guar_store guar_mark_running guar_write_outputs requested_result)

end

context dispatch_rel
begin

lemma guar_CompleteJob: "rely (svc_env s) \<Longrightarrow> guar (CompleteJob fuel s md req)"
  unfolding CompleteJob_def
  by (intro guar_rules guar_resolve guar_authorize guar_record_completion guar_gateRun) auto

end

end
