(* ===== verification/Service_Spec.thy ===== *)
theory Service_Spec
  imports Dispatch_Service
begin

text \<open>
  The calls of the dispatch service as one type, the relations of the stores that each of them
  keeps, and what a call without a valid token does: nothing.
\<close>

subsection \<open>Calls\<close>

datatype rpc =
    CallRegister RegisterRunnerRequest
  | CallHeartbeat metadata "nat \<Rightarrow> bool" "HeartbeatPing list" stream_end
  | CallAcquire metadata AcquireJobRequest "nat \<Rightarrow> bool" "wake list"
  | CallStreamLogs metadata "nat \<Rightarrow> bool" "LogChunk list" stream_end
  | CallReport metadata StatusUpdate
  | CallComplete metadata CompleteJobRequest
  | TickLeases nat
  | TickRunners nat

fun serve :: "nat \<Rightarrow> Service \<Rightarrow> rpc \<Rightarrow> (world, unit) state" where
  "serve fuel s (CallRegister req) = do { RegisterRunner s req; ret () }"
| "serve fuel s (CallHeartbeat md ok pings ending) = do { Heartbeat s md ok pings ending; ret () }"
| "serve fuel s (CallAcquire md req ok evs) = do { AcquireJob s md req ok evs; ret () }"
| "serve fuel s (CallStreamLogs md ok chunks ending) = do { StreamLogs s md ok chunks ending; ret () }"
| "serve fuel s (CallReport md req) = do { ReportStatus s md req; ret () }"
| "serve fuel s (CallComplete md req) = do { CompleteJob fuel s md req; ret () }"
| "serve fuel s (TickLeases n) = StartJobReaper s n"
| "serve fuel s (TickRunners n) = do { RunReaper s n; ret () }"

text \<open>
  A tick of the reaper of silent runners is part of \<open>RunReaper\<close>, which panics before its first
  one when the interval of its ticker is not positive: then there is none, and the process dies
  (\<open>Lifecycle\<close>).
\<close>

fun is_tick :: "rpc \<Rightarrow> bool" where
  "is_tick (TickLeases n) = True"
| "is_tick (TickRunners n) = True"
| "is_tick c = False"

definition completes :: "rpc \<Rightarrow> bool" where
  "completes c = (case c of CallComplete _ _ \<Rightarrow> True | _ \<Rightarrow> False)"

context call_rel
begin

lemma guar_serve_others: "rely (svc_env s) \<Longrightarrow> \<not> completes c \<Longrightarrow> guar (serve fuel s c)"
  by (cases c) (auto simp: completes_def intro!: guar_rules guar_RegisterRunner guar_Heartbeat guar_AcquireJob guar_StreamLogs
      guar_ReportStatus guar_StartJobReaper guar_RunReaper)

end

context dispatch_rel
begin

lemma guar_serve: "rely (svc_env s) \<Longrightarrow> guar (serve fuel s c)"
proof (cases "completes c")
  case True
  assume "rely (svc_env s)"
  with True show ?thesis by (cases c) (auto simp: completes_def intro!: guar_rules guar_CompleteJob)
qed (rule guar_serve_others)

end

lemma db_ok_sample: "db_ok (db_with sample_jobs)"
  by (simp add: db_ok_def chunks_ok_def sample_defs lease_shape_def)

subsection \<open>Calls without a valid token\<close>

text \<open>The metadata of the calls that check a token; \<open>RegisterRunner\<close> looks at none.\<close>

definition call_metadata :: "rpc \<Rightarrow> metadata option" where
  "call_metadata c = (case c of
     CallHeartbeat md _ _ _ \<Rightarrow> Some md | CallAcquire md _ _ _ \<Rightarrow> Some md | CallStreamLogs md _ _ _ \<Rightarrow> Some md
   | CallReport md _ \<Rightarrow> Some md | CallComplete md _ \<Rightarrow> Some md | _ \<Rightarrow> None)"

definition foreign_token :: "string \<Rightarrow> database \<Rightarrow> bool" where
  "foreign_token tok d \<longleftrightarrow> tok \<notin> rn_AuthToken ` set (runners d)"

lemma run_GetByID: "solo E \<Longrightarrow> run_state (GetByID E rid) w =
    (first_row (\<lambda>r. rn_ID r = rid) (runners (db w)), w\<lparr>tick := Suc (tick w)\<rparr>)"
  by (simp add: GetByID_def run_query_solo)

lemma run_GetByLease: "solo E \<Longrightarrow> run_state (GetByLease E l) w =
    (first_row (\<lambda>j. j_LeaseID j = Some l) (jobs (db w)), w\<lparr>tick := Suc (tick w)\<rparr>)"
  by (simp add: GetByLease_def run_query_solo)

lemma first_row_Inr: "first_row P rows = Inr r \<Longrightarrow> r \<in> set rows \<and> P r"
  by (auto simp: first_row_def split: option.splits dest: find_Some_set)

lemma foreign_invalid: "foreign_token tok d \<Longrightarrow> first_row P (runners d) = Inr r \<Longrightarrow> \<not> validToken tok (rn_AuthToken r)"
  by (auto simp: foreign_token_def validToken_def dest!: first_row_Inr)

lemma resolve_solo:
  assumes "solo (svc_env s)"
  shows "run_state (resolveLeaseJob s l) w =
    (Inr (find (\<lambda>j. j_LeaseID j = Some l) (jobs (db w))), w\<lparr>tick := Suc (tick w)\<rparr>)"
  by (simp add: resolveLeaseJob_def run_GetByLease assms first_row_def split: option.splits)

lemma authorize_foreign:
  assumes "solo (svc_env s)" and "foreign_token tok (db w)"
  shows "\<exists>e n. run_state (authorizeJobRunner s tok job) w = (Inl e, w\<lparr>tick := n\<rparr>)"
proof (cases "j_RunnerID job")
  case None
  then show ?thesis by (intro exI [of _ "Status FailedPrecondition"] exI [of _ "tick w"]) (simp add: authorizeJobRunner_def)
next
  case (Some rid)
  then show ?thesis
    using foreign_invalid [OF assms(2), of "\<lambda>r. rn_ID r = rid"]
    by (cases "first_row (\<lambda>r. rn_ID r = rid) (runners (db w))")
      (auto simp: authorizeJobRunner_def run_GetByID assms(1))
qed

lemma log_loop_foreign:
  assumes "solo (svc_env s)" and "foreign_token tok (db w)" and "\<forall>l j. resolved l \<noteq> Some (Some j)"
  shows "db (snd (run_state (log_loop s tok ok chunks ending resolved) w)) = db w"
  using assms(2-)
proof (induction chunks arbitrary: resolved w)
  case (Cons c cs)
  show ?case
  proof (cases "uuid_parse s (lk_LeaseId c)")
    case (Some l)
    consider "resolved l = Some None" | "resolved l = None" using Cons.prems(2)
      by (metis option.exhaust)
    then show ?thesis
    proof cases
      case 1
      with Some Cons show ?thesis by (simp add: log_chunk_def resolve_cached_def)
    next
      case 2
      show ?thesis
      proof (cases "find (\<lambda>j. j_LeaseID j = Some l) (jobs (db w))")
        case None
        let ?w = "w\<lparr>tick := Suc (tick w)\<rparr>"
        have "db (snd (run_state (log_loop s tok ok cs ending (resolved(l \<mapsto> None))) ?w)) = db ?w"
          by (rule Cons.IH) (use Cons.prems in auto)
        with Some None 2 show ?thesis
          by (simp add: log_chunk_def resolve_cached_def resolve_solo [OF assms(1)])
      next
        case (Some job)
        obtain e n where "run_state (authorizeJobRunner s tok job) (w\<lparr>tick := Suc (tick w)\<rparr>) = (Inl e, w\<lparr>tick := n\<rparr>)"
          using authorize_foreign [OF assms(1), of tok "w\<lparr>tick := Suc (tick w)\<rparr>" job] Cons.prems(1) by auto
        with Some \<open>uuid_parse s (lk_LeaseId c) = Some l\<close> 2 show ?thesis
          by (simp add: log_chunk_def resolve_cached_def resolve_solo [OF assms(1)])
      qed
    qed
  qed (simp add: log_chunk_def)
qed simp

lemma heartbeat_foreign:
  assumes "solo (svc_env s)" and "foreign_token tok (db w)"
  shows "db (snd (run_state (heartbeat_loop s tok ok pings ending acks) w)) = db w"
proof (cases pings)
  case (Cons p ps)
  show ?thesis
  proof (cases "uuid_parse s (hp_RunnerId p)")
    case (Some rid)
    with Cons foreign_invalid [OF assms(2), of "\<lambda>r. rn_ID r = rid"] show ?thesis
      by (cases "first_row (\<lambda>r. rn_ID r = rid) (runners (db w))")
        (auto simp: heartbeat_ping_def run_GetByID assms(1))
  qed (simp add: Cons heartbeat_ping_def)
qed simp

lemma acquire_foreign:
  assumes "solo (svc_env s)" and "bearerToken md = Inr tok" and "foreign_token tok (db w)"
  shows "db (snd (run_state (AcquireJob s md req ok evs) w)) = db w"
proof (cases "uuid_parse s (aq_RunnerId req)")
  case (Some rid)
  with foreign_invalid [OF assms(3), of "\<lambda>r. rn_ID r = rid"] assms show ?thesis
    by (cases "first_row (\<lambda>r. rn_ID r = rid) (runners (db w))") (auto simp: AcquireJob_def run_GetByID)
qed (simp add: AcquireJob_def assms)

lemma lease_call_foreign:
  assumes E: "solo (svc_env s)" and "foreign_token tok (db w)" and "bearerToken md = Inr tok"
  shows "db (snd (run_state (ReportStatus s md req) w)) = db w"
    and "db (snd (run_state (CompleteJob fuel s md req') w)) = db w"
proof -
  have auth: "\<exists>e n. run_state (authorizeJobRunner s tok job) (w\<lparr>tick := Suc (tick w)\<rparr>) = (Inl e, w\<lparr>tick := n\<rparr>)" for job
    using authorize_foreign [OF E, of tok "w\<lparr>tick := Suc (tick w)\<rparr>" job] assms(2) by auto
  show "db (snd (run_state (ReportStatus s md req) w)) = db w"
  proof (cases "uuid_parse s (su_LeaseId req)")
    case (Some l)
    show ?thesis
    proof (cases "find (\<lambda>j. j_LeaseID j = Some l) (jobs (db w))")
      case None
      with Some assms(3) show ?thesis by (simp add: ReportStatus_def resolve_solo [OF E])
    next
      case (Some job)
      with \<open>uuid_parse s (su_LeaseId req) = Some l\<close> assms(3) auth [of job] show ?thesis
        by (auto simp: ReportStatus_def resolve_solo [OF E])
    qed
  qed (simp add: ReportStatus_def assms(3))
  show "db (snd (run_state (CompleteJob fuel s md req') w)) = db w"
  proof (cases "uuid_parse s (cj_LeaseId req')")
    case (Some l)
    show ?thesis
    proof (cases "find (\<lambda>j. j_LeaseID j = Some l) (jobs (db w))")
      case None
      with Some assms(3) show ?thesis by (simp add: CompleteJob_def resolve_solo [OF E])
    next
      case (Some job)
      with \<open>uuid_parse s (cj_LeaseId req') = Some l\<close> assms(3) auth [of job] show ?thesis
        by (auto simp: CompleteJob_def resolve_solo [OF E])
    qed
  qed (simp add: CompleteJob_def assms(3))
qed

text \<open>Every call but a registration, with no token or a foreign one.\<close>

lemma foreign_call_changes_nothing:
  assumes "solo (svc_env s)" and "call_metadata c = Some md"
    and "\<forall>tok. bearerToken md = Inr tok \<longrightarrow> foreign_token tok (db w)"
  shows "db (snd (run_state (serve fuel s c) w)) = db w"
proof (cases "bearerToken md")
  case (Inl e)
  with assms(2) show ?thesis
    by (cases c) (auto simp: call_metadata_def Heartbeat_def AcquireJob_def StreamLogs_def ReportStatus_def CompleteJob_def)
next
  case (Inr tok)
  with assms(3) have f: "foreign_token tok (db w)" by blast
  show ?thesis
  proof (cases c)
    case (CallHeartbeat md' ok pings ending)
    with assms Inr heartbeat_foreign [OF assms(1) f] show ?thesis
      by (simp add: call_metadata_def Heartbeat_def split_beta)
  next
    case (CallAcquire md' req ok evs)
    with assms Inr acquire_foreign [OF assms(1) Inr f] show ?thesis by (simp add: call_metadata_def split_beta)
  next
    case (CallStreamLogs md' ok chunks ending)
    with assms Inr log_loop_foreign [OF assms(1) f] show ?thesis
      by (simp add: call_metadata_def StreamLogs_def split_beta)
  qed (use assms Inr lease_call_foreign [OF assms(1) f Inr] in \<open>auto simp: call_metadata_def split_beta\<close>)
qed

text \<open>A registration, which needs no token, does nothing but add a row to the table of runners.\<close>

lemma RegisterRunner_adds:
  assumes E: "solo (svc_env s)"
  shows "\<exists>new. length new \<le> 1 \<and> (\<forall>r\<in>set new. rn_ID r \<notin> rn_ID ` set (runners (db w)) \<and> rn_Name r = rr_Name req) \<and>
    db (snd (run_state (RegisterRunner s req) w)) = (db w)\<lparr>runners := runners (db w) @ new\<rparr>"
proof -
  let ?new = "\<lambda>new. length new \<le> 1 \<and> (\<forall>r\<in>set new. rn_ID r \<notin> rn_ID ` set (runners (db w)) \<and> rn_Name r = rr_Name req)"
  have none: "?new []" "(db w)\<lparr>runners := runners (db w) @ []\<rparr> = db w" by simp_all
  have created: "\<exists>new. ?new new \<and> db (snd (run_state (CreateRunner (svc_env s) r) w1)) = (db w)\<lparr>runners := runners (db w) @ new\<rparr>"
    if "rn_Name r = rr_Name req" "db w1 = db w" for r w1
  proof (cases "rn_ID r \<in> rn_ID ` set (runners (db w)) \<or> rn_Labels r = None")
    case True
    then show ?thesis using that none
      by (intro exI [of _ "[]"]) (auto simp: CreateRunner_def run_statement_solo [OF E] sql_CreateRunner_def)
  next
    case False
    then show ?thesis using that
      by (intro exI [of _ "[r\<lparr>rn_CreatedAt := clock (svc_env s) (tick w1)\<rparr>]"])
        (auto simp: CreateRunner_def run_statement_solo [OF E] sql_CreateRunner_def)
  qed
  have gen: "db (snd (run_state (generateAuthToken s) w)) = db w"
    by (auto simp: generateAuthToken_def split_beta split: option.splits)
  obtain t w1 where t: "run_state (generateAuthToken s) w = (t, w1)" by fastforce
  show ?thesis
  proof (cases "rr_Name req = [] \<or> rr_Capacity req < 0 \<or> (\<exists>e. runnerModeToString (rr_Mode req) = Inl e) \<or> t = None")
    case True
    then show ?thesis using none t gen
      by (intro exI [of _ "[]"]) (auto simp: RegisterRunner_def split: sum.splits)
  next
    case False
    then obtain mode tok where m: "runnerModeToString (rr_Mode req) = Inr mode" "t = Some tok"
      by (cases "runnerModeToString (rr_Mode req)") auto
    let ?r = "\<lparr>rn_ID = new_uuid (svc_env s) (Suc (tick w1)), rn_Name = rr_Name req, rn_Labels = rr_Labels req, rn_Mode = mode,
      rn_Capacity = rr_Capacity req, rn_Version = rr_Version req, rn_Status = ''online'',
      rn_LastHeartbeat = Some (clock (svc_env s) (tick w1)), rn_CreatedAt = 0, rn_AuthToken = tok\<rparr>"
    let ?w = "w1\<lparr>tick := Suc (Suc (tick w1))\<rparr>"
    have "db (snd (run_state (RegisterRunner s req) w)) = db (snd (run_state (CreateRunner (svc_env s) ?r) ?w))"
      using False m t by (auto simp: RegisterRunner_def split_beta uuid_new_def split: sum.splits)
    with created [of ?r ?w] t gen show ?thesis by auto
  qed
qed

text \<open>
  C19: what a call without a valid token can do, which presents none or one that is no registered
  runner's. \<open>RegisterRunner\<close>, which anybody may call, adds at most one row to the table of
  runners, under a new id, and leaves everything else as it was. Every other call leaves the
  database exactly as it was: no heartbeat, lease, log line, status or result is recorded.
\<close>

theorem unauthenticated_calls_only_register:
  assumes "solo (svc_env s)" and "\<not> is_tick c"
    and "\<forall>md tok. call_metadata c = Some md \<longrightarrow> bearerToken md = Inr tok \<longrightarrow> foreign_token tok (db w)"
  shows "case c of
      CallRegister req \<Rightarrow> \<exists>new. length new \<le> 1 \<and> (\<forall>r\<in>set new. rn_ID r \<notin> rn_ID ` set (runners (db w)) \<and> rn_Name r = rr_Name req) \<and>
        db (snd (run_state (serve fuel s c) w)) = (db w)\<lparr>runners := runners (db w) @ new\<rparr>
    | _ \<Rightarrow> db (snd (run_state (serve fuel s c) w)) = db w"
proof (cases "call_metadata c")
  case None
  with assms(2) obtain req where c: "c = CallRegister req" by (cases c) (auto simp: call_metadata_def)
  then show ?thesis using RegisterRunner_adds [OF assms(1), of w req] by (simp add: split_beta)
next
  case (Some md)
  with foreign_call_changes_nothing [OF assms(1) Some, of w fuel] assms(3) show ?thesis
    by (cases c) (auto simp: call_metadata_def simp del: serve.simps)
qed

text \<open>Runner 7 works under lease 50; somebody who guesses its token reports success.\<close>

definition leased_jobs :: "Job list" where
  "leased_jobs = [(sample_job 11 ''build'' [])\<lparr>j_Status := ''running'', j_RunnerID := Some 7, j_LeaseID := Some 50,
     j_LeaseDeadline := Some 30000000, j_StartedAt := Some 0\<rparr>]"

theorem unauthenticated_calls_only_register_witness:
  "db (snd (run_state (serve 9 sample_service
     (CallComplete (Some [''Bearer guess'']) \<lparr>cj_LeaseId = ''50'', cj_Result = PHASE_SUCCESS, cj_Outputs = []\<rparr>))
     (world_with (db_with leased_jobs)))) = db_with leased_jobs"
  using unauthenticated_calls_only_register [of sample_service
      "CallComplete (Some [''Bearer guess'']) \<lparr>cj_LeaseId = ''50'', cj_Result = PHASE_SUCCESS, cj_Outputs = []\<rparr>"
      "world_with (db_with leased_jobs)" 9]
  by (simp add: call_metadata_def foreign_token_def bearerToken_Inr sample_defs del: serve.simps)

end
