(* ===== verification/Completion_Spec.thy ===== *)
theory Completion_Spec
  imports Service_Spec
begin

text \<open>
  \<open>CompleteJob\<close> as a whole: the completed job's row, its outputs, and the gate that follows.
\<close>

definition completed_row :: "string \<Rightarrow> time \<Rightarrow> Job \<Rightarrow> Job" where
  "completed_row result t j =
     (result_row result t j)\<lparr>j_Status := (if j_Status j \<in> {''leased'', ''running''} then result else j_Status j)\<rparr>"

lemma run_TransitionStatus:
  assumes "solo E" and "isLegalJobTransition src dst"
  shows "run_state (TransitionStatus E jid src dst) w =
    (if \<exists>j\<in>set (jobs (db w)). j_ID j = jid \<and> j_Status j = src then Inr () else Inl ErrIllegalTransition,
     w\<lparr>db := (db w)\<lparr>jobs := update_where (\<lambda>j. j_ID j = jid \<and> j_Status j = src) (\<lambda>j. j\<lparr>j_Status := dst\<rparr>) (jobs (db w))\<rparr>,
       tick := Suc (tick w)\<rparr>)"
proof -
  let ?x = "sql_TransitionStatus jid src dst (clock E (tick w)) (db w)"
  have "run_state (TransitionStatus E jid src dst) w = (fst ?x, w\<lparr>db := snd ?x, tick := Suc (tick w)\<rparr>)"
    using assms(2) by (simp add: TransitionStatus_def run_statement_solo [OF assms(1)] split_beta)
  then show ?thesis by (simp add: sql_TransitionStatus_def fst_update_jobs snd_update_jobs)
qed

lemma run_mark_running:
  assumes "solo (svc_env s)"
  shows "run_state (mark_running s j) w =
    (Inr (), w\<lparr>db := (db w)\<lparr>jobs := update_where (\<lambda>r. j_ID r = j_ID j \<and> j_Status r = ''leased'')
        (\<lambda>r. r\<lparr>j_Status := ''running''\<rparr>) (jobs (db w))\<rparr>, tick := Suc (tick w)\<rparr>)"
proof -
  have "isLegalJobTransition ''leased'' ''running''" by (simp add: isLegalJobTransition_def jobTransitions_def)
  then show ?thesis by (simp add: mark_running_def run_TransitionStatus [OF assms])
qed

text \<open>The upserts of the outputs: the map read back is the old one with the new keys written over.\<close>

lemma UpsertOutput_ok:
  "jid \<in> j_ID ` set (jobs d) \<Longrightarrow>
    \<exists>os. sql_UpsertOutput jid k v now d = (Inr (), d\<lparr>job_outputs := os\<rparr>) \<and>
      outputs_of jid (d\<lparr>job_outputs := os\<rparr>) = (outputs_of jid d)(k \<mapsto> v)"
proof -
  assume "jid \<in> j_ID ` set (jobs d)"
  then obtain os where "sql_UpsertOutput jid k v now d = (Inr (), d\<lparr>job_outputs := os\<rparr>)"
    by (cases "\<exists>r\<in>set (job_outputs d). o_JobRowID r = jid \<and> o_Key r = k") (simp_all add: sql_UpsertOutput_def)
  with outputs_of_UpsertOutput [OF this] show ?thesis by blast
qed

definition write_map :: "(string \<times> string) list \<Rightarrow> (string \<rightharpoonup> string) \<Rightarrow> (string \<rightharpoonup> string)" where
  "write_map kvs m = fold (\<lambda>(k, v) m. m(k \<mapsto> v)) kvs m"

lemma run_write_outputs:
  assumes "solo (svc_env s)" and "j_ID j \<in> j_ID ` set (jobs (db w))"
  shows "\<exists>os n. run_state (write_outputs s j kvs) w = (Inr (), w\<lparr>db := (db w)\<lparr>job_outputs := os\<rparr>, tick := n\<rparr>) \<and>
    outputs_of (j_ID j) ((db w)\<lparr>job_outputs := os\<rparr>) = write_map kvs (outputs_of (j_ID j) (db w))"
  using assms(2)
proof (induction kvs arbitrary: w)
  case Nil
  show ?case by (intro exI [of _ "job_outputs (db w)"] exI [of _ "tick w"]) (simp add: write_map_def)
next
  case (Cons kv kvs)
  obtain k v where kv: "kv = (k, v)" by (cases kv)
  obtain os where os: "sql_UpsertOutput (j_ID j) k v (clock (svc_env s) (tick w)) (db w) = (Inr (), (db w)\<lparr>job_outputs := os\<rparr>)"
    "outputs_of (j_ID j) ((db w)\<lparr>job_outputs := os\<rparr>) = (outputs_of (j_ID j) (db w))(k \<mapsto> v)"
    using UpsertOutput_ok [OF Cons.prems] by blast
  let ?w = "w\<lparr>db := (db w)\<lparr>job_outputs := os\<rparr>, tick := Suc (tick w)\<rparr>"
  obtain os' n where IH: "run_state (write_outputs s j kvs) ?w = (Inr (), ?w\<lparr>db := (db ?w)\<lparr>job_outputs := os'\<rparr>, tick := n\<rparr>)"
    "outputs_of (j_ID j) ((db ?w)\<lparr>job_outputs := os'\<rparr>) = write_map kvs (outputs_of (j_ID j) (db ?w))"
    using Cons.IH [of ?w] Cons.prems by auto
  have "run_state (UpsertOutput (svc_env s) (j_ID j) k v) w = (Inr (), ?w)"
    by (simp add: UpsertOutput_def run_statement_solo [OF assms(1)] os(1))
  with kv IH os(2) show ?case by (auto simp: write_map_def)
qed

text \<open>The state after the writes of a completion, before the gate runs.\<close>

definition completion_recorded :: "Job \<Rightarrow> string \<Rightarrow> time \<Rightarrow> (string \<times> string) list \<Rightarrow> world \<Rightarrow> world \<Rightarrow> bool" where
  "completion_recorded j result t kvs w w' \<longleftrightarrow>
     jobs (db w') = map (\<lambda>r. if r = j then completed_row result t r else r) (jobs (db w)) \<and>
     outputs_of (j_ID j) (db w') = write_map kvs (outputs_of (j_ID j) (db w)) \<and>
     workflow_runs (db w') = workflow_runs (db w) \<and> runners (db w') = runners (db w) \<and>
     steps (db w') = steps (db w) \<and> log_chunks (db w') = log_chunks (db w) \<and>
     posted w' = posted w \<and> waiters w' = waiters w"

lemma run_record_completion:
  assumes E: "solo (svc_env s)" and ids: "distinct (map j_ID (jobs (db w)))" and j: "j \<in> set (jobs (db w))"
    and result: "isTerminalStatus result"
  shows "\<exists>w'. run_state (record_completion s j result kvs) w = (Inr (), w') \<and>
    completion_recorded j result (clock (svc_env s) (tick w)) kvs w w'"
proof -
  let ?t = "clock (svc_env s) (tick w)" and ?id = "\<lambda>r. j_ID r = j_ID j"
  define js1 where "js1 = update_where ?id (result_row result ?t) (jobs (db w))"
  define js2 where "js2 = update_where (\<lambda>r. ?id r \<and> j_Status r = ''leased'') (\<lambda>r. r\<lparr>j_Status := ''running''\<rparr>) js1"
  define js3 where "js3 = update_where (\<lambda>r. ?id r \<and> j_Status r = ''running'') (\<lambda>r. r\<lparr>j_Status := result\<rparr>) js2"
  have hit: "rows_affected ?id (jobs (db w)) \<noteq> 0" using j by (auto simp: rows_affected_0)
  have js3: "js3 = map (\<lambda>r. if r = j then completed_row result ?t r else r) (jobs (db w))"
    using row_by_id [OF ids _ j]
    by (auto simp: js3_def js2_def js1_def update_where_def completed_row_def result_row_def)
  have idset: "j_ID ` set js3 = j_ID ` set (jobs (db w))"
    by (simp add: js3_def js2_def js1_def image_update_where result_row_def)
  have legal: "isLegalJobTransition ''running'' result"
    using requested_legal requested_result [OF result] by blast
  let ?w = "w\<lparr>db := (db w)\<lparr>jobs := js3\<rparr>, tick := Suc (Suc (Suc (Suc (tick w))))\<rparr>"
  have upto: "run_state (record_completion s j result kvs) w = run_state (write_outputs s j kvs) ?w"
    using hit
    by (simp add: record_completion_def SetResult_def run_statement_solo [OF E] sql_SetResult_def update_jobs_def
        run_mark_running [OF E] run_TransitionStatus [OF E legal] js1_def [symmetric] js2_def [symmetric] js3_def [symmetric])
  have "outputs_of (j_ID j) (db ?w) = outputs_of (j_ID j) (db w)" by (simp add: outputs_of_def)
  moreover obtain os n where
    "run_state (write_outputs s j kvs) ?w = (Inr (), ?w\<lparr>db := (db ?w)\<lparr>job_outputs := os\<rparr>, tick := n\<rparr>)"
    "outputs_of (j_ID j) ((db ?w)\<lparr>job_outputs := os\<rparr>) = write_map kvs (outputs_of (j_ID j) (db ?w))"
    using run_write_outputs [OF E, of j ?w kvs] idset j by auto
  ultimately show ?thesis using upto js3 by (simp add: completion_recorded_def)
qed

lemma run_authorize:
  assumes "solo (svc_env s)" and "j_RunnerID job = Some rid"
    and "find (\<lambda>r. rn_ID r = rid) (runners (db w)) = Some rn" and "validToken tok (rn_AuthToken rn)"
  shows "run_state (authorizeJobRunner s tok job) w = (Inr (), w\<lparr>tick := Suc (tick w)\<rparr>)"
  using assms by (simp add: authorizeJobRunner_def run_GetByID first_row_def)

lemma CompleteJob_solo:
  assumes "solo (svc_env s)" and "distinct (map j_ID (jobs (db w)))"
    and "j_RunID ` set (jobs (db w)) \<subseteq> run_ID ` set (workflow_runs (db w))"
    and "length (jobs (db w)) < fuel"
    and "bearerToken md = Inr tok" and "uuid_parse s (cj_LeaseId req) = Some l"
    and "find (\<lambda>j. j_LeaseID j = Some l) (jobs (db w)) = Some j" and "j_RunnerID j = Some rid"
    and "find (\<lambda>r. rn_ID r = rid) (runners (db w)) = Some rn" and "validToken tok (rn_AuthToken rn)"
    and "phaseToResult (cj_Result req) = Inr result" and "isTerminalStatus result"
  shows "\<exists>t w1 ts w'. run_state (CompleteJob fuel s md req) w = (Some (Inr ()), w') \<and>
    completion_recorded j result t (cj_Outputs req) w w1 \<and> gate_outcome s (j_RunID j) w1 ts w'"
proof -
  note E = assms(1)
  let ?w = "w\<lparr>tick := Suc (Suc (tick w))\<rparr>"
  have j: "j \<in> set (jobs (db w))" using find_Some_set [OF assms(7)] by simp
  obtain w1 where rec: "run_state (record_completion s j result (cj_Outputs req)) ?w = (Inr (), w1)"
    "completion_recorded j result (clock (svc_env s) (tick ?w)) (cj_Outputs req) ?w w1"
    using run_record_completion [OF E, of ?w j result "cj_Outputs req"] assms(2,12) j by auto
  have jobs1: "jobs (db w1) = map (\<lambda>r. if r = j then completed_row result (clock (svc_env s) (tick ?w)) r else r) (jobs (db w))"
    and runs1: "workflow_runs (db w1) = workflow_runs (db w)"
    using rec(2) by (simp_all add: completion_recorded_def)
  have "map j_ID (jobs (db w1)) = map j_ID (jobs (db w))"
    unfolding jobs1 by (simp add: completed_row_def result_row_def)
  moreover have "j_RunID j \<in> run_ID ` set (workflow_runs (db w1))" using assms(3) j runs1 by auto
  moreover have "length (jobs (db w1)) < fuel" unfolding jobs1 using assms(4) by simp
  ultimately obtain ts w' where gate: "run_state (gateRun fuel s (j_RunID j)) w1 = (Some (Inr ()), w')"
    "gate_outcome s (j_RunID j) w1 ts w'"
    using gateRun_solo [OF E, of w1 fuel "j_RunID j"] assms(2) by metis
  have "run_state (CompleteJob fuel s md req) w = (Some (Inr ()), w')"
    using assms(5-12) rec(1) gate(1) run_authorize [OF E assms(8), of "w\<lparr>tick := Suc (tick w)\<rparr>" rn tok]
    by (simp add: CompleteJob_def resolve_solo [OF E])
  moreover have "completion_recorded j result (clock (svc_env s) (tick ?w)) (cj_Outputs req) w w1"
    using rec(2) by (simp add: completion_recorded_def)
  ultimately show ?thesis using gate(2) by blast
qed

text \<open>
  C6: what \<open>CompleteJob\<close> does for the runner that holds the lease. It succeeds; the row of
  the lease's job takes the reported result and a finish time, and its status becomes the
  result if it was leased or running; each reported output reads back with its new value and
  the others with their old one; no other job row changes before the gate then skips the
  doomed jobs of the run, rolls the run up and reports it. The roll-up is the code's
  (\<open>rollup\<close>): failure if a job failed, else success if every job succeeded or was skipped, else
  cancelled. The comment above \<open>CompleteJob\<close> promises success only if every job succeeded, so
  that a run with a skipped job would end as cancelled; \<open>finalizeRunIfComplete\<close> does not do that.
\<close>

theorem CompleteJob_spec:
  assumes "solo (svc_env s)" and "distinct (map j_ID (jobs (db w)))"
    and "j_RunID ` set (jobs (db w)) \<subseteq> run_ID ` set (workflow_runs (db w))"
    and "length (jobs (db w)) < fuel"
    and "bearerToken md = Inr tok" and "uuid_parse s (cj_LeaseId req) = Some l"
    and "find (\<lambda>j. j_LeaseID j = Some l) (jobs (db w)) = Some j" and "j_RunnerID j = Some rid"
    and "find (\<lambda>r. rn_ID r = rid) (runners (db w)) = Some rn" and "validToken tok (rn_AuthToken rn)"
    and "phaseToResult (cj_Result req) = Inr result" and "isTerminalStatus result"
  shows "\<exists>t w1 ts w'. run_state (CompleteJob fuel s md req) w = (Some (Inr ()), w') \<and>
    completion_recorded j result t (cj_Outputs req) w w1 \<and> gate_outcome s (j_RunID j) w1 ts w'"
  by (rule CompleteJob_solo [OF assms])

definition running_build :: "Job list" where
  "running_build = [(lease_row 50 7 30000000 0 (sample_job 11 ''build'' []))\<lparr>j_Status := ''running''\<rparr>,
     sample_job 12 ''test'' [''build'']]"

definition sample_completion :: "Phase \<Rightarrow> CompleteJobRequest" where
  "sample_completion p = \<lparr>cj_LeaseId = ''50'', cj_Result = p, cj_Outputs = [(''k'', ''v'')]\<rparr>"

theorem CompleteJob_spec_witness:
  "\<exists>t w1 ts w'. run_state (CompleteJob 3 sample_service (Some [''Bearer tok'']) (sample_completion PHASE_FAILURE))
     (world_with (db_with running_build)) = (Some (Inr ()), w') \<and>
     completion_recorded (hd running_build) ''failure'' t [(''k'', ''v'')] (world_with (db_with running_build)) w1 \<and>
     gate_outcome sample_service 1 w1 ts w'"
proof -
  have p: "ParseInt ''50'' = Some 50" by code_simp
  have "find (\<lambda>j. j_LeaseID j = Some 50) (jobs (db (world_with (db_with running_build)))) = Some (hd running_build)"
    "j_RunID (hd running_build) = 1"
    by (simp_all add: running_build_def sample_defs lease_row_def)
  then show ?thesis
    using CompleteJob_spec [of sample_service "world_with (db_with running_build)" 3 "Some [''Bearer tok'']" "''tok''"
        "sample_completion PHASE_FAILURE" 50 "hd running_build" 7 sample_runner "''failure''"]
    by (simp add: bearerToken_Inr sample_completion_def p phaseToResult_def validToken_def isTerminalStatus_def
        terminalJobStatuses_def running_build_def sample_defs lease_row_def)
qed

text \<open>
  A completion that is repeated with another result overwrites the job's result but not
  its status. After a first report of failure and a second of success for the same lease, the
  row has status failure and result success, and the needs of a dependent are told success.
\<close>

lemma CompleteJob_repeated_diverges:
  "let w1 = snd (run_state (CompleteJob 3 sample_service (Some [''Bearer tok'']) (sample_completion PHASE_FAILURE))
              (world_with (db_with running_build)));
       w2 = snd (run_state (CompleteJob 3 sample_service (Some [''Bearer tok'']) (sample_completion PHASE_SUCCESS)) w1)
   in j_Status (hd (jobs (db w2))) = ''failure'' \<and> j_Result (hd (jobs (db w2))) = Some ''success''"
  by code_simp

end
