(* ===== verification/Lease_Recovery.thy ===== *)
theory Lease_Recovery
  imports Completion_Spec
begin

text \<open>
  What becomes of a job whose runner is gone. The lease reaper of
  \<open>internal/dispatch/queue.go\<close> runs on a ticker; a job that is still leased is queued again
  by the first tick after its deadline, and the old lease is dead from then on. A job that is
  already running is never given to anybody else.
\<close>

subsection \<open>Ticks in time\<close>

text \<open>Times are in microseconds.\<close>


text \<open>The service at a moment when the clock shows \<open>t\<close>.\<close>

definition at_time :: "time \<Rightarrow> Service \<Rightarrow> Service" where
  "at_time t s = s\<lparr>svc_env := (svc_env s)\<lparr>clock := \<lambda>_. t\<rparr>\<rparr>"

lemma at_time_simps [simp]:
  "clock (svc_env (at_time t s)) = (\<lambda>_. t)" "solo (svc_env (at_time t s)) = solo (svc_env s)"
  by (simp_all add: at_time_def solo_def)

text \<open>The first \<open>n\<close> ticks of a reaper started at \<open>t\<close>: a ticker fires after each interval.\<close>

fun reaper_from :: "Service \<Rightarrow> time \<Rightarrow> nat \<Rightarrow> (world, unit) state" where
  "reaper_from s t 0 = ret ()"
| "reaper_from s t (Suc n) = do {
     reap_leases (at_time (t + jobReaperInterval) s);
     reaper_from s (t + jobReaperInterval) n
   }"

definition requeue_at :: "time \<Rightarrow> Job \<Rightarrow> Job" where
  "requeue_at t j = (if lease_expired t j then requeue_row j else j)"

lemma reap_leases_at:
  assumes "solo (svc_env s)"
  shows "jobs (db (snd (run_state (reap_leases (at_time t s)) w))) = map (requeue_at t) (jobs (db w))"
  using assms by (simp add: reap_leases_def RequeueExpired_def run_statement_solo sql_RequeueExpired_def Notify_def
      update_where_def requeue_at_def)

lemma requeue_at_later:
  "requeue_at t' (requeue_at t j) = (if lease_expired t j then requeue_row j else requeue_at t' j)"
  by (simp add: requeue_at_def requeue_row_def lease_expired_def)

text \<open>A row goes unchanged through the ticks up to its deadline, and is queued by the first after it.\<close>

lemma reaper_from_jobs:
  assumes "solo (svc_env s)"
  shows "jobs (db (snd (run_state (reaper_from s t n) w))) =
    map (if n = 0 then id else requeue_at (t + int n * jobReaperInterval)) (jobs (db w))"
proof (induction n arbitrary: t w)
  case (Suc n)
  let ?t = "t + jobReaperInterval"
  have "requeue_at (?t + int n * jobReaperInterval) (requeue_at ?t j) = requeue_at (?t + int n * jobReaperInterval) j" for j
  proof (cases "lease_expired ?t j")
    case True
    have "0 \<le> int n * jobReaperInterval" by (simp add: jobReaperInterval_def)
    with True have "lease_expired (?t + int n * jobReaperInterval) j"
      by (auto simp: lease_expired_def split: option.splits)
    with True show ?thesis by (simp add: requeue_at_later) (simp add: requeue_at_def)
  qed (simp add: requeue_at_later)
  moreover have "t + int (Suc n) * jobReaperInterval = ?t + int n * jobReaperInterval" by (simp add: algebra_simps)
  ultimately show ?case
    by (cases "n = 0") (simp_all add: split_beta Suc.IH reap_leases_at [OF assms] comp_def add.assoc)
qed simp

subsection \<open>A leased job comes back\<close>

lemma stale_lease_ignored:
  assumes E: "solo (svc_env s)" and "\<forall>r\<in>set (jobs (db w)). j_LeaseID r \<noteq> Some l"
  shows "uuid_parse s (cj_LeaseId req) = Some l \<Longrightarrow> db (snd (run_state (CompleteJob fuel s md req) w)) = db w"
    and "uuid_parse s (su_LeaseId upd) = Some l \<Longrightarrow> db (snd (run_state (ReportStatus s md upd) w)) = db w"
proof -
  have none: "find (\<lambda>j. j_LeaseID j = Some l) (jobs (db w)) = None" using assms(2) by (auto simp: find_None_iff)
  show "uuid_parse s (cj_LeaseId req) = Some l \<Longrightarrow> db (snd (run_state (CompleteJob fuel s md req) w)) = db w"
    by (cases "bearerToken md") (simp_all add: CompleteJob_def resolve_solo [OF E] none)
  show "uuid_parse s (su_LeaseId upd) = Some l \<Longrightarrow> db (snd (run_state (ReportStatus s md upd) w)) = db w"
    by (cases "bearerToken md") (simp_all add: ReportStatus_def resolve_solo [OF E] none)
qed

text \<open>
  C10: a lease nobody renews ends in time. The reaper, started before the deadline and alone on
  the database, leaves the job alone up to the deadline; its first tick after it, at most one
  interval later, queues the job again. From then on the old lease is dead: a completion or a
  status the lost runner still sends under it changes nothing.
\<close>

theorem expired_lease_recovered:
  assumes "solo (svc_env s)" and "j \<in> set (jobs (db w))" and "j_Status j = ''leased''"
    and "j_LeaseID j = Some l" and "j_LeaseDeadline j = Some D" and "\<forall>r\<in>set (jobs (db w)). j_LeaseID r = Some l \<longrightarrow> r = j"
    and "t \<le> D" and "k = nat ((D - t) div jobReaperInterval)"
    and "uuid_parse s (cj_LeaseId req) = Some l" and "uuid_parse s (su_LeaseId upd) = Some l"
  shows "let w1 = snd (run_state (reaper_from s t k) w); w2 = snd (run_state (reaper_from s t (Suc k)) w) in
    j \<in> set (jobs (db w1)) \<and> requeue_row j \<in> set (jobs (db w2)) \<and>
    t + int (Suc k) * jobReaperInterval \<le> D + jobReaperInterval \<and>
    db (snd (run_state (CompleteJob fuel s md req) w2)) = db w2 \<and> db (snd (run_state (ReportStatus s md upd) w2)) = db w2"
proof -
  let ?I = jobReaperInterval
  let ?w1 = "snd (run_state (reaper_from s t k) w)" and ?w2 = "snd (run_state (reaper_from s t (Suc k)) w)"
  have q: "int k = (D - t) div ?I" using assms(7,8) by (simp add: jobReaperInterval_def pos_imp_zdiv_nonneg_iff)
  have le: "t + int k * ?I \<le> D" and gt: "D < t + int (Suc k) * ?I"
    using q by (simp_all add: jobReaperInterval_def)
  have jobs2: "jobs (db ?w2) = map (requeue_at (t + int (Suc k) * ?I)) (jobs (db w))"
    using reaper_from_jobs [OF assms(1), of t "Suc k" w] by (simp del: reaper_from.simps of_nat_Suc)
  have "j \<in> set (jobs (db ?w1))"
    using assms(2,5) le unfolding reaper_from_jobs [OF assms(1)]
    by (auto simp: requeue_at_def lease_expired_def intro!: rev_image_eqI [of j])
  moreover have exp: "requeue_at (t + int (Suc k) * ?I) j = requeue_row j"
    using assms(3,5) gt by (simp add: requeue_at_def lease_expired_def del: of_nat_Suc)
  then have "requeue_row j \<in> set (jobs (db ?w2))"
    unfolding jobs2 using assms(2) by (auto intro!: rev_image_eqI [of j] simp del: of_nat_Suc)
  moreover have "\<forall>r\<in>set (jobs (db ?w2)). j_LeaseID r \<noteq> Some l"
  proof
    fix r' assume "r' \<in> set (jobs (db ?w2))"
    then obtain r where r: "r \<in> set (jobs (db w))" "r' = requeue_at (t + int (Suc k) * ?I) r" unfolding jobs2 by auto
    show "j_LeaseID r' \<noteq> Some l"
    proof (cases "r = j")
      case True
      with r(2) exp show ?thesis by (simp add: requeue_row_def)
    next
      case False
      with assms(6) r show ?thesis by (auto simp: requeue_at_def requeue_row_def)
    qed
  qed
  note dead = stale_lease_ignored [OF assms(1) this]
  moreover have "t + int (Suc k) * ?I \<le> D + ?I" using le by (simp add: algebra_simps)
  ultimately show ?thesis using dead(1) [OF assms(9)] dead(2) [OF assms(10)] unfolding Let_def by blast
qed

subsection \<open>A running job does not\<close>

definition keeps_row :: "Job \<Rightarrow> database \<Rightarrow> database \<Rightarrow> bool" where
  "keeps_row j d d' \<longleftrightarrow> (j \<in> set (jobs d) \<longrightarrow> j \<in> set (jobs d'))"

interpretation kept: db_preorder "keeps_row j" for j
  by unfold_locales (auto simp: keeps_row_def)

fun reapers :: "Service \<Rightarrow> (nat + nat) list \<Rightarrow> (world, unit) state" where
  "reapers s [] = ret ()"
| "reapers s (Inl n # ts) = do { StartJobReaper s n; reapers s ts }"
| "reapers s (Inr n # ts) = do { RunReaper s n; reapers s ts }"

lemma reapers_keep_running:
  assumes "kept.rely j (svc_env s)" and "j_Status j = ''running''"
  shows "kept.guar j (reapers s ts)"
proof -
  have r1: "keeps_row j d (snd (sql_RequeueExpired cutoff t d))" for d cutoff t
    using assms(2) by (auto simp: keeps_row_def sql_RequeueExpired_def update_where_def lease_expired_def intro!: rev_image_eqI [of j])
  have r2: "keeps_row j d (snd (sql_MarkStaleOffline cutoff t d))" for d cutoff t
    by (simp add: keeps_row_def sql_MarkStaleOffline_def)
  have stmts: "kept.guar j (RequeueExpired (svc_env s) c)" "kept.guar j (MarkStaleOffline (svc_env s) c)" for c
    unfolding RequeueExpired_def MarkStaleOffline_def by (rule kept.guar_statement [OF assms(1)], rule r1 r2)+
  have notify: "kept.guar j Notify" unfolding Notify_def by (rule kept.guar_memory) simp
  have leases: "kept.guar j (StartJobReaper s n)" for n
    by (induction n) (auto simp: reap_leases_def intro!: kept.guar_rules stmts notify)
  have "kept.guar j (reaper_ticks s stale n)" for stale n
    by (induction n) (auto simp: reap_runners_def intro!: kept.guar_rules stmts)
  then have runners: "kept.guar j (RunReaper s n)" for n
    unfolding RunReaper_def by (intro kept.guar_rules) auto
  show ?thesis
  proof (induction ts)
    case (Cons a ts)
    then show ?case by (cases a) (auto intro!: kept.guar_rules leases runners)
  qed (simp add: kept.guar_ret)
qed

text \<open>
  C11: a running job whose runner is lost stays running for ever. Whatever the two reapers do,
  with any deadline passed and the runner marked offline, and with other sessions that leave
  the job alone, its row does not change, and so its run never rolls up to a final status.
\<close>

theorem running_job_never_recovered:
  assumes "\<forall>n d. keeps_row j d (other (svc_env s) n d)" and "j \<in> set (jobs (db w))" and "j_Status j = ''running''"
  shows "let d' = db (snd (run_state (reapers s ts) w)) in
    j \<in> set (jobs d') \<and> rollup (jobs_of_run (j_RunID j) d') = None"
proof -
  have "kept.rely j (svc_env s)" using assms(1) by (simp add: kept.rely_def)
  from kept.guarD [OF reapers_keep_running [OF this assms(3)] prod.collapse [symmetric], of w ts]
  have j: "j \<in> set (jobs (db (snd (run_state (reapers s ts) w))))" using assms(2) by (simp add: keeps_row_def)
  moreover have "\<not> isTerminalStatus ''running''" by (simp add: isTerminalStatus_def terminalJobStatuses_def)
  ultimately show ?thesis using assms(3) by (auto simp: Let_def rollup_def intro!: bexI [of _ j])
qed

theorem running_job_never_recovered_witness:
  "let d' = db (snd (run_state (reapers sample_service [Inl 100, Inr 100]) (world_with (db_with running_build)))) in
     hd running_build \<in> set (jobs d') \<and> rollup (jobs_of_run 1 d') = None"
proof -
  have "\<forall>n d. keeps_row (hd running_build) d (other (svc_env sample_service) n d)"
    by (simp add: sample_env_def keeps_row_def)
  moreover have "hd running_build \<in> set (jobs (db (world_with (db_with running_build))))" "j_Status (hd running_build) = ''running''"
    "j_RunID (hd running_build) = 1"
    by (simp_all add: running_build_def world_with_def db_with_def lease_row_def sample_job_def)
  ultimately show ?thesis
    using running_job_never_recovered [of "hd running_build" sample_service "world_with (db_with running_build)" "[Inl 100, Inr 100]"]
    by metis
qed

definition lost_build :: Job where
  "lost_build = lease_row 50 7 30000000 0 (sample_job 11 ''build'' [])"

theorem expired_lease_recovered_witness:
  "requeue_row lost_build \<in> set (jobs (db (snd (run_state (reaper_from sample_service 0 7) (world_with (db_with [lost_build]))))))"
proof -
  have p: "ParseInt ''50'' = Some 50" by code_simp
  have l: "lost_build \<in> set (jobs (db (world_with (db_with [lost_build]))))" "j_Status lost_build = ''leased''"
    "j_LeaseID lost_build = Some 50" "j_LeaseDeadline lost_build = Some 30000000"
    "\<forall>r\<in>set (jobs (db (world_with (db_with [lost_build])))). j_LeaseID r = Some 50 \<longrightarrow> r = lost_build"
    by (simp_all add: lost_build_def world_with_def db_with_def lease_row_def)
  have k: "6 = nat ((30000000 - 0) div jobReaperInterval)" by (simp add: jobReaperInterval_def)
  have "uuid_parse sample_service (cj_LeaseId \<lparr>cj_LeaseId = ''50'', cj_Result = PHASE_SUCCESS, cj_Outputs = []\<rparr>) = Some 50"
    "uuid_parse sample_service (su_LeaseId \<lparr>su_LeaseId = ''50'', su_StepId = [], su_StepName = [], su_StepIndex = 0, su_Phase = PHASE_RUNNING,
       su_TsUnix = 0\<rparr>) = Some 50"
    by (simp_all add: p)
  from expired_lease_recovered [OF _ l _ k this] show ?thesis unfolding Let_def by simp
qed

end
