(* ===== verification/Runner_Spec.thy ===== *)
theory Runner_Spec
  imports Service_Spec
begin

text \<open>
  The runner's side of the dispatch service: registration gives credentials that authenticate,
  heartbeats renew exactly the runner's own leases, and log chunks sent again change nothing.
\<close>

subsection \<open>Heartbeats\<close>

definition unique_leases :: "Job list \<Rightarrow> bool" where
  "unique_leases js \<longleftrightarrow> (\<forall>a\<in>set js. \<forall>b\<in>set js. j_LeaseID a \<noteq> None \<and> j_LeaseID a = j_LeaseID b \<longrightarrow> a = b)"

definition renewed :: "uuid \<Rightarrow> uuid set \<Rightarrow> time \<Rightarrow> Job \<Rightarrow> Job" where
  "renewed rid L deadline j =
     (if j_RunnerID j = Some rid \<and> j_LeaseID j \<in> Some ` L then j\<lparr>j_LeaseDeadline := Some deadline\<rparr> else j)"

definition parsed :: "Service \<Rightarrow> string list \<Rightarrow> uuid set" where
  "parsed s raws = {l. \<exists>raw\<in>set raws. uuid_parse s raw = Some l}"

lemma renewed_empty [simp]: "renewed rid {} deadline = (\<lambda>j. j)"
  by (simp add: renewed_def fun_eq_iff)

lemma renewed_renewed: "renewed rid L2 deadline (renewed rid L1 deadline j) = renewed rid (L1 \<union> L2) deadline j"
  by (auto simp: renewed_def)

lemma unique_renewed: "unique_leases js \<Longrightarrow> unique_leases (map (renewed rid L deadline) js)"
proof -
  have "j_LeaseID (renewed rid L deadline j) = j_LeaseID j" for j by (simp add: renewed_def)
  then show "unique_leases js \<Longrightarrow> ?thesis" by (auto simp: unique_leases_def)
qed

text \<open>One reported lease.\<close>

lemma renew_one:
  assumes "unique_leases js"
  shows "map (renewed rid {l} deadline) js =
    (case find (\<lambda>j. j_LeaseID j = Some l) js of
       None \<Rightarrow> js
     | Some job \<Rightarrow>
         if j_RunnerID job \<noteq> Some rid then js
         else update_where (\<lambda>j. j_LeaseID j = Some l) (\<lambda>j. j\<lparr>j_LeaseDeadline := Some deadline\<rparr>) js)"
proof (cases "find (\<lambda>j. j_LeaseID j = Some l) js")
  case None
  then have "map (renewed rid {l} deadline) js = js" by (auto simp: find_None_iff renewed_def intro!: map_idI)
  with None show ?thesis by simp
next
  case (Some job)
  then have "job \<in> set js" "j_LeaseID job = Some l" using find_Some_set by fastforce+
  then have "\<forall>j\<in>set js. j_LeaseID j = Some l \<longrightarrow> j = job" using assms by (auto simp: unique_leases_def)
  with Some show ?thesis by (auto simp: renewed_def update_where_def intro!: map_idI)
qed

lemma run_RenewLease:
  assumes "solo E"
  shows "\<exists>r. run_state (RenewLease E l deadline) w = (r,
    w\<lparr>db := (db w)\<lparr>jobs := update_where (\<lambda>j. j_LeaseID j = Some l) (\<lambda>j. j\<lparr>j_LeaseDeadline := Some deadline\<rparr>) (jobs (db w))\<rparr>,
      tick := Suc (tick w)\<rparr>)"
  by (simp add: RenewLease_def run_statement_solo [OF assms] sql_RenewLease_def update_jobs_def rows_affected_0
      update_where_none)

lemma run_UpdateHeartbeat:
  assumes "solo E" and "rn \<in> set (runners (db w))"
  shows "run_state (UpdateHeartbeat E (rn_ID rn) at) w = (Inr (),
    w\<lparr>db := (db w)\<lparr>runners := update_where (\<lambda>r. rn_ID r = rn_ID rn) (\<lambda>r. r\<lparr>rn_LastHeartbeat := Some at\<rparr>) (runners (db w))\<rparr>,
      tick := Suc (tick w)\<rparr>)"
proof -
  have "rows_affected (\<lambda>r. rn_ID r = rn_ID rn) (runners (db w)) \<noteq> 0" using assms(2) by (auto simp: rows_affected_0)
  then show ?thesis
    by (simp add: UpdateHeartbeat_def run_statement_solo [OF assms(1)] sql_UpdateHeartbeat_def update_runners_def)
qed

lemma run_SetStatus:
  assumes "solo E" and "rows_affected (\<lambda>r. rn_ID r = rid) (runners (db w)) \<noteq> 0"
  shows "run_state (SetStatus E rid st) w = (Inr (),
    w\<lparr>db := (db w)\<lparr>runners := update_where (\<lambda>r. rn_ID r = rid) (\<lambda>r. r\<lparr>rn_Status := st\<rparr>) (runners (db w))\<rparr>,
      tick := Suc (tick w)\<rparr>)"
  using assms(2) by (simp add: SetStatus_def run_statement_solo [OF assms(1)] sql_SetStatus_def update_runners_def)

lemma run_renew_loop:
  assumes "solo (svc_env s)" and "unique_leases (jobs (db w))"
  shows "\<exists>n. run_state (renew_loop s rid deadline raws) w =
    ((), w\<lparr>db := (db w)\<lparr>jobs := map (renewed rid (parsed s raws) deadline) (jobs (db w))\<rparr>, tick := n\<rparr>)"
  using assms(2)
proof (induction raws arbitrary: w)
  case Nil
  have "parsed s [] = {}" by (simp add: parsed_def)
  then show ?case by (intro exI [of _ "tick w"]) simp
next
  case (Cons raw raws)
  show ?case
  proof (cases "uuid_parse s raw")
    case None
    then have "parsed s (raw # raws) = parsed s raws" by (simp add: parsed_def)
    with None Cons show ?thesis by simp
  next
    case (Some l)
    then have P: "parsed s (raw # raws) = {l} \<union> parsed s raws" by (auto simp: parsed_def)
    let ?js = "map (renewed rid {l} deadline) (jobs (db w))"
    obtain m where step: "run_state (renew_loop s rid deadline (raw # raws)) w =
        run_state (renew_loop s rid deadline raws) (w\<lparr>db := (db w)\<lparr>jobs := ?js\<rparr>, tick := m\<rparr>)"
    proof (cases "find (\<lambda>j. j_LeaseID j = Some l) (jobs (db w))")
      case None
      with Some that [of "Suc (tick w)"] show thesis
        unfolding renew_one [OF Cons.prems] by (simp add: run_GetByLease assms(1) first_row_def)
    next
      case (Some job)
      note l = \<open>uuid_parse s raw = Some l\<close>
      show thesis
      proof (cases "j_RunnerID job = Some rid")
        case True
        obtain r where "run_state (RenewLease (svc_env s) l deadline) (w\<lparr>tick := Suc (tick w)\<rparr>) = (r,
            w\<lparr>db := (db w)\<lparr>jobs := update_where (\<lambda>j. j_LeaseID j = Some l) (\<lambda>j. j\<lparr>j_LeaseDeadline := Some deadline\<rparr>) (jobs (db w))\<rparr>,
              tick := Suc (Suc (tick w))\<rparr>)"
          using run_RenewLease [OF assms(1), of l deadline "w\<lparr>tick := Suc (tick w)\<rparr>"] by auto
        with l Some True that [of "Suc (Suc (tick w))"] show thesis
          unfolding renew_one [OF Cons.prems] by (simp add: run_GetByLease assms(1) first_row_def)
      next
        case False
        with l Some that [of "Suc (tick w)"] show thesis
          unfolding renew_one [OF Cons.prems] by (simp add: run_GetByLease assms(1) first_row_def)
      qed
    qed
    show ?thesis
      using Cons.IH [of "w\<lparr>db := (db w)\<lparr>jobs := ?js\<rparr>, tick := m\<rparr>"] unique_renewed [OF Cons.prems]
      unfolding step P by (simp add: renewed_renewed comp_def)
  qed
qed

lemma run_heartbeat:
  assumes "solo (svc_env s)" and "unique_leases (jobs (db w))" and "distinct (map rn_ID (runners (db w)))"
    and "uuid_parse s (hp_RunnerId ping) = Some rid"
    and "rn \<in> set (runners (db w))" and "rn_ID rn = rid" and "validToken tok (rn_AuthToken rn)"
  shows "\<exists>ack now w'. run_state (heartbeat_ping s tok ping) w = (Inr ack, w') \<and>
    ha_NextIntervalSeconds ack = wrap32 (HeartbeatIntervalSeconds (cfg s)) \<and>
    runners (db w') = map (\<lambda>r. if r = rn then r\<lparr>rn_LastHeartbeat := Some now, rn_Status := ''online''\<rparr> else r) (runners (db w)) \<and>
    jobs (db w') = map (renewed rid (parsed s (hp_ActiveLeaseIds ping)) (add_time now (leaseTTL s))) (jobs (db w))"
proof -
  note E = assms(1)
  let ?now = "clock (svc_env s) (Suc (tick w))"
  have row: "find (\<lambda>r. rn_ID r = rid) (runners (db w)) = Some rn"
    using find_unique_key [OF assms(3,5)] assms(6) by simp
  have hit: "rows_affected (\<lambda>r. rn_ID r = rid) (runners (db w)) \<noteq> 0" using assms(5,6) by (auto simp: rows_affected_0)
  define rs1 where "rs1 = update_where (\<lambda>r. rn_ID r = rid) (\<lambda>r. r\<lparr>rn_LastHeartbeat := Some ?now\<rparr>) (runners (db w))"
  define rs2 where "rs2 = (if rn_Status rn \<noteq> ''online''
    then update_where (\<lambda>r. rn_ID r = rid) (\<lambda>r. r\<lparr>rn_Status := ''online''\<rparr>) rs1 else rs1)"
  have rs2: "rs2 = map (\<lambda>r. if r = rn then r\<lparr>rn_LastHeartbeat := Some ?now, rn_Status := ''online''\<rparr> else r) (runners (db w))"
  proof -
    have key: "rn_ID r = rid \<longleftrightarrow> r = rn" if "r \<in> set (runners (db w))" for r
      using row_by_id [OF assms(3) that assms(5)] assms(6) by auto
    have all: "update_where (\<lambda>r. rn_ID r = rid) (\<lambda>r. r\<lparr>rn_Status := ''online''\<rparr>) rs1 =
        map (\<lambda>r. if r = rn then r\<lparr>rn_LastHeartbeat := Some ?now, rn_Status := ''online''\<rparr> else r) (runners (db w))"
      using key by (simp add: rs1_def update_where_def)
    have "rs1 = map (\<lambda>r. if r = rn then r\<lparr>rn_LastHeartbeat := Some ?now, rn_Status := ''online''\<rparr> else r) (runners (db w))"
      if "rn_Status rn = ''online''"
    proof -
      have "rn\<lparr>rn_Status := ''online''\<rparr> = rn" using that [symmetric] by simp
      then have "rn\<lparr>rn_LastHeartbeat := Some ?now, rn_Status := ''online''\<rparr> = rn\<lparr>rn_LastHeartbeat := Some ?now\<rparr>"
        using that by (cases rn) simp
      with key show ?thesis by (simp add: rs1_def update_where_def)
    qed
    with all show ?thesis by (simp add: rs2_def)
  qed
  have hit1: "rows_affected (\<lambda>r. rn_ID r = rid) rs1 \<noteq> 0" using hit by (simp add: rs1_def rows_affected_key)
  obtain n where upto: "run_state (heartbeat_ping s tok ping) w =
      run_state (do { renewActiveLeases s rid (hp_ActiveLeaseIds ping) ?now;
                      ret (Inr \<lparr>ha_NextIntervalSeconds = wrap32 (HeartbeatIntervalSeconds (cfg s)), ha_CancelLeaseIds = None\<rparr>) })
        (w\<lparr>db := (db w)\<lparr>runners := rs2\<rparr>, tick := n\<rparr>)"
  proof -
    note upd = run_UpdateHeartbeat [OF E, of rn "w\<lparr>tick := Suc (Suc (tick w))\<rparr>" ?now, simplified, OF assms(5), unfolded assms(6),
        folded rs1_def]
    note sst = run_SetStatus [OF E, of rid "w\<lparr>db := (db w)\<lparr>runners := rs1\<rparr>, tick := Suc (Suc (Suc (tick w)))\<rparr>" "''online''", simplified]
    show thesis
    proof (cases "rn_Status rn = ''online''")
      case True
      with that [of "Suc (Suc (Suc (tick w)))"] show thesis
        by (simp add: heartbeat_ping_def run_GetByID [OF E] first_row_def row assms(4,7) upd rs2_def)
    next
      case False
      with that [of "Suc (Suc (Suc (Suc (tick w))))"] hit1 show thesis
        by (simp add: heartbeat_ping_def run_GetByID [OF E] first_row_def row assms(4,7) upd sst rs2_def)
    qed
  qed
  let ?w = "w\<lparr>db := (db w)\<lparr>runners := rs2\<rparr>, tick := n\<rparr>"
  obtain m where renew: "run_state (renewActiveLeases s rid (hp_ActiveLeaseIds ping) ?now) ?w = ((),
      ?w\<lparr>db := (db ?w)\<lparr>jobs := map (renewed rid (parsed s (hp_ActiveLeaseIds ping)) (add_time ?now (leaseTTL s))) (jobs (db ?w))\<rparr>, tick := m\<rparr>)"
  proof (cases "hp_ActiveLeaseIds ping")
    case Nil
    then have "parsed s (hp_ActiveLeaseIds ping) = {}" by (simp add: parsed_def)
    with Nil that [of n] show thesis by (simp add: renewActiveLeases_def)
  next
    case (Cons x xs)
    with run_renew_loop [OF E, of ?w rid "add_time ?now (leaseTTL s)" "hp_ActiveLeaseIds ping"] assms(2) that
    show thesis by (auto simp: renewActiveLeases_def)
  qed
  show ?thesis using upto renew rs2 by auto
qed

text \<open>
  C31: a heartbeat, alone on the database, from a runner with a valid token. It is
  acknowledged with the configured interval; the runner's row takes the time of the heartbeat
  and status online; of the reported leases exactly those the runner holds get the deadline
  one lease duration from now, and no other job row changes.
\<close>

theorem heartbeat_renews_own_leases:
  assumes "solo (svc_env s)" and "unique_leases (jobs (db w))" and "distinct (map rn_ID (runners (db w)))"
    and "uuid_parse s (hp_RunnerId ping) = Some rid"
    and "rn \<in> set (runners (db w))" and "rn_ID rn = rid" and "validToken tok (rn_AuthToken rn)"
  shows "\<exists>ack now w'. run_state (heartbeat_ping s tok ping) w = (Inr ack, w') \<and>
    ha_NextIntervalSeconds ack = wrap32 (HeartbeatIntervalSeconds (cfg s)) \<and>
    runners (db w') = map (\<lambda>r. if r = rn then r\<lparr>rn_LastHeartbeat := Some now, rn_Status := ''online''\<rparr> else r) (runners (db w)) \<and>
    jobs (db w') = map (renewed rid (parsed s (hp_ActiveLeaseIds ping)) (add_time now (leaseTTL s))) (jobs (db w))"
  by (rule run_heartbeat [OF assms])

theorem heartbeat_renews_own_leases_witness:
  "\<exists>ack w'. run_state (heartbeat_ping sample_service ''tok'' \<lparr>hp_RunnerId = ''7'', hp_ActiveLeaseIds = [''50'']\<rparr>)
     (world_with (db_with [lease_row 50 7 5 0 (sample_job 11 ''build'' [])])) = (Inr ack, w') \<and>
     (\<exists>now. map j_LeaseDeadline (jobs (db w')) = [Some (add_time now (leaseTTL sample_service))])"
proof -
  have p: "ParseInt ''50'' = Some 50" "ParseInt ''7'' = Some 7" by code_simp+
  show ?thesis
    using heartbeat_renews_own_leases [of sample_service "world_with (db_with [lease_row 50 7 5 0 (sample_job 11 ''build'' [])])"
        "\<lparr>hp_RunnerId = ''7'', hp_ActiveLeaseIds = [''50'']\<rparr>" 7 sample_runner "''tok''"]
    by (auto simp: p unique_leases_def validToken_def sample_defs lease_row_def renewed_def parsed_def)
qed

subsection \<open>Log retries\<close>

definition lease_job :: "database \<Rightarrow> uuid \<Rightarrow> Job option" where
  "lease_job d l = find (\<lambda>j. j_LeaseID j = Some l) (jobs d)"

definition authorized :: "string \<Rightarrow> database \<Rightarrow> Job \<Rightarrow> bool" where
  "authorized tok d job \<longleftrightarrow> (\<exists>rid rn. j_RunnerID job = Some rid \<and>
     find (\<lambda>r. rn_ID r = rid) (runners d) = Some rn \<and> validToken tok (rn_AuthToken rn))"

definition chunk_keys :: "database \<Rightarrow> (uuid \<times> int) set" where
  "chunk_keys d = (\<lambda>r. (lc_LeaseID r, lc_Seq r)) ` set (log_chunks d)"

text \<open>A chunk the stream takes, and one that is already stored (or belongs to no job).\<close>

definition takes :: "Service \<Rightarrow> string \<Rightarrow> database \<Rightarrow> LogChunk \<Rightarrow> bool" where
  "takes s tok d c \<longleftrightarrow> (\<exists>l. uuid_parse s (lk_LeaseId c) = Some l \<and>
     (\<forall>job. lease_job d l = Some job \<longrightarrow> authorized tok d job \<and> lk_Data c \<noteq> None))"

definition stored :: "Service \<Rightarrow> database \<Rightarrow> LogChunk \<Rightarrow> bool" where
  "stored s d c \<longleftrightarrow> (\<forall>l. uuid_parse s (lk_LeaseId c) = Some l \<longrightarrow> lease_job d l \<noteq> None \<longrightarrow>
     (l, lk_Seq c) \<in> chunk_keys d)"

definition cache_fits :: "string \<Rightarrow> database \<Rightarrow> (uuid \<rightharpoonup> Job option) \<Rightarrow> bool" where
  "cache_fits tok d resolved \<longleftrightarrow> (\<forall>l x. resolved l = Some x \<longrightarrow>
     x = lease_job d l \<and> (\<forall>job. x = Some job \<longrightarrow> authorized tok d job))"

text \<open>What appending chunks leaves alone.\<close>

definition logs_grow :: "database \<Rightarrow> database \<Rightarrow> bool" where
  "logs_grow d d' \<longleftrightarrow> jobs d' = jobs d \<and> runners d' = runners d \<and> chunk_keys d \<subseteq> chunk_keys d'"

lemma logs_grow_keeps:
  assumes "logs_grow d d'"
  shows "lease_job d' = lease_job d" "authorized tok d' = authorized tok d" "takes s tok d' = takes s tok d"
    "cache_fits tok d' = cache_fits tok d" "stored s d c \<Longrightarrow> stored s d' c"
  using assms by (auto simp: logs_grow_def lease_job_def authorized_def takes_def cache_fits_def stored_def fun_eq_iff)

lemma run_authorize_iff:
  assumes "solo (svc_env s)"
  shows "\<exists>r n. run_state (authorizeJobRunner s tok job) w = (r, w\<lparr>tick := n\<rparr>) \<and> (r = Inr () \<longleftrightarrow> authorized tok (db w) job)"
proof (cases "j_RunnerID job")
  case None
  then show ?thesis
    by (intro exI [of _ "Inl (Status FailedPrecondition)"] exI [of _ "tick w"]) (simp add: authorizeJobRunner_def authorized_def)
next
  case (Some rid)
  then show ?thesis
    by (cases "find (\<lambda>r. rn_ID r = rid) (runners (db w))")
      (auto simp: authorizeJobRunner_def authorized_def run_GetByID assms first_row_def)
qed

lemma run_resolve_cached:
  assumes E: "solo (svc_env s)" and fits: "cache_fits tok (db w) resolved"
  shows "\<exists>r n. run_state (resolve_cached s tok l resolved) w = (r, w\<lparr>tick := n\<rparr>) \<and>
    (if \<forall>job. lease_job (db w) l = Some job \<longrightarrow> authorized tok (db w) job
     then \<exists>resolved'. r = Inr (lease_job (db w) l, resolved') \<and> cache_fits tok (db w) resolved'
     else \<exists>e. r = Inl e)"
proof (cases "resolved l")
  case (Some x)
  then have "x = lease_job (db w) l" "\<forall>job. x = Some job \<longrightarrow> authorized tok (db w) job"
    using fits by (auto simp: cache_fits_def)
  with Some fits show ?thesis
    by (intro exI [of _ "Inr (x, resolved)"] exI [of _ "tick w"]) (auto simp: resolve_cached_def)
next
  case None
  show ?thesis
  proof (cases "lease_job (db w) l")
    case None
    then have "cache_fits tok (db w) (resolved(l \<mapsto> None))" using fits by (simp add: cache_fits_def)
    with None \<open>resolved l = None\<close> show ?thesis
      by (auto simp: resolve_cached_def resolve_solo [OF E] lease_job_def)
  next
    case (Some job)
    obtain r n where auth: "run_state (authorizeJobRunner s tok job) (w\<lparr>tick := Suc (tick w)\<rparr>) = (r, w\<lparr>tick := n\<rparr>)"
      "r = Inr () \<longleftrightarrow> authorized tok (db w) job"
      using run_authorize_iff [OF E, of tok job "w\<lparr>tick := Suc (tick w)\<rparr>"] by auto
    have "cache_fits tok (db w) (resolved(l \<mapsto> Some job))" if "r = Inr ()"
      using fits Some auth(2) that by (simp add: cache_fits_def)
    with Some None auth show ?thesis
      by (cases r) (auto simp: resolve_cached_def resolve_solo [OF E] lease_job_def)
  qed
qed

lemma log_chunk_taken:
  assumes E: "solo (svc_env s)" and fits: "cache_fits tok (db w) resolved"
    and run: "run_state (log_chunk s tok resolved c) w = (Inr resolved', w')"
  shows "takes s tok (db w) c \<and> logs_grow (db w) (db w') \<and> stored s (db w') c \<and> cache_fits tok (db w') resolved'"
proof -
  obtain l where l: "uuid_parse s (lk_LeaseId c) = Some l"
    using run by (cases "uuid_parse s (lk_LeaseId c)") (auto simp: log_chunk_def)
  obtain r n where r: "run_state (resolve_cached s tok l resolved) w = (r, w\<lparr>tick := n\<rparr>)"
    "if \<forall>job. lease_job (db w) l = Some job \<longrightarrow> authorized tok (db w) job
     then \<exists>res. r = Inr (lease_job (db w) l, res) \<and> cache_fits tok (db w) res else \<exists>e. r = Inl e"
    using run_resolve_cached [OF E fits] by blast
  have auth: "\<forall>job. lease_job (db w) l = Some job \<longrightarrow> authorized tok (db w) job"
    using run l r by (auto simp: log_chunk_def split: if_splits)
  with r(2) obtain res where res: "r = Inr (lease_job (db w) l, res)" "cache_fits tok (db w) res" by auto
  show ?thesis
  proof (cases "lease_job (db w) l")
    case None
    with run l r(1) res show ?thesis
      by (auto simp: log_chunk_def takes_def stored_def logs_grow_def)
  next
    case (Some job)
    with run l r(1) res auth show ?thesis
      by (cases "lk_Data c")
        (auto simp: log_chunk_def Let_def Append_def run_statement_solo [OF E] sql_Append_def Publish_def publish_def
          takes_def stored_def logs_grow_def chunk_keys_def lease_job_def cache_fits_def authorized_def
          split: if_splits option.splits prod.splits)
  qed
qed

lemma log_chunk_again:
  assumes E: "solo (svc_env s)" and fits: "cache_fits tok (db w) resolved"
    and c: "takes s tok (db w) c" "stored s (db w) c"
  shows "\<exists>resolved' n. run_state (log_chunk s tok resolved c) w = (Inr resolved', w\<lparr>tick := n\<rparr>) \<and>
    cache_fits tok (db w) resolved'"
proof -
  obtain l where l: "uuid_parse s (lk_LeaseId c) = Some l"
    and auth: "\<forall>job. lease_job (db w) l = Some job \<longrightarrow> authorized tok (db w) job \<and> lk_Data c \<noteq> None"
    using c(1) by (auto simp: takes_def)
  obtain res n where r: "run_state (resolve_cached s tok l resolved) w = (Inr (lease_job (db w) l, res), w\<lparr>tick := n\<rparr>)"
    "cache_fits tok (db w) res"
    using run_resolve_cached [OF E fits, of l] auth by auto
  show ?thesis
  proof (cases "lease_job (db w) l")
    case None
    with l r show ?thesis by (auto simp: log_chunk_def)
  next
    case (Some job)
    then obtain dat where dat: "lk_Data c = Some dat" using auth by blast
    have "(l, lk_Seq c) \<in> chunk_keys (db w)" using c(2) l Some by (simp add: stored_def)
    then have "\<exists>x\<in>set (log_chunks (db w)). lc_LeaseID x = l \<and> lc_Seq x = lk_Seq c" by (auto simp: chunk_keys_def)
    with Some l r dat show ?thesis
      by (auto simp: log_chunk_def Let_def Append_def run_statement_solo [OF E] sql_Append_def)
  qed
qed

lemma log_loop_taken:
  assumes "solo (svc_env s)" and "cache_fits tok (db w) resolved"
    and "run_state (log_loop s tok ok chunks ending resolved) w = (Inr (), w')"
  shows "(\<forall>c\<in>set chunks. takes s tok (db w) c \<and> stored s (db w') c) \<and> logs_grow (db w) (db w')"
  using assms(2,3)
proof (induction chunks arbitrary: w resolved)
  case (Cons c cs)
  obtain r w1 where r: "run_state (log_chunk s tok resolved c) w = (r, w1)" by (cases "run_state (log_chunk s tok resolved c) w")
  with Cons.prems(2) obtain res where res: "r = Inr res" by (auto split: sum.splits)
  with Cons.prems r have rest: "run_state (log_loop s tok ok cs ending res) w1 = (Inr (), w')" by simp
  from log_chunk_taken [OF assms(1) Cons.prems(1)] r res
  have one: "takes s tok (db w) c" "logs_grow (db w) (db w1)" "stored s (db w1) c" "cache_fits tok (db w1) res" by auto
  from Cons.IH [OF one(4) rest] have more: "\<forall>c\<in>set cs. takes s tok (db w1) c \<and> stored s (db w') c" "logs_grow (db w1) (db w')"
    by auto
  have "logs_grow (db w) (db w')" using one(2) more(2) by (auto simp: logs_grow_def)
  with one more logs_grow_keeps(3) [OF one(2)] logs_grow_keeps(5) [OF more(2) one(3)] show ?case by auto
qed (simp add: logs_grow_def)

lemma log_loop_again:
  assumes "solo (svc_env s)" and "cache_fits tok (db w) resolved"
    and "\<forall>c\<in>set chunks. takes s tok (db w) c \<and> stored s (db w) c"
  shows "\<exists>n. snd (run_state (log_loop s tok ok chunks ending resolved) w) = w\<lparr>tick := n\<rparr>"
  using assms(2,3)
proof (induction chunks arbitrary: w resolved)
  case Nil
  then show ?case by (intro exI [of _ "tick w"]) simp
next
  case (Cons c cs)
  obtain res n where one: "run_state (log_chunk s tok resolved c) w = (Inr res, w\<lparr>tick := n\<rparr>)" "cache_fits tok (db w) res"
    using log_chunk_again [OF assms(1) Cons.prems(1), of c] Cons.prems(2) by auto
  with Cons.IH [of "w\<lparr>tick := n\<rparr>" res] Cons.prems(2) show ?case by auto
qed

text \<open>
  C32: log streaming is idempotent. When a stream of chunks was taken without error and the
  runner sends the same chunks again, nothing changes: no chunk is stored twice and none is
  published to a live subscriber again.
\<close>

theorem StreamLogs_retry_harmless:
  assumes "solo (svc_env s)" and "run_state (StreamLogs s md ok chunks ending) w = (Inr (), w1)"
    and "run_state (StreamLogs s md ok' chunks ending') w1 = (r, w2)"
  shows "db w2 = db w1 \<and> log_subs w2 = log_subs w1 \<and> closed_subs w2 = closed_subs w1"
proof -
  obtain tok where tok: "bearerToken md = Inr tok" using assms(2) by (cases "bearerToken md") (auto simp: StreamLogs_def)
  have fits: "cache_fits tok d Map.empty" for d by (simp add: cache_fits_def)
  have "run_state (log_loop s tok ok chunks ending Map.empty) w = (Inr (), w1)" using assms(2) tok by (simp add: StreamLogs_def)
  from log_loop_taken [OF assms(1) fits this]
  have "\<forall>c\<in>set chunks. takes s tok (db w1) c \<and> stored s (db w1) c" by (auto simp: logs_grow_keeps(3))
  from log_loop_again [OF assms(1) fits this, of ok' ending'] assms(3) tok show ?thesis by (auto simp: StreamLogs_def)
qed

theorem StreamLogs_retry_harmless_witness:
  "\<exists>w1. run_state (StreamLogs sample_service (Some [''Bearer tok'']) (\<lambda>_. True)
      [\<lparr>lk_LeaseId = ''50'', lk_StepId = ''s'', lk_Seq = 0, lk_TsUnix = 0, lk_Data = Some ''hi''\<rparr>] EndEOF)
      (world_with (db_with [lease_row 50 7 5 0 (sample_job 11 ''build'' [])])) = (Inr (), w1) \<and>
     db (snd (run_state (StreamLogs sample_service (Some [''Bearer tok'']) (\<lambda>_. True)
      [\<lparr>lk_LeaseId = ''50'', lk_StepId = ''s'', lk_Seq = 0, lk_TsUnix = 0, lk_Data = Some ''hi''\<rparr>] EndEOF) w1)) = db w1"
proof -
  let ?m = "StreamLogs sample_service (Some [''Bearer tok'']) (\<lambda>_. True)
      [\<lparr>lk_LeaseId = ''50'', lk_StepId = ''s'', lk_Seq = 0, lk_TsUnix = 0, lk_Data = Some ''hi''\<rparr>] EndEOF"
  let ?w = "world_with (db_with [lease_row 50 7 5 0 (sample_job 11 ''build'' [])])"
  have "fst (run_state ?m ?w) = Inr ()" by code_simp
  then obtain w1 where w1: "run_state ?m ?w = (Inr (), w1)" by (cases "run_state ?m ?w") auto
  obtain r w2 where "run_state ?m w1 = (r, w2)" by (cases "run_state ?m w1")
  with StreamLogs_retry_harmless [OF _ w1 this] w1 show ?thesis by auto
qed

subsection \<open>Registration\<close>

text \<open>
  C33: registration yields working credentials. When \<open>RegisterRunner\<close> succeeds, the token it
  returns has 43 characters of the URL-safe alphabet, the new runner is online under the
  returned id, and a heartbeat that presents the two is acknowledged. \<open>uuid_parse\<close> reads
  back what \<open>uuid_string\<close> prints.
\<close>

theorem RegisterRunner_then_Heartbeat:
  assumes "solo (svc_env s)" and "\<forall>u. uuid_parse s (uuid_string s u) = Some u"
    and "\<forall>n b. rand_bytes s n = Some b \<longrightarrow> length b = 32"
    and "distinct (map rn_ID (runners (db w)))" and "unique_leases (jobs (db w))"
    and "run_state (RegisterRunner s req) w = (Inr resp, w1)"
  shows "length (rs_AuthToken resp) = 43 \<and> set (rs_AuthToken resp) \<subseteq> set urlAlphabet \<and>
    (\<exists>rn\<in>set (runners (db w1)). rs_RunnerId resp = uuid_string s (rn_ID rn) \<and> rn_Status rn = ''online'') \<and>
    (\<exists>ack w2. run_state (heartbeat_ping s (rs_AuthToken resp)
       \<lparr>hp_RunnerId = rs_RunnerId resp, hp_ActiveLeaseIds = []\<rparr>) w1 = (Inr ack, w2))"
proof -
  define rn where "rn = last (runners (db w1))"
  from assms(6) have reg: "\<exists>buf. rand_bytes s (tick w) = Some buf \<and> rn_ID rn \<notin> rn_ID ` set (runners (db w)) \<and>
      rn_AuthToken rn = RawURLEncoding_EncodeToString (take 32 buf) \<and> rn_Status rn = ''online'' \<and>
      runners (db w1) = runners (db w) @ [rn] \<and> jobs (db w1) = jobs (db w) \<and>
      rs_RunnerId resp = uuid_string s (rn_ID rn) \<and> rs_AuthToken resp = rn_AuthToken rn"
    by (auto simp: rn_def RegisterRunner_def generateAuthToken_def CreateRunner_def run_statement_solo [OF assms(1)]
        sql_CreateRunner_def authTokenBytes_def split: if_splits sum.splits option.splits)
  then obtain buf where
    buf: "rand_bytes s (tick w) = Some buf" and new: "rn_ID rn \<notin> rn_ID ` set (runners (db w))"
    and rn: "rn_AuthToken rn = RawURLEncoding_EncodeToString (take 32 buf)" "rn_Status rn = ''online''"
    and w1: "runners (db w1) = runners (db w) @ [rn]" "jobs (db w1) = jobs (db w)"
    and resp: "rs_RunnerId resp = uuid_string s (rn_ID rn)" "rs_AuthToken resp = rn_AuthToken rn"
    by blast
  have tok: "length (rs_AuthToken resp) = 43" "set (rs_AuthToken resp) \<subseteq> set urlAlphabet"
    using assms(3) buf set_encode_raw [of urlAlphabet "take 32 buf"] alphabets(3)
    by (auto simp: resp rn RawURLEncoding_EncodeToString_def length_encode_raw)
  then have "validToken (rs_AuthToken resp) (rn_AuthToken rn)" by (auto simp: validToken_def resp)
  then have "\<exists>ack w2. run_state (heartbeat_ping s (rs_AuthToken resp) \<lparr>hp_RunnerId = rs_RunnerId resp, hp_ActiveLeaseIds = []\<rparr>) w1 = (Inr ack, w2)"
    using run_heartbeat [OF assms(1), of w1 "\<lparr>hp_RunnerId = rs_RunnerId resp, hp_ActiveLeaseIds = []\<rparr>" "rn_ID rn" rn "rs_AuthToken resp"]
      assms(2,4,5) new w1 resp by auto
  with tok resp rn w1 show ?thesis by auto
qed

theorem RegisterRunner_then_Heartbeat_witness:
  "\<exists>resp. fst (run_state (RegisterRunner
      (sample_service\<lparr>uuid_parse := \<lambda>x. Some (of_nat (length x)), uuid_string := \<lambda>u. replicate (unat u) (CHR ''x'')\<rparr>)
      \<lparr>rr_Name = ''r'', rr_Labels = Some [], rr_Mode = RUNNER_MODE_HOST, rr_Capacity = 1, rr_Version = ''v''\<rparr>)
      (world_with (db_with []))) = Inr resp \<and> length (rs_AuthToken resp) = 43"
proof -
  let ?s = "sample_service\<lparr>uuid_parse := \<lambda>x. Some (of_nat (length x)), uuid_string := \<lambda>u. replicate (unat u) (CHR ''x'')\<rparr>"
  let ?req = "\<lparr>rr_Name = ''r'', rr_Labels = Some [], rr_Mode = RUNNER_MODE_HOST, rr_Capacity = 1, rr_Version = ''v''\<rparr>"
  let ?w = "world_with (db_with [])"
  have "\<exists>resp w1. run_state (RegisterRunner ?s ?req) ?w = (Inr resp, w1)"
    by (simp add: RegisterRunner_def generateAuthToken_def CreateRunner_def run_statement_solo sql_CreateRunner_def
        sample_defs) (simp add: sample_env_def)
  then obtain resp w1 where run: "run_state (RegisterRunner ?s ?req) ?w = (Inr resp, w1)" by blast
  have "length (rs_AuthToken resp) = 43"
    using RegisterRunner_then_Heartbeat [OF _ _ _ _ _ run] by (simp add: unique_leases_def world_with_def db_with_def)
  with run show ?thesis by auto
qed

end
