(* ===== verification/Gate_Failure.thy ===== *)
theory Gate_Failure
  imports Completion_Spec
begin

text \<open>
  What a lost statement costs. \<open>CompleteJob\<close> only logs a failure of the needs gate and answers
  its runner that all is well, and no other call of the dispatch service and no reaper ever
  writes the status of a run.
\<close>

subsection \<open>Who writes the status of a run\<close>

definition keeps_run :: "Run \<Rightarrow> database \<Rightarrow> database \<Rightarrow> bool" where
  "keeps_run r d d' \<longleftrightarrow> (r \<in> set (workflow_runs d) \<longrightarrow> r \<in> set (workflow_runs d'))"

interpretation stuck: call_rel "keeps_run r" for r
  by unfold_locales (auto simp: keeps_run_def sql_TransitionStatus_def sql_Lease_def sql_RenewLease_def sql_RequeueExpired_def
      sql_SetResult_def snd_update_jobs sql_CreateRun_def sql_UpsertStep_def sql_UpsertOutput_def sql_CreateRunner_def
      sql_UpdateHeartbeat_def sql_SetStatus_def sql_MarkStaleOffline_def sql_Append_def update_runners_def split: option.splits)

fun serve_all :: "nat \<Rightarrow> Service \<Rightarrow> rpc list \<Rightarrow> (world, unit) state" where
  "serve_all fuel s [] = ret ()"
| "serve_all fuel s (c # cs) = do { serve fuel s c; serve_all fuel s cs }"

lemma serve_all_keeps_run:
  assumes "stuck.rely r (svc_env s)" and "\<forall>c\<in>set cs. \<not> completes c"
  shows "stuck.guar r (serve_all fuel s cs)"
  using assms(2) by (induction cs) (auto intro!: stuck.guar_rules stuck.guar_serve_others assms(1))

subsection \<open>One lost statement\<close>

text \<open>The service when the statement of interaction \<open>k\<close> is lost.\<close>

definition fault_at :: "nat \<Rightarrow> Service \<Rightarrow> Service" where
  "fault_at k s = s\<lparr>svc_env := (svc_env s)\<lparr>fault := \<lambda>n. n = k\<rparr>\<rparr>"

lemma fault_at_simps [simp]:
  "uuid_parse (fault_at k s) = uuid_parse s" "svc_env (fault_at k s) = (svc_env s)\<lparr>fault := \<lambda>n. n = k\<rparr>"
  by (simp_all add: fault_at_def)

text \<open>
  What was done before interaction \<open>k\<close> does not depend on the loss: an action \<open>m\<close> that ends
  by then is matched by the action \<open>m'\<close> of the other service.
\<close>

definition until_fault :: "nat \<Rightarrow> (world, 'a) state \<Rightarrow> (world, 'a) state \<Rightarrow> bool" where
  "until_fault k m m' \<longleftrightarrow> (\<forall>w r w'. run_state m w = (r, w') \<longrightarrow>
     tick w \<le> tick w' \<and> (tick w' \<le> k \<longrightarrow> run_state m' w = (r, w')))"

lemma until_faultD: "until_fault k m m' \<Longrightarrow> run_state m w = (r, w') \<Longrightarrow> tick w' \<le> k \<Longrightarrow> run_state m' w = (r, w')"
  by (simp add: until_fault_def)

lemma until_fault_tick: "until_fault k m m' \<Longrightarrow> run_state m w = (r, w') \<Longrightarrow> tick w \<le> tick w'"
  by (simp add: until_fault_def)

lemma until_fault_ret: "until_fault k (ret a) (ret a)"
  by (simp add: until_fault_def)

lemma until_fault_bind:
  assumes "until_fault k m m'" and "\<And>a. until_fault k (f a) (f' a)"
  shows "until_fault k (State_Monad.bind m f) (State_Monad.bind m' f')"
  unfolding until_fault_def
proof (intro allI impI)
  fix w r w'
  assume run: "run_state (State_Monad.bind m f) w = (r, w')"
  obtain a w1 where a: "run_state m w = (a, w1)" by fastforce
  then have b: "run_state (f a) w1 = (r, w')" using run by (simp add: State_Monad.bind_def)
  have "tick w \<le> tick w1" "tick w1 \<le> tick w'" using until_fault_tick [OF assms(1) a] until_fault_tick [OF assms(2) b] .
  then show "tick w \<le> tick w' \<and> (tick w' \<le> k \<longrightarrow> run_state (State_Monad.bind m' f') w = (r, w'))"
    using until_faultD [OF assms(1) a] until_faultD [OF assms(2) b] by (simp add: State_Monad.bind_def)
qed

lemma until_fault_if: "(b \<Longrightarrow> until_fault k m m') \<Longrightarrow> (\<not> b \<Longrightarrow> until_fault k n n') \<Longrightarrow> until_fault k (if b then m else n) (if b then m' else n')"
  by simp

lemma until_fault_sum:
  "(\<And>e. x = Inl e \<Longrightarrow> until_fault k (f e) (f' e)) \<Longrightarrow> (\<And>a. x = Inr a \<Longrightarrow> until_fault k (g a) (g' a)) \<Longrightarrow> until_fault k (case_sum f g x) (case_sum f' g' x)"
  by (cases x) simp_all

lemma until_fault_option:
  "(x = None \<Longrightarrow> until_fault k m m') \<Longrightarrow> (\<And>a. x = Some a \<Longrightarrow> until_fault k (f a) (f' a)) \<Longrightarrow> until_fault k (case_option m f x) (case_option m' f' x)"
  by (cases x) simp_all

lemma until_fault_interactions:
  assumes "solo E"
  shows "until_fault k (statement E f) (statement (E\<lparr>fault := \<lambda>n. n = k\<rparr>) f)" "until_fault k (time_now E) (time_now (E\<lparr>fault := \<lambda>n. n = k\<rparr>))"
  using assms by (auto simp: until_fault_def statement_def solo_def Let_def split: prod.splits if_splits)

lemmas until_fault_rules = until_fault_ret until_fault_bind until_fault_if until_fault_sum until_fault_option

lemma until_fault_stores:
  assumes "solo E"
  shows "until_fault k (GetByLease E l) (GetByLease (E\<lparr>fault := \<lambda>n. n = k\<rparr>) l)" "until_fault k (GetByID E rid) (GetByID (E\<lparr>fault := \<lambda>n. n = k\<rparr>) rid)"
    "until_fault k (SetResult E jid r t) (SetResult (E\<lparr>fault := \<lambda>n. n = k\<rparr>) jid r t)"
    "until_fault k (TransitionStatus E jid src dst) (TransitionStatus (E\<lparr>fault := \<lambda>n. n = k\<rparr>) jid src dst)"
    "until_fault k (UpsertOutput E jid key v) (UpsertOutput (E\<lparr>fault := \<lambda>n. n = k\<rparr>) jid key v)"
  unfolding GetByLease_def GetByID_def SetResult_def TransitionStatus_def UpsertOutput_def query_def
  by (intro until_fault_rules until_fault_interactions assms)+

lemma until_fault_completion:
  assumes "solo (svc_env s)"
  shows "until_fault k (resolveLeaseJob s l) (resolveLeaseJob (fault_at k s) l)"
    "until_fault k (authorizeJobRunner s tok j) (authorizeJobRunner (fault_at k s) tok j)"
    "until_fault k (record_completion s j result kvs) (record_completion (fault_at k s) j result kvs)"
proof -
  note rules = until_fault_rules until_fault_stores [OF assms] until_fault_interactions [OF assms]
  show "until_fault k (resolveLeaseJob s l) (resolveLeaseJob (fault_at k s) l)"
    "until_fault k (authorizeJobRunner s tok j) (authorizeJobRunner (fault_at k s) tok j)"
    unfolding resolveLeaseJob_def authorizeJobRunner_def fault_at_simps by (intro rules)+
  have "until_fault k (write_outputs s j kvs) (write_outputs (fault_at k s) j kvs)" for kvs
    by (induction kvs) (auto intro!: rules)
  then show "until_fault k (record_completion s j result kvs) (record_completion (fault_at k s) j result kvs)"
    unfolding record_completion_def mark_running_def fault_at_simps by (intro rules)
qed

text \<open>A gate whose first statement is lost does nothing.\<close>

lemma gateRun_lost:
  assumes "solo (svc_env s)" and "0 < fuel"
  shows "run_state (gateRun fuel (fault_at (tick w) s) runID) w = (Some (Inl (Wrapped ErrConnection)), w\<lparr>tick := Suc (tick w)\<rparr>)"
proof -
  obtain n where "fuel = Suc n" using assms(2) by (cases fuel) auto
  then show ?thesis
    using assms(1) by (simp add: gateRun_def ListJobsForRun_def query_def statement_def solo_def Let_def)
qed

text \<open>
  C39: one lost statement strands a run. The runner that holds the lease completes its job, and
  the first statement of the needs gate fails: \<open>CompleteJob\<close> still answers that all is well. The
  job has its result and final status, but the run keeps the row it had, also when this was its
  last job; and whatever calls and reaper ticks follow, in any order and number, as long as no
  job is completed and the other sessions leave the run alone, it stays so.
\<close>

theorem failed_gate_strands_run:
  assumes "solo (svc_env s)" and "distinct (map j_ID (jobs (db w)))" and "0 < fuel"
    and "bearerToken md = Inr tok" and "uuid_parse s (cj_LeaseId req) = Some l"
    and "find (\<lambda>j. j_LeaseID j = Some l) (jobs (db w)) = Some j" and "j_RunnerID j = Some rid"
    and "find (\<lambda>r. rn_ID r = rid) (runners (db w)) = Some rn" and "validToken tok (rn_AuthToken rn)"
    and "phaseToResult (cj_Result req) = Inr result" and "isTerminalStatus result"
  shows "\<exists>k t w1. run_state (CompleteJob fuel (fault_at k s) md req) w = (Some (Inr ()), w1) \<and>
    completion_recorded j result t (cj_Outputs req) w w1 \<and>
    (\<forall>fuel' s' cs. \<forall>r\<in>set (workflow_runs (db w)). (\<forall>n d. keeps_run r d (other (svc_env s') n d)) \<longrightarrow>
      (\<forall>c\<in>set cs. \<not> completes c) \<longrightarrow> r \<in> set (workflow_runs (db (snd (run_state (serve_all fuel' s' cs) w1)))))"
proof -
  note E = assms(1)
  let ?w = "w\<lparr>tick := Suc (Suc (tick w))\<rparr>"
  have j: "j \<in> set (jobs (db w))" using find_Some_set [OF assms(6)] by simp
  obtain w1 where rec: "run_state (record_completion s j result (cj_Outputs req)) ?w = (Inr (), w1)"
    "completion_recorded j result (clock (svc_env s) (tick ?w)) (cj_Outputs req) ?w w1"
    using run_record_completion [OF E, of ?w j result "cj_Outputs req"] assms(2,11) j by auto
  define k where "k = tick w1"
  note up = until_fault_completion [OF E, where k = k]
  have k: "Suc (Suc (tick w)) \<le> k" using until_fault_tick [OF up(3) rec(1)] by (simp add: k_def)
  have "run_state (resolveLeaseJob s l) w = (Inr (Some j), w\<lparr>tick := Suc (tick w)\<rparr>)"
    by (simp add: resolve_solo [OF E] assms(6))
  note res = until_faultD [OF up(1) this]
  have "run_state (authorizeJobRunner s tok j) (w\<lparr>tick := Suc (tick w)\<rparr>) = (Inr (), ?w)"
    using run_authorize [OF E assms(7), of "w\<lparr>tick := Suc (tick w)\<rparr>" rn tok] assms(8,9) by simp
  note auth = until_faultD [OF up(2) this]
  have ends: "run_state (CompleteJob fuel (fault_at k s) md req) w = (Some (Inr ()), w1\<lparr>tick := Suc k\<rparr>)"
    using assms(4,5,10,11) res auth k until_faultD [OF up(3) rec(1)] gateRun_lost [OF E assms(3), of w1 "j_RunID j"]
    by (simp add: CompleteJob_def k_def [symmetric])
  have recorded: "completion_recorded j result (clock (svc_env s) (tick ?w)) (cj_Outputs req) w (w1\<lparr>tick := Suc k\<rparr>)"
    using rec(2) by (simp add: completion_recorded_def outputs_of_def)
  have "r \<in> set (workflow_runs (db (snd (run_state (serve_all fuel' s' cs) (w1\<lparr>tick := Suc k\<rparr>)))))"
    if r: "r \<in> set (workflow_runs (db w))" and env: "\<forall>n d. keeps_run r d (other (svc_env s') n d)" and cs: "\<forall>c\<in>set cs. \<not> completes c"
    for fuel' s' cs r
  proof -
    have "stuck.guar r (serve_all fuel' s' cs)" using env cs by (intro serve_all_keeps_run) (simp_all add: stuck.rely_def)
    from stuck.guarD [OF this prod.collapse [symmetric], of "w1\<lparr>tick := Suc k\<rparr>"] r rec(2) show ?thesis
      by (simp add: keeps_run_def completion_recorded_def)
  qed
  with ends recorded show ?thesis by blast
qed

theorem failed_gate_strands_run_witness:
  "\<exists>k t w1. run_state (CompleteJob 3 (fault_at k sample_service) (Some [''Bearer tok'']) (sample_completion PHASE_SUCCESS))
      (world_with (db_with [hd running_build])) = (Some (Inr ()), w1) \<and>
    completion_recorded (hd running_build) ''success'' t [(''k'', ''v'')] (world_with (db_with [hd running_build])) w1 \<and>
    sample_run \<in> set (workflow_runs (db (snd (run_state (serve_all 3 sample_service [TickLeases 9, TickRunners 9]) w1))))"
proof -
  let ?w = "world_with (db_with [hd running_build])"
  have p: "ParseInt ''50'' = Some 50" by code_simp
  have j: "find (\<lambda>j. j_LeaseID j = Some 50) (jobs (db ?w)) = Some (hd running_build)" "j_RunnerID (hd running_build) = Some 7"
    by (simp_all add: running_build_def sample_defs lease_row_def)
  have m: "distinct (map j_ID (jobs (db ?w)))" "bearerToken (Some [''Bearer tok'']) = Inr ''tok''"
    "uuid_parse sample_service (cj_LeaseId (sample_completion PHASE_SUCCESS)) = Some 50"
    "find (\<lambda>r. rn_ID r = 7) (runners (db ?w)) = Some sample_runner" "validToken ''tok'' (rn_AuthToken sample_runner)"
    "phaseToResult (cj_Result (sample_completion PHASE_SUCCESS)) = Inr ''success''" "isTerminalStatus ''success''"
    by (simp_all add: sample_completion_def p phaseToResult_def isTerminalStatus_def terminalJobStatuses_def
        sample_defs bearerToken_Inr validToken_def)
  have r: "sample_run \<in> set (workflow_runs (db ?w))" "\<forall>n d. keeps_run sample_run d (other (svc_env sample_service) n d)"
    "\<forall>c\<in>set [TickLeases 9, TickRunners 9]. \<not> completes c" "cj_Outputs (sample_completion PHASE_SUCCESS) = [(''k'', ''v'')]"
    by (simp_all add: world_with_def db_with_def keeps_run_def sample_env_def completes_def sample_completion_def)
  have "solo (svc_env sample_service)" "0 < (3::nat)" by simp_all
  from failed_gate_strands_run [OF this(1) m(1) this(2) m(2,3) j m(4-7)] r show ?thesis by metis
qed

end
