(* ===== verification/Job_Ledger.thy ===== *)
theory Job_Ledger
  imports Job_Machine
begin

text \<open>
  The abstract specification of the jobs table: a ledger of job ids and statuses. A step of
  the ledger enters a new job as queued or moves one job along one transition of the state
  machine; nothing else ever happens to it. The jobs table refines the ledger: every statement
  the stores send is a sequence of steps of the ledger.
\<close>

type_synonym ledger = "(uuid \<times> string) list"

inductive ledger_step :: "ledger \<Rightarrow> ledger \<Rightarrow> bool" where
  enter: "i \<notin> fst ` set m \<Longrightarrow> ledger_step m (m @ [(i, ''queued'')])"
| move: "n < length m \<Longrightarrow> m ! n = (i, s) \<Longrightarrow> isLegalJobTransition s s' \<Longrightarrow> ledger_step m (m[n := (i, s')])"

definition job_ledger :: "database \<Rightarrow> ledger" where
  "job_ledger d = map (\<lambda>j. (j_ID j, j_Status j)) (jobs d)"

definition refines :: "database \<Rightarrow> database \<Rightarrow> bool" where
  "refines d d' \<longleftrightarrow> ledger_step\<^sup>*\<^sup>* (job_ledger d) (job_ledger d')"

lemma refines_same: "jobs d' = jobs d \<Longrightarrow> refines d d'"
  by (simp add: refines_def job_ledger_def)

text \<open>One entry along a path of the machine, then entry after entry.\<close>

lemma ledger_path:
  assumes "legal_path s s'"
  shows "ledger_step\<^sup>*\<^sup>* (pre @ (i, s) # post) (pre @ (i, s') # post)"
  using assms unfolding legal_path_def
proof (induction rule: rtranclp_induct)
  case (step s1 s2)
  have "ledger_step (pre @ (i, s1) # post) ((pre @ (i, s1) # post)[length pre := (i, s2)])"
    using step by (intro move [where s = s1]) auto
  with step show ?case by (simp add: rtranclp.rtrancl_into_rtrancl)
qed simp

lemma ledger_paths:
  "list_all2 (\<lambda>e e'. fst e' = fst e \<and> legal_path (snd e) (snd e')) m m' \<Longrightarrow> ledger_step\<^sup>*\<^sup>* (pre @ m) (pre @ m')"
proof (induction m m' arbitrary: pre rule: list_all2_induct)
  case (Cons e m e' m')
  have "ledger_step\<^sup>*\<^sup>* (pre @ (fst e, snd e) # m) (pre @ (fst e, snd e') # m)"
    using Cons by (intro ledger_path) simp
  moreover have "ledger_step\<^sup>*\<^sup>* ((pre @ [e']) @ m) ((pre @ [e']) @ m')" by (rule Cons.IH)
  moreover have "e' = (fst e, snd e')" using Cons by (cases e') simp
  ultimately show ?case by (metis (no_types, lifting) append.assoc append_Cons append_Nil prod.collapse rtranclp_trans)
qed simp

text \<open>A statement that moves rows along the machine and keeps their number refines the ledger.\<close>

lemma refines_rows:
  assumes "rows_kept moves_legally d d'" and "length (jobs d') = length (jobs d)"
  shows "refines d d'"
proof -
  have "list_all2 (\<lambda>e e'. fst e' = fst e \<and> legal_path (snd e) (snd e')) (job_ledger d) (job_ledger d')"
    using assms by (simp add: rows_kept_def job_ledger_def list_all2_conv_all_nth moves_legally_def)
  from ledger_paths [OF this, of "[]"] show ?thesis by (simp add: refines_def)
qed

interpretation ledger: store_rel refines
proof unfold_locales
  fix d d' d'' :: database
  show "refines d d" by (simp add: refines_same)
  show "refines d d' \<Longrightarrow> refines d' d'' \<Longrightarrow> refines d d''" by (simp add: refines_def)
next
  fix d :: database and j :: Job and cell t
  assume "new_job j"
  then show "refines d (snd (sql_CreateJob cell j t d))"
    by (auto simp: sql_CreateJob_def refines_def job_ledger_def new_job_def split: option.splits
        intro!: r_into_rtranclp enter)
qed (rule refines_rows, rule path.R_TransitionStatus path.R_Lease path.R_RenewLease path.R_RequeueExpired
    path.R_SetResult path.R_CreateRun path.R_SetRunStatus path.R_UpsertStep path.R_UpsertOutput path.R_CreateRunner
    path.R_UpdateHeartbeat path.R_SetStatus path.R_MarkStaleOffline path.R_Append, assumption?,
    simp add: jobs_length_sql)+

text \<open>What the ledger promises: entries stay where they are, and finished ones stay as they are.\<close>

lemma ledger_entry:
  assumes "ledger_step\<^sup>*\<^sup>* m m'" and "n < length m"
  shows "n < length m' \<and> fst (m' ! n) = fst (m ! n) \<and> legal_path (snd (m ! n)) (snd (m' ! n))"
  using assms
proof (induction rule: rtranclp_induct)
  case (step m1 m2)
  from step(2) show ?case
  proof cases
    case (move k i s s')
    with step show ?thesis
      by (cases "n = k") (auto intro: legal_path_trans legal_path_step)
  qed (use step in \<open>auto simp: nth_append\<close>)
qed simp

lemma ledger_distinct: "ledger_step\<^sup>*\<^sup>* m m' \<Longrightarrow> distinct (map fst m) \<Longrightarrow> distinct (map fst m')"
proof (induction rule: rtranclp_induct)
  case (step m1 m2)
  from step(2) show ?case
  proof cases
    case (move k i s s')
    then have "map fst m2 = map fst m1" by (simp add: map_update list_update_same_conv)
    with step show ?thesis by simp
  qed (use step in auto)
qed simp

end
