(* ===== verification/Utf8.thy ===== *)
theory Utf8
  imports Go_Strings
begin

text \<open>
  Go's \<open>unicode/utf8\<close> and the conversions between strings and rune slices: decoding takes
  an ill-formed byte for U+FFFD and goes on behind it, encoding takes what is not a Unicode
  scalar value for U+FFFD.
\<close>

definition RuneError :: nat where
  "RuneError = 0xFFFD"

definition valid_rune :: "nat \<Rightarrow> bool" where
  "valid_rune r \<longleftrightarrow> r < 0xD800 \<or> 0xDFFF < r \<and> r \<le> 0x10FFFF"

subsection \<open>Encoding\<close>

definition rune_codes :: "nat \<Rightarrow> nat list" where
  "rune_codes r =
     (if r < 0x80 then [r]
      else if r < 0x800 then [0xC0 + r div 64, 0x80 + r mod 64]
      else if r < 0x10000 then [0xE0 + r div 4096, 0x80 + r div 64 mod 64, 0x80 + r mod 64]
      else [0xF0 + r div 262144, 0x80 + r div 4096 mod 64, 0x80 + r div 64 mod 64, 0x80 + r mod 64])"

definition EncodeRune :: "nat \<Rightarrow> bytes" where
  "EncodeRune r = map char_of (rune_codes (if valid_rune r then r else RuneError))"

text \<open>The conversion \<open>string(runes)\<close>.\<close>

definition string_of_runes :: "nat list \<Rightarrow> bytes" where
  "string_of_runes rs = concat (map EncodeRune rs)"

subsection \<open>Decoding\<close>

definition is_cont :: "nat \<Rightarrow> bool" where
  "is_cont b \<longleftrightarrow> 0x80 \<le> b \<and> b \<le> 0xBF"

text \<open>The second byte of a sequence: overlong forms and surrogates are excluded here.\<close>

definition second_ok :: "nat \<Rightarrow> nat \<Rightarrow> bool" where
  "second_ok b0 b1 \<longleftrightarrow>
     (if b0 = 0xE0 then 0xA0 \<le> b1 \<and> b1 \<le> 0xBF
      else if b0 = 0xED then 0x80 \<le> b1 \<and> b1 \<le> 0x9F
      else if b0 = 0xF0 then 0x90 \<le> b1 \<and> b1 \<le> 0xBF
      else if b0 = 0xF4 then 0x80 \<le> b1 \<and> b1 \<le> 0x8F
      else is_cont b1)"

text \<open>\<open>utf8.DecodeRune\<close> on a non-empty slice: the rune and the bytes behind it.\<close>

fun decode_rune :: "nat \<Rightarrow> nat list \<Rightarrow> nat \<times> nat list" where
  "decode_rune b0 rest =
     (if b0 < 0x80 then (b0, rest)
      else if 0xC2 \<le> b0 \<and> b0 \<le> 0xDF then
        (case rest of
           b1 # r1 \<Rightarrow> if is_cont b1 then (b0 mod 32 * 64 + b1 mod 64, r1) else (RuneError, rest)
         | _ \<Rightarrow> (RuneError, rest))
      else if 0xE0 \<le> b0 \<and> b0 \<le> 0xEF then
        (case rest of
           b1 # b2 # r2 \<Rightarrow>
             if second_ok b0 b1 \<and> is_cont b2
             then (b0 mod 16 * 4096 + b1 mod 64 * 64 + b2 mod 64, r2) else (RuneError, rest)
         | _ \<Rightarrow> (RuneError, rest))
      else if 0xF0 \<le> b0 \<and> b0 \<le> 0xF4 then
        (case rest of
           b1 # b2 # b3 # r3 \<Rightarrow>
             if second_ok b0 b1 \<and> is_cont b2 \<and> is_cont b3
             then (b0 mod 8 * 262144 + b1 mod 64 * 4096 + b2 mod 64 * 64 + b3 mod 64, r3)
             else (RuneError, rest)
         | _ \<Rightarrow> (RuneError, rest))
      else (RuneError, rest))"

declare decode_rune.simps [simp del]

lemma decode_rune_shorter: "length (snd (decode_rune b0 rest)) \<le> length rest"
  by (auto simp: decode_rune.simps split: list.splits)

function rune_list :: "nat list \<Rightarrow> nat list" where
  "rune_list [] = []"
| "rune_list (b0 # rest) = (case decode_rune b0 rest of (r, rest') \<Rightarrow> r # rune_list rest')"
  by pat_completeness auto
termination
  by (relation "measure length") (use decode_rune_shorter in \<open>auto dest!: arg_cong [of _ _ snd] simp: less_Suc_eq_le\<close>)

text \<open>The conversion \<open>[]rune(s)\<close>; its length is \<open>utf8.RuneCountInString\<close>.\<close>

definition runes :: "bytes \<Rightarrow> nat list" where
  "runes s = rune_list (map char_code s)"

definition RuneCountInString :: "bytes \<Rightarrow> nat" where
  "RuneCountInString s = length (runes s)"

subsection \<open>Laws\<close>

lemma rune_parts:
  fixes r :: nat
  shows "r div 4096 * 4096 + r div 64 mod 64 * 64 + r mod 64 = r"
    and "r div 262144 * 262144 + r div 4096 mod 64 * 4096 + r div 64 mod 64 * 64 + r mod 64 = r"
proof -
  have d: "r div 4096 = r div 64 div 64" "r div 262144 = r div 4096 div 64"
    by (simp_all add: div_mult2_eq [symmetric])
  have 1: "r div 64 * 64 + r mod 64 = r" by simp
  have 2: "r div 4096 * 64 + r div 64 mod 64 = r div 64" unfolding d(1) by simp
  have 3: "r div 262144 * 64 + r div 4096 mod 64 = r div 4096" unfolding d(2) by simp
  show "r div 4096 * 4096 + r div 64 mod 64 * 64 + r mod 64 = r" using 1 2 by linarith
  show "r div 262144 * 262144 + r div 4096 mod 64 * 4096 + r div 64 mod 64 * 64 + r mod 64 = r"
    using 1 2 3 by linarith
qed

lemma lead_bits:
  fixes d :: nat
  shows "d < 32 \<Longrightarrow> (0xC0 + d) mod 32 = d" "d < 16 \<Longrightarrow> (0xE0 + d) mod 16 = d" "d < 8 \<Longrightarrow> (0xF0 + d) mod 8 = d"
    "(0x80 + d) mod 64 = d mod 64"
  by (simp_all add: mod_add_eq [of _ _ d, symmetric] mod_add_left_eq [symmetric, of _ _ d])

lemma low_bits:
  fixes b :: nat
  shows "0x80 \<le> b \<Longrightarrow> b \<le> 0xBF \<Longrightarrow> b mod 64 = b - 0x80" "0xE0 \<le> b \<Longrightarrow> b \<le> 0xEF \<Longrightarrow> b mod 16 = b - 0xE0"
  using lead_bits(4) [of "b - 0x80"] lead_bits(2) [of "b - 0xE0"] by simp_all

lemma cont_bits: "is_cont (0x80 + d mod 64)"
  using mod_less_divisor [of 64 d] by (simp add: is_cont_def)

lemma decode_rune_codes:
  assumes "valid_rune r"
  shows "rune_codes r \<noteq> [] \<and> decode_rune (hd (rune_codes r)) (tl (rune_codes r) @ rest) = (r, rest)"
proof -
  consider "r < 0x80" | "0x80 \<le> r" "r < 0x800" | "0x800 \<le> r" "r < 0x10000" | "0x10000 \<le> r" "r \<le> 0x10FFFF"
    using assms by (fastforce simp: valid_rune_def)
  then show ?thesis
  proof cases
    case 1
    then show ?thesis by (simp add: rune_codes_def decode_rune.simps)
  next
    case 2
    then have "r div 64 < 32" "2 \<le> r div 64" by auto
    with 2 show ?thesis
      by (simp add: rune_codes_def decode_rune.simps cont_bits lead_bits)
  next
    case 3
    then have b: "r div 4096 < 16" by auto
    have "second_ok (0xE0 + r div 4096) (0x80 + r div 64 mod 64)"
    proof -
      have "r div 4096 = 0 \<Longrightarrow> 32 \<le> r div 64 mod 64" using 3(1) rune_parts(1) [of r] mod_less_divisor [of 64 r] by linarith
      moreover have "r div 4096 = 13 \<Longrightarrow> r div 64 mod 64 \<le> 31"
        using assms rune_parts(1) [of r] mod_less_divisor [of 64 r] mod_less_divisor [of 64 "r div 64"]
        unfolding valid_rune_def by linarith
      moreover have "r div 64 mod 64 < 64" by simp
      ultimately show ?thesis using b by (auto simp: second_ok_def is_cont_def)
    qed
    with 3 b rune_parts(1) [of r] show ?thesis
      by (simp add: rune_codes_def decode_rune.simps cont_bits lead_bits)
  next
    case 4
    then have b: "r div 262144 \<le> 4" by auto
    have "second_ok (0xF0 + r div 262144) (0x80 + r div 4096 mod 64)"
    proof -
      have m: "r mod 64 < 64" "r div 64 mod 64 < 64" "r div 4096 mod 64 < 64" by simp_all
      have "r div 262144 = 0 \<Longrightarrow> 16 \<le> r div 4096 mod 64" using 4(1) rune_parts(2) [of r] m by linarith
      moreover have "r div 262144 = 4 \<Longrightarrow> r div 4096 mod 64 \<le> 15" using 4(2) rune_parts(2) [of r] m by linarith
      ultimately show ?thesis using b m by (auto simp: second_ok_def is_cont_def)
    qed
    with 4 b rune_parts(2) [of r] show ?thesis
      by (simp add: rune_codes_def decode_rune.simps cont_bits lead_bits)
  qed
qed

lemma rune_list_codes: "valid_rune r \<Longrightarrow> rune_list (rune_codes r @ rest) = r # rune_list rest"
  using decode_rune_codes [of r rest] by (cases "rune_codes r") auto

lemma rune_codes_byte: "valid_rune r \<Longrightarrow> b \<in> set (rune_codes r) \<Longrightarrow> b < 256"
  by (auto simp: rune_codes_def valid_rune_def split: if_splits)

lemma EncodeRune_codes: "valid_rune r \<Longrightarrow> map char_code (EncodeRune r) = rune_codes r"
  by (auto simp: EncodeRune_def char_code_def of_char_of comp_def rune_codes_byte intro!: map_idI)

text \<open>Encoding a slice of valid runes and decoding it again gives the slice back.\<close>

lemma runes_string_of_runes: "\<forall>r\<in>set rs. valid_rune r \<Longrightarrow> runes (string_of_runes rs) = rs"
proof (induction rs)
  case (Cons r rs)
  then show ?case
    by (simp add: runes_def string_of_runes_def EncodeRune_codes rune_list_codes del: map_map)
qed (simp add: runes_def string_of_runes_def)

lemma decode_rune_valid:
  assumes "b0 < 256" and "\<forall>b\<in>set rest. b < 256"
  shows "valid_rune (fst (decode_rune b0 rest))"
proof -
  have e: "valid_rune RuneError" by (simp add: valid_rune_def RuneError_def)
  consider "b0 < 0x80" | "0x80 \<le> b0" "b0 \<le> 0xDF" | "0xE0 \<le> b0" "b0 \<le> 0xEF" | "0xF0 \<le> b0" by linarith
  then show ?thesis
  proof cases
    case 1
    then show ?thesis by (simp add: decode_rune.simps valid_rune_def)
  next
    case 2
    have "b0 mod 32 * 64 + b1 mod 64 < 0xD800" for b1 :: nat
      using mod_less_divisor [of 32 b0] mod_less_divisor [of 64 b1] by simp
    with 2 e show ?thesis by (auto simp: decode_rune.simps valid_rune_def split: list.splits)
  next
    case 3
    have b: "b0 = 0xE0 + b0 mod 16" using 3 low_bits(2) [of b0] by linarith
    have "valid_rune (b0 mod 16 * 4096 + b1 mod 64 * 64 + b2 mod 64)" if "second_ok b0 b1" for b1 b2
    proof (cases "b0 = 0xED")
      case True
      then have "b1 mod 64 \<le> 31" using that low_bits(1) [of b1] by (auto simp: second_ok_def)
      then have "b0 mod 16 * 4096 + b1 mod 64 * 64 + b2 mod 64 < 0xD800"
        using True mod_less_divisor [of 64 b2] by simp
      then show ?thesis by (simp add: valid_rune_def)
    next
      case False
      then have "b0 mod 16 < 13 \<or> 13 < b0 mod 16" using b by linarith
      then show ?thesis
        using mod_less_divisor [of 64 b2] mod_less_divisor [of 64 b1] mod_less_divisor [of 16 b0]
        unfolding valid_rune_def by linarith
    qed
    with 3 e show ?thesis by (auto simp: decode_rune.simps split: list.splits)
  next
    case 4
    have "valid_rune (b0 mod 8 * 262144 + b1 mod 64 * 4096 + b2 mod 64 * 64 + b3 mod 64)"
      if "second_ok b0 b1" "b0 \<le> 0xF4" for b1 b2 b3
    proof -
      have "b0 = 0xF0 \<or> b0 = 0xF1 \<or> b0 = 0xF2 \<or> b0 = 0xF3 \<or> b0 = 0xF4" using 4 that by linarith
      moreover have "b0 = 0xF0 \<Longrightarrow> 16 \<le> b1 mod 64" using that low_bits(1) [of b1] by (auto simp: second_ok_def)
      moreover have "b0 = 0xF4 \<Longrightarrow> b1 mod 64 \<le> 15" using that low_bits(1) [of b1] by (auto simp: second_ok_def)
      ultimately show ?thesis
        using mod_less_divisor [of 64 b3] mod_less_divisor [of 64 b2] mod_less_divisor [of 64 b1]
        unfolding valid_rune_def by auto
    qed
    with 4 e show ?thesis by (auto simp: decode_rune.simps split: list.splits)
  qed
qed

lemma decode_rune_suffix: "set (snd (decode_rune b0 rest)) \<subseteq> set rest"
  by (auto simp: decode_rune.simps split: list.splits)

lemma rune_list_valid: "\<forall>b\<in>set bs. b < 256 \<Longrightarrow> r \<in> set (rune_list bs) \<Longrightarrow> valid_rune r"
proof (induction bs arbitrary: r rule: rune_list.induct)
  case (2 b0 rest)
  obtain r' rest' where d: "decode_rune b0 rest = (r', rest')" by (cases "decode_rune b0 rest")
  then have "set rest' \<subseteq> set rest" "valid_rune r'"
    using decode_rune_suffix [of b0 rest] decode_rune_valid [of b0 rest] "2.prems" by auto
  moreover have "r = r' \<or> r \<in> set (rune_list rest')" using "2.prems" d by simp
  ultimately show ?case using "2.IH" [OF d [symmetric], of r] "2.prems" by auto
qed simp

text \<open>Every rune decoded from a string is a Unicode scalar value.\<close>

lemma runes_valid: "r \<in> set (runes s) \<Longrightarrow> valid_rune r"
  unfolding runes_def by (rule rune_list_valid) (auto simp: char_code_def)

end
