(* ===== verification/Json.thy ===== *)
theory Json
  imports Utf8
begin

text \<open>
  Go's \<open>encoding/json\<close>, as far as the server uses it: the documents it accepts (checked
  before anything is decoded, with the nesting limit of the scanner), what they decode to in
  a struct field of a given type, and the text it writes for a value.

  A document is cut into tokens, and the tokens drive a pushdown machine like the scanner's
  own: a stack of open arrays and objects and what may come next.
\<close>

datatype json = JNull | JBool bool | JNumber string | JString bytes
  | JArray "json list" | JObject "(bytes \<times> json) list"

subsection \<open>Strings\<close>

definition hex_val :: "nat \<Rightarrow> nat option" where
  "hex_val c =
     (if 48 \<le> c \<and> c \<le> 57 then Some (c - 48)
      else if 97 \<le> c \<and> c \<le> 102 then Some (c - 87)
      else if 65 \<le> c \<and> c \<le> 70 then Some (c - 55) else None)"

definition hex4 :: "nat \<Rightarrow> nat \<Rightarrow> nat \<Rightarrow> nat \<Rightarrow> nat option" where
  "hex4 a b c d =
     (case (hex_val a, hex_val b, hex_val c, hex_val d) of
        (Some x, Some y, Some z, Some u) \<Rightarrow> Some (x * 4096 + y * 256 + z * 16 + u)
      | _ \<Rightarrow> None)"

definition simple_escape :: "nat \<Rightarrow> nat option" where
  "simple_escape e =
     (if e = 34 \<or> e = 92 \<or> e = 47 then Some e
      else if e = 98 then Some 8 else if e = 102 then Some 12 else if e = 110 then Some 10
      else if e = 114 then Some 13 else if e = 116 then Some 9 else None)"

definition high_surrogate :: "nat \<Rightarrow> bool" where
  "high_surrogate r \<longleftrightarrow> 0xD800 \<le> r \<and> r < 0xDC00"

definition low_surrogate :: "nat \<Rightarrow> bool" where
  "low_surrogate r \<longleftrightarrow> 0xDC00 \<le> r \<and> r \<le> 0xDFFF"

text \<open>The text between the quotes, rune by rune; a lone surrogate becomes U+FFFD.\<close>

fun unescape :: "nat list \<Rightarrow> nat list option" where
  "unescape [] = Some []"
| "unescape (r # rs) =
     (if r \<noteq> 92 then map_option ((#) r) (unescape rs)
      else case rs of
        [] \<Rightarrow> None
      | e # rest \<Rightarrow>
          if e \<noteq> 117 then
            (case simple_escape e of None \<Rightarrow> None | Some x \<Rightarrow> map_option ((#) x) (unescape rest))
          else case rest of
            a # b # c # d # rest' \<Rightarrow>
              (case hex4 a b c d of
                 None \<Rightarrow> None
               | Some x \<Rightarrow>
                   if high_surrogate x then
                     (case rest' of
                        s # u # a' # b' # c' # d' # rest'' \<Rightarrow>
                          (case (if s = 92 \<and> u = 117 then hex4 a' b' c' d' else None) of
                             Some y \<Rightarrow>
                               if low_surrogate y
                               then map_option ((#) ((x - 0xD800) * 1024 + (y - 0xDC00) + 0x10000)) (unescape rest'')
                               else map_option ((#) RuneError) (unescape rest')
                           | None \<Rightarrow> map_option ((#) RuneError) (unescape rest'))
                      | _ \<Rightarrow> map_option ((#) RuneError) (unescape rest'))
                   else if low_surrogate x then map_option ((#) RuneError) (unescape rest')
                   else map_option ((#) x) (unescape rest'))
          | _ \<Rightarrow> None)"

definition unquote :: "bytes \<Rightarrow> bytes option" where
  "unquote raw = map_option string_of_runes (unescape (runes raw))"

subsection \<open>Numbers\<close>

definition is_digit :: "char \<Rightarrow> bool" where
  "is_digit c \<longleftrightarrow> 48 \<le> char_code c \<and> char_code c \<le> 57"

text \<open>An optional minus sign, digits without a leading zero, a fraction, an exponent.\<close>

definition valid_exp :: "string \<Rightarrow> bool" where
  "valid_exp s \<longleftrightarrow>
     (case s of
        [] \<Rightarrow> True
      | e # t \<Rightarrow>
          (e = CHR ''e'' \<or> e = CHR ''E'') \<and>
          (let ds = (case t of [] \<Rightarrow> [] | c # t' \<Rightarrow> if c = CHR ''+'' \<or> c = CHR ''-'' then t' else t) in
           ds \<noteq> [] \<and> list_all is_digit ds))"

definition valid_number :: "string \<Rightarrow> bool" where
  "valid_number s \<longleftrightarrow>
     (let s1 = (case s of [] \<Rightarrow> [] | c # t \<Rightarrow> if c = CHR ''-'' then t else s);
          ip = takeWhile is_digit s1;
          s2 = dropWhile is_digit s1
      in ip \<noteq> [] \<and> (hd ip \<noteq> CHR ''0'' \<or> length ip = 1) \<and>
         (case s2 of
            [] \<Rightarrow> True
          | c # t \<Rightarrow>
              if c = CHR ''.'' then takeWhile is_digit t \<noteq> [] \<and> valid_exp (dropWhile is_digit t)
              else valid_exp s2))"

subsection \<open>Tokens\<close>

datatype token = TLBrace | TRBrace | TLBrack | TRBrack | TColon | TComma
  | TString bytes | TNumber string | TTrue | TFalse | TNull

datatype lex_state = LStart | LWord string | LString bytes | LEscape bytes

definition punctuation :: "char \<Rightarrow> token option" where
  "punctuation c =
     (if c = CHR ''{'' then Some TLBrace else if c = CHR ''}'' then Some TRBrace
      else if c = CHR ''['' then Some TLBrack else if c = CHR '']'' then Some TRBrack
      else if c = CHR '':'' then Some TColon else if c = CHR '','' then Some TComma else None)"

definition json_space :: "char \<Rightarrow> bool" where
  "json_space c \<longleftrightarrow> c = CHR '' '' \<or> c = CHR 0x09 \<or> c = CHR 0x0A \<or> c = CHR 0x0D"

definition word_token :: "string \<Rightarrow> token option" where
  "word_token w =
     (if w = ''true'' then Some TTrue else if w = ''false'' then Some TFalse
      else if w = ''null'' then Some TNull
      else if valid_number w then Some (TNumber w) else None)"

text \<open>What a byte outside strings begins: a token of its own, white space, a string, a word.\<close>

definition lex_char :: "char \<Rightarrow> token list \<times> lex_state" where
  "lex_char c =
     (case punctuation c of
        Some t \<Rightarrow> ([t], LStart)
      | None \<Rightarrow> if json_space c then ([], LStart)
                else if c = CHR 0x22 then ([], LString []) else ([], LWord [c]))"

fun lex :: "lex_state \<Rightarrow> bytes \<Rightarrow> token list option" where
  "lex LStart [] = Some []"
| "lex (LWord w) [] = map_option (\<lambda>t. [t]) (word_token (rev w))"
| "lex _ [] = None"
| "lex LStart (c # cs) = (case lex_char c of (ts, st) \<Rightarrow> map_option ((@) ts) (lex st cs))"
| "lex (LWord w) (c # cs) =
     (if punctuation c = None \<and> \<not> json_space c \<and> c \<noteq> CHR 0x22 then lex (LWord (c # w)) cs
      else case word_token (rev w) of
             None \<Rightarrow> None
           | Some t \<Rightarrow> (case lex_char c of (ts, st) \<Rightarrow> map_option (\<lambda>r. t # ts @ r) (lex st cs)))"
| "lex (LString raw) (c # cs) =
     (if c = CHR 0x22 then
        (case unquote (rev raw) of None \<Rightarrow> None | Some s \<Rightarrow> map_option ((#) (TString s)) (lex LStart cs))
      else if c = CHR 0x5C then lex (LEscape (c # raw)) cs
      else if char_code c < 0x20 then None
      else lex (LString (c # raw)) cs)"
| "lex (LEscape raw) (c # cs) = lex (LString (c # raw)) cs"

subsection \<open>Documents\<close>

definition maxNestingDepth :: nat where
  "maxNestingDepth = 10000"

datatype frame = FArray "json list" | FObject "(bytes \<times> json) list" bytes

datatype expect = EValue | EValueOrEnd | EKey | EKeyOrEnd | EColon | ENext | EDone json

definition finish_value :: "json \<Rightarrow> frame list \<Rightarrow> expect \<times> frame list" where
  "finish_value v stk =
     (case stk of
        [] \<Rightarrow> (EDone v, [])
      | FArray vs # fs \<Rightarrow> (ENext, FArray (v # vs) # fs)
      | FObject kvs k # fs \<Rightarrow> (ENext, FObject ((k, v) # kvs) k # fs))"

definition push_frame :: "expect \<Rightarrow> frame \<Rightarrow> frame list \<Rightarrow> (expect \<times> frame list) option" where
  "push_frame e f stk = (if length stk < maxNestingDepth then Some (e, f # stk) else None)"

definition begin_value :: "token \<Rightarrow> frame list \<Rightarrow> (expect \<times> frame list) option" where
  "begin_value t stk =
     (case t of
        TLBrace \<Rightarrow> push_frame EKeyOrEnd (FObject [] []) stk
      | TLBrack \<Rightarrow> push_frame EValueOrEnd (FArray []) stk
      | TString s \<Rightarrow> Some (finish_value (JString s) stk)
      | TNumber n \<Rightarrow> Some (finish_value (JNumber n) stk)
      | TTrue \<Rightarrow> Some (finish_value (JBool True) stk)
      | TFalse \<Rightarrow> Some (finish_value (JBool False) stk)
      | TNull \<Rightarrow> Some (finish_value JNull stk)
      | _ \<Rightarrow> None)"

definition end_frame :: "token \<Rightarrow> frame list \<Rightarrow> (expect \<times> frame list) option" where
  "end_frame t stk =
     (case stk of
        FArray vs # fs \<Rightarrow> if t = TRBrack then Some (finish_value (JArray (rev vs)) fs) else None
      | FObject kvs k # fs \<Rightarrow> if t = TRBrace then Some (finish_value (JObject (rev kvs)) fs) else None
      | [] \<Rightarrow> None)"

definition object_key :: "token \<Rightarrow> frame list \<Rightarrow> (expect \<times> frame list) option" where
  "object_key t stk =
     (case (t, stk) of
        (TString k, FObject kvs k0 # fs) \<Rightarrow> Some (EColon, FObject kvs k # fs)
      | _ \<Rightarrow> None)"

definition next_token :: "token \<Rightarrow> frame list \<Rightarrow> (expect \<times> frame list) option" where
  "next_token t stk =
     (if t = TComma then
        (case stk of
           FArray vs # fs \<Rightarrow> Some (EValue, stk)
         | FObject kvs k # fs \<Rightarrow> Some (EKey, stk)
         | [] \<Rightarrow> None)
      else end_frame t stk)"

definition parse_step :: "token \<Rightarrow> expect \<times> frame list \<Rightarrow> (expect \<times> frame list) option" where
  "parse_step t st =
     (case st of (e, stk) \<Rightarrow>
        (case e of
           EValue \<Rightarrow> begin_value t stk
         | EValueOrEnd \<Rightarrow> if t = TRBrack then end_frame t stk else begin_value t stk
         | EKey \<Rightarrow> object_key t stk
         | EKeyOrEnd \<Rightarrow> if t = TRBrace then end_frame t stk else object_key t stk
         | EColon \<Rightarrow> if t = TColon then Some (EValue, stk) else None
         | ENext \<Rightarrow> next_token t stk
         | EDone v \<Rightarrow> None))"

fun parse_tokens :: "token list \<Rightarrow> expect \<times> frame list \<Rightarrow> json option" where
  "parse_tokens [] st = (case fst st of EDone v \<Rightarrow> Some v | _ \<Rightarrow> None)"
| "parse_tokens (t # ts) st = (case parse_step t st of None \<Rightarrow> None | Some st' \<Rightarrow> parse_tokens ts st')"

text \<open>The document, or \<open>None\<close> for a syntax error; \<open>json.Valid\<close> is that it is not \<open>None\<close>.\<close>

definition json_parse :: "bytes \<Rightarrow> json option" where
  "json_parse s = (case lex LStart s of None \<Rightarrow> None | Some ts \<Rightarrow> parse_tokens ts (EValue, []))"

subsection \<open>Decoding into struct fields\<close>

text \<open>
  \<open>json.Unmarshal\<close> into a struct takes the members of an object in order; a key selects
  the field of that name, or one that differs from it in the case of letters only; an unknown
  key is skipped, null leaves a field as it is. A value of the wrong type leaves the field and
  the whole call fails, after the remaining members were decoded.
\<close>

definition fold_rune :: "nat \<Rightarrow> nat" where
  "fold_rune r =
     (if 65 \<le> r \<and> r \<le> 90 then r + 32 else if r = 0x212A then 107 else if r = 0x17F then 115 else r)"

definition same_key :: "string \<Rightarrow> bytes \<Rightarrow> bool" where
  "same_key name k \<longleftrightarrow> map fold_rune (runes k) = map fold_rune (runes name)"

text \<open>A decoder takes the old value to the new one and tells whether the types agreed.\<close>

type_synonym 'a decoder = "json \<Rightarrow> 'a \<Rightarrow> 'a \<times> bool"

definition decode_string :: "bytes decoder" where
  "decode_string v old = (case v of JString s \<Rightarrow> (s, True) | JNull \<Rightarrow> (old, True) | _ \<Rightarrow> (old, False))"

definition decode_bool :: "bool decoder" where
  "decode_bool v old = (case v of JBool b \<Rightarrow> (b, True) | JNull \<Rightarrow> (old, True) | _ \<Rightarrow> (old, False))"

fun decode_elems :: "'a decoder \<Rightarrow> 'a \<Rightarrow> json list \<Rightarrow> 'a list \<times> bool" where
  "decode_elems f zero [] = ([], True)"
| "decode_elems f zero (v # vs) =
     (case f v zero of (x, ok) \<Rightarrow> case decode_elems f zero vs of (xs, oks) \<Rightarrow> (x # xs, ok \<and> oks))"

text \<open>A nil slice is \<open>None\<close>; null sets a slice to nil.\<close>

definition decode_slice :: "'a decoder \<Rightarrow> 'a \<Rightarrow> 'a slice decoder" where
  "decode_slice f zero v old =
     (case v of
        JArray vs \<Rightarrow> (case decode_elems f zero vs of (xs, ok) \<Rightarrow> (Some xs, ok))
      | JNull \<Rightarrow> (None, True)
      | _ \<Rightarrow> (old, False))"

definition decode_pointer :: "'a decoder \<Rightarrow> 'a \<Rightarrow> 'a option decoder" where
  "decode_pointer f zero v old =
     (if v = JNull then (None, True)
      else case f v (case old of None \<Rightarrow> zero | Some x \<Rightarrow> x) of (x, ok) \<Rightarrow> (Some x, ok))"

text \<open>The fields of a struct: the name of each and how a value is decoded into it.\<close>

type_synonym 'a fields = "(string \<times> 'a decoder) list"

definition find_field :: "'a fields \<Rightarrow> bytes \<Rightarrow> 'a decoder option" where
  "find_field fs k =
     (case find (\<lambda>f. fst f = k) fs of
        Some f \<Rightarrow> Some (snd f)
      | None \<Rightarrow> map_option snd (find (\<lambda>f. same_key (fst f) k) fs))"

fun decode_members :: "'a fields \<Rightarrow> (bytes \<times> json) list \<Rightarrow> 'a \<Rightarrow> 'a \<times> bool" where
  "decode_members fs [] x = (x, True)"
| "decode_members fs ((k, v) # kvs) x =
     (case (case find_field fs k of None \<Rightarrow> (x, True) | Some f \<Rightarrow> f v x) of
        (x', ok) \<Rightarrow> (case decode_members fs kvs x' of (x'', oks) \<Rightarrow> (x'', ok \<and> oks)))"

definition decode_struct :: "'a fields \<Rightarrow> 'a decoder" where
  "decode_struct fs v x =
     (case v of JObject kvs \<Rightarrow> decode_members fs kvs x | JNull \<Rightarrow> (x, True) | _ \<Rightarrow> (x, False))"

definition Unmarshal :: "'a decoder \<Rightarrow> 'a \<Rightarrow> bytes \<Rightarrow> 'a option" where
  "Unmarshal f zero s =
     (case json_parse s of
        None \<Rightarrow> None
      | Some v \<Rightarrow> (case f v zero of (x, ok) \<Rightarrow> if ok then Some x else None))"

subsection \<open>Writing\<close>

text \<open>
  \<open>json.Marshal\<close> escapes quotes, backslashes, control characters, the characters that
  matter to HTML and the two line separators; a byte that is not UTF-8 is written as the
  escape of U+FFFD.
\<close>

definition hex_digit :: "nat \<Rightarrow> nat" where
  "hex_digit k = (if k < 10 then 48 + k else 87 + k)"

definition esc_rune :: "nat \<Rightarrow> nat list" where
  "esc_rune r =
     (if r = 34 \<or> r = 92 then [92, r]
      else if r = 8 then [92, 98] else if r = 12 then [92, 102] else if r = 10 then [92, 110]
      else if r = 13 then [92, 114] else if r = 9 then [92, 116]
      else if r < 32 \<or> r = 60 \<or> r = 62 \<or> r = 38 then [92, 117, 48, 48, hex_digit (r div 16), hex_digit (r mod 16)]
      else if r = 0x2028 \<or> r = 0x2029 then [92, 117, 50, 48, 50, hex_digit (r mod 16)]
      else [r])"

definition bad_rune :: "nat list" where
  "bad_rune = [92, 117, 102, 102, 102, 100]"

function quote_runes :: "nat list \<Rightarrow> nat list" where
  "quote_runes [] = []"
| "quote_runes (b0 # rest) =
     (case decode_rune b0 rest of (r, rest') \<Rightarrow>
        (if r = RuneError \<and> length rest' = length rest then bad_rune else esc_rune r) @ quote_runes rest')"
  by pat_completeness auto
termination
  by (relation "measure length") (use decode_rune_shorter in \<open>auto dest!: arg_cong [of _ _ snd] simp: less_Suc_eq_le\<close>)

definition quote_body :: "bytes \<Rightarrow> bytes" where
  "quote_body s = string_of_runes (quote_runes (map char_code s))"

definition quote :: "bytes \<Rightarrow> bytes" where
  "quote s = [CHR 0x22] @ quote_body s @ [CHR 0x22]"

text \<open>The members of an object are written in the order given.\<close>

fun Marshal :: "json \<Rightarrow> bytes" where
  "Marshal JNull = ''null''"
| "Marshal (JBool b) = (if b then ''true'' else ''false'')"
| "Marshal (JNumber n) = n"
| "Marshal (JString s) = quote s"
| "Marshal (JArray vs) = ''['' @ Join (map Marshal vs) '','' @ '']''"
| "Marshal (JObject kvs) = ''{'' @ Join (map (\<lambda>kv. quote (fst kv) @ '':'' @ Marshal (snd kv)) kvs) '','' @ ''}''"

subsection \<open>What is written is read back\<close>

text \<open>The text a byte string is read back as: itself when it is UTF-8.\<close>

definition coerce_utf8 :: "bytes \<Rightarrow> bytes" where
  "coerce_utf8 s = string_of_runes (runes s)"

lemma hex_val_digit: "k < 16 \<Longrightarrow> hex_val (hex_digit k) = Some k"
  by (auto simp: hex_val_def hex_digit_def)

lemma unescape_u:
  assumes "hex4 a b c d = Some x" and "\<not> high_surrogate x" and "\<not> low_surrogate x"
  shows "unescape (92 # 117 # a # b # c # d # rs) = map_option ((#) x) (unescape rs)"
  using assms by simp

lemma unescape_bad: "unescape (bad_rune @ rs) = map_option ((#) RuneError) (unescape rs)"
proof -
  have "hex4 102 102 102 100 = Some RuneError" by (simp add: hex4_def hex_val_def RuneError_def)
  from unescape_u [OF this, of rs] show ?thesis
    by (simp add: bad_rune_def high_surrogate_def low_surrogate_def RuneError_def)
qed

lemma esc_rune_cases:
  obtains (short) e where "esc_rune r = [92, e]" "e < 128" "e \<noteq> 117" "simple_escape e = Some r"
    | (control) "r < 64" "esc_rune r = [92, 117, 48, 48, hex_digit (r div 16), hex_digit (r mod 16)]"
    | (separator) "r = 0x2028 \<or> r = 0x2029" "esc_rune r = [92, 117, 50, 48, 50, hex_digit (r mod 16)]"
    | (plain) "r \<noteq> 34" "r \<noteq> 92" "32 \<le> r" "esc_rune r = [r]"
proof (cases "r \<in> {34, 92, 8, 12, 10, 13, 9}")
  case True
  then have "\<exists>e. esc_rune r = [92, e] \<and> e < 128 \<and> e \<noteq> 117 \<and> simple_escape e = Some r"
    by (auto simp: esc_rune_def simple_escape_def)
  then show thesis using short by blast
next
  case False
  show thesis
  proof (cases "r < 32 \<or> r = 60 \<or> r = 62 \<or> r = 38")
    case True
    with False show thesis by (intro control) (auto simp: esc_rune_def)
  next
    case plain': False
    show thesis
    proof (cases "r = 0x2028 \<or> r = 0x2029")
      case True
      then show thesis by (intro separator) (auto simp: esc_rune_def)
    next
      case False
      with plain' \<open>r \<notin> _\<close> show thesis by (intro plain) (auto simp: esc_rune_def)
    qed
  qed
qed

lemma unescape_esc: "unescape (esc_rune r @ rs) = map_option ((#) r) (unescape rs)"
proof (cases rule: esc_rune_cases [of r])
  case control
  then have "r div 16 < 16" by auto
  then have "hex4 48 48 (hex_digit (r div 16)) (hex_digit (r mod 16)) = Some r"
    by (simp add: hex4_def hex_val_digit) (simp add: hex_val_def)
  from unescape_u [OF this] control show ?thesis by (simp add: high_surrogate_def low_surrogate_def)
next
  case separator
  then have "hex4 50 48 50 (hex_digit (r mod 16)) = Some r"
    by (auto simp: hex4_def hex_val_def hex_digit_def)
  from unescape_u [OF this] separator show ?thesis by (auto simp: high_surrogate_def low_surrogate_def)
qed simp_all

lemma unescape_quote_runes: "unescape (quote_runes bs) = Some (rune_list bs)"
proof (induction bs rule: quote_runes.induct)
  case (2 b0 rest)
  obtain r rest' where d: "decode_rune b0 rest = (r, rest')" by (cases "decode_rune b0 rest")
  with "2.IH" [OF d [symmetric]] show ?case by (auto simp: unescape_esc unescape_bad)
qed simp

lemma hex_digit_range: "k < 16 \<Longrightarrow> 48 \<le> hex_digit k \<and> hex_digit k < 103 \<and> hex_digit k \<noteq> 92"
  by (auto simp: hex_digit_def)

lemma esc_rune_valid: "valid_rune r \<Longrightarrow> x \<in> set (esc_rune r) \<Longrightarrow> valid_rune x"
proof (cases rule: esc_rune_cases [of r])
  assume x: "x \<in> set (esc_rune r)"
  case control
  then have "r div 16 < 16" by auto
  with x control hex_digit_range [of "r mod 16"] hex_digit_range [of "r div 16"] show ?thesis
    by (auto simp: valid_rune_def)
qed (use hex_digit_range [of "r mod 16"] in \<open>auto simp: valid_rune_def\<close>)

lemma quote_runes_valid: "\<forall>b\<in>set bs. b < 256 \<Longrightarrow> x \<in> set (quote_runes bs) \<Longrightarrow> valid_rune x"
proof (induction bs rule: quote_runes.induct)
  case (2 b0 rest)
  obtain r rest' where d: "decode_rune b0 rest = (r, rest')" by (cases "decode_rune b0 rest")
  then have "set rest' \<subseteq> set rest" "valid_rune r"
    using decode_rune_suffix [of b0 rest] decode_rune_valid [of b0 rest] "2.prems" by auto
  moreover have "valid_rune y" if "y \<in> set bad_rune" for y using that by (auto simp: bad_rune_def valid_rune_def)
  moreover have "x \<in> set bad_rune \<or> x \<in> set (esc_rune r) \<or> x \<in> set (quote_runes rest')"
    using "2.prems"(2) d by (auto split: if_splits)
  moreover have "\<forall>b\<in>set rest'. b < 256" using calculation(1) "2.prems"(1) by auto
  ultimately show ?case using "2.IH" [OF d [symmetric]] esc_rune_valid by blast
qed simp

lemma unquote_quote_body: "unquote (quote_body s) = Some (coerce_utf8 s)"
proof -
  have "runes (quote_body s) = quote_runes (map char_code s)"
    unfolding quote_body_def using quote_runes_valid [of "map char_code s"]
    by (intro runes_string_of_runes) (auto simp: char_code_def)
  then show ?thesis by (simp add: unquote_def unescape_quote_runes coerce_utf8_def runes_def)
qed

text \<open>The lexer runs over the body of a quoted string without leaving it.\<close>

definition plain_byte :: "char \<Rightarrow> bool" where
  "plain_byte c \<longleftrightarrow> c \<noteq> CHR 0x22 \<and> c \<noteq> CHR 0x5C \<and> 0x20 \<le> char_code c"

lemma lex_plain: "list_all plain_byte cs \<Longrightarrow> lex (LString acc) (cs @ rest) = lex (LString (rev cs @ acc)) rest"
  by (induction cs arbitrary: acc) (auto simp: plain_byte_def)

lemma plain_byte_code:
  fixes b :: nat
  assumes "32 \<le> b" "b < 256" "b \<noteq> 34" "b \<noteq> 92"
  shows "plain_byte (char_of b)"
proof -
  have "char_code (char_of b) = b" using assms by (simp add: char_code_def of_char_of)
  moreover have "char_code (CHR 0x22) = 34" "char_code (CHR 0x5C) = 92" by (simp_all add: char_code_def)
  ultimately show ?thesis using assms unfolding plain_byte_def by metis
qed

lemma char_of_backslash [simp]: "char_of (92::nat) = CHR 0x5C"
  by (simp add: char_of_eq_iff)

lemma EncodeRune_ascii: "r < 128 \<Longrightarrow> EncodeRune r = [char_of r]"
  by (simp add: EncodeRune_def valid_rune_def rune_codes_def)

lemma EncodeRune_plain:
  assumes "r \<noteq> 34" "r \<noteq> 92" "32 \<le> r"
  shows "list_all plain_byte (EncodeRune r)"
proof -
  let ?r = "if valid_rune r then r else RuneError"
  have v: "valid_rune ?r" by (simp add: valid_rune_def RuneError_def)
  have "plain_byte (char_of b)" if "b \<in> set (rune_codes ?r)" for b
  proof (rule plain_byte_code)
    show "b < 256" using rune_codes_byte [OF v that] .
    have "b = ?r \<and> valid_rune r \<or> 0x80 \<le> b" using that by (auto simp: rune_codes_def RuneError_def split: if_splits)
    then show "32 \<le> b" "b \<noteq> 34" "b \<noteq> 92" using assms by auto
  qed
  then show ?thesis by (auto simp: EncodeRune_def list_all_iff)
qed

lemma string_of_runes_simps [simp]:
  "string_of_runes [] = []" "string_of_runes (r # rs) = EncodeRune r @ string_of_runes rs"
  "string_of_runes (rs @ rs') = string_of_runes rs @ string_of_runes rs'"
  by (simp_all add: string_of_runes_def)

lemma lex_u_escape:
  assumes "\<forall>h\<in>set hs. 48 \<le> h \<and> h < 103 \<and> h \<noteq> 92"
  shows "lex (LString acc) (string_of_runes (92 # 117 # hs) @ rest) =
    lex (LString (rev (string_of_runes (92 # 117 # hs)) @ acc)) rest"
proof -
  have "list_all plain_byte (string_of_runes hs)"
    using assms by (induction hs) (auto simp: EncodeRune_plain)
  from lex_plain [OF this] show ?thesis by (simp add: EncodeRune_ascii)
qed

lemma lex_esc:
  "lex (LString acc) (string_of_runes (esc_rune r) @ rest) = lex (LString (rev (string_of_runes (esc_rune r)) @ acc)) rest"
proof (cases rule: esc_rune_cases [of r])
  case (short e)
  then show ?thesis by (simp add: EncodeRune_ascii)
next
  case control
  then have "r div 16 < 16" by auto
  with control hex_digit_range [of "r mod 16"] hex_digit_range [of "r div 16"] show ?thesis
    unfolding control(2) by (intro lex_u_escape) auto
next
  case separator
  with hex_digit_range [of "r mod 16"] show ?thesis
    unfolding separator(2) by (intro lex_u_escape) auto
next
  case plain
  then show ?thesis using lex_plain [OF EncodeRune_plain [OF plain(1-3)]] by simp
qed

lemma lex_quote_runes:
  "lex (LString acc) (string_of_runes (quote_runes bs) @ rest) = lex (LString (rev (string_of_runes (quote_runes bs)) @ acc)) rest"
proof (induction bs arbitrary: acc rule: quote_runes.induct)
  case (2 b0 rs)
  obtain r rs' where d: "decode_rune b0 rs = (r, rs')" by (cases "decode_rune b0 rs")
  have bad: "lex (LString a) (string_of_runes bad_rune @ t) = lex (LString (rev (string_of_runes bad_rune) @ a)) t" for a t
    unfolding bad_rune_def by (rule lex_u_escape) simp
  show ?case using "2.IH" [OF d [symmetric]] bad [of acc] lex_esc [of acc r] d by simp
qed simp

text \<open>A quoted string is one token: the string it stands for.\<close>

lemma lex_quote:
  "lex LStart (quote s @ rest) = map_option ((#) (TString (coerce_utf8 s))) (lex LStart rest)"
proof -
  have "lex LStart (quote s @ rest) = lex (LString []) (quote_body s @ CHR 0x22 # rest)"
    by (cases "lex (LString []) (quote_body s @ CHR 0x22 # rest)")
      (simp_all add: quote_def lex_char_def punctuation_def json_space_def)
  also have "\<dots> = lex (LString (rev (quote_body s))) (CHR 0x22 # rest)"
    unfolding quote_body_def using lex_quote_runes [of "[]"] by simp
  finally show ?thesis by (simp add: unquote_quote_body)
qed

lemma lex_punctuation:
  "punctuation c = Some t \<Longrightarrow> lex LStart (c # rest) = map_option ((#) t) (lex LStart rest)"
  by (cases "lex LStart rest") (auto simp: lex_char_def)

text \<open>Text without characters that need escaping is quoted as it is.\<close>

definition plain_text :: "bytes \<Rightarrow> bool" where
  "plain_text s \<longleftrightarrow> list_all (\<lambda>c. 32 \<le> char_code c \<and> char_code c < 128 \<and> char_code c \<notin> {34, 92, 60, 62, 38}) s"

lemma quote_runes_plain:
  "\<forall>b\<in>set bs. 32 \<le> b \<and> b < 128 \<and> b \<notin> {34, 92, 60, 62, 38} \<Longrightarrow> quote_runes bs = bs"
  by (induction bs) (auto simp: decode_rune.simps esc_rune_def RuneError_def)

lemma quote_plain: "plain_text s \<Longrightarrow> quote s = [CHR 0x22] @ s @ [CHR 0x22]"
proof -
  assume s: "plain_text s"
  then have "quote_runes (map char_code s) = map char_code s"
    by (intro quote_runes_plain) (auto simp: plain_text_def list_all_iff)
  moreover have "string_of_runes (map char_code s) = s"
    using s by (induction s) (auto simp: plain_text_def EncodeRune_ascii char_code_def)
  ultimately show ?thesis by (simp add: quote_def quote_body_def)
qed

lemma quote_code [code]:
  "quote s = (if plain_text s then [CHR 0x22] @ s @ [CHR 0x22] else [CHR 0x22] @ quote_body s @ [CHR 0x22])"
  by (cases "plain_text s") (simp add: quote_plain, simp add: quote_def)

text \<open>An object of strings, as the server writes its requests.\<close>

definition string_object :: "(bytes \<times> bytes) list \<Rightarrow> json" where
  "string_object kvs = JObject (map (\<lambda>kv. (fst kv, JString (snd kv))) kvs)"

definition member_text :: "bytes \<times> bytes \<Rightarrow> bytes" where
  "member_text kv = quote (fst kv) @ '':'' @ quote (snd kv)"

fun member_tokens :: "(bytes \<times> bytes) list \<Rightarrow> token list" where
  "member_tokens [] = []"
| "member_tokens [kv] = [TString (coerce_utf8 (fst kv)), TColon, TString (coerce_utf8 (snd kv))]"
| "member_tokens (kv # kvs) =
     TString (coerce_utf8 (fst kv)) # TColon # TString (coerce_utf8 (snd kv)) # TComma # member_tokens kvs"

lemma lex_member:
  "lex LStart (member_text kv @ rest) =
     map_option (\<lambda>ts. TString (coerce_utf8 (fst kv)) # TColon # TString (coerce_utf8 (snd kv)) # ts) (lex LStart rest)"
  using lex_punctuation [of "CHR '':''" TColon "quote (snd kv) @ rest"]
  by (simp add: member_text_def lex_quote punctuation_def option.map_comp comp_def)

lemma lex_members:
  "lex LStart (Join (map member_text kvs) '','' @ rest) = map_option ((@) (member_tokens kvs)) (lex LStart rest)"
proof (induction kvs rule: member_tokens.induct)
  case 1
  show ?case by (cases "lex LStart rest") simp_all
next
  case (2 kv)
  show ?case by (simp add: lex_member)
next
  case (3 kv kv' kvs)
  have c: "lex LStart (CHR '','' # Join (map member_text (kv' # kvs)) '','' @ rest) =
      map_option ((#) TComma) (map_option ((@) (member_tokens (kv' # kvs))) (lex LStart rest))"
    using lex_punctuation [of "CHR '',''" TComma] 3 by (simp add: punctuation_def)
  have "Join (map member_text (kv # kv' # kvs)) '','' @ rest =
      member_text kv @ CHR '','' # Join (map member_text (kv' # kvs)) '','' @ rest" by simp
  then show ?case
    by (simp only: lex_member c option.map_comp) (simp add: comp_def)
qed

lemma parse_members:
  "kvs \<noteq> [] \<Longrightarrow> parse_tokens (member_tokens kvs @ [TRBrace]) (EKey, [FObject acc k0]) =
     Some (JObject (rev acc @ map (\<lambda>kv. (coerce_utf8 (fst kv), JString (coerce_utf8 (snd kv)))) kvs))"
  by (induction kvs arbitrary: acc k0 rule: member_tokens.induct)
    (simp_all add: parse_step_def object_key_def begin_value_def finish_value_def next_token_def end_frame_def)

lemma Marshal_string_object:
  "Marshal (string_object kvs) = ''{'' @ Join (map member_text kvs) '','' @ ''}''"
proof -
  have "member_text = (\<lambda>kv. quote (fst kv) @ '':'' @ quote (snd kv))" by (rule ext) (rule member_text_def)
  then show ?thesis by (simp add: string_object_def comp_def)
qed

text \<open>An object of strings is read back member by member.\<close>

lemma json_parse_string_object:
  "json_parse (Marshal (string_object kvs)) =
     Some (string_object (map (\<lambda>kv. (coerce_utf8 (fst kv), coerce_utf8 (snd kv))) kvs))"
proof -
  have "lex LStart (Marshal (string_object kvs)) = Some (TLBrace # member_tokens kvs @ [TRBrace])"
    unfolding Marshal_string_object
    using lex_punctuation [of "CHR ''{''" TLBrace] lex_punctuation [of "CHR ''}''" TRBrace "[]"]
    by (simp add: punctuation_def lex_members)
  moreover have "parse_tokens (TLBrace # member_tokens kvs @ [TRBrace]) (EValue, []) =
      Some (string_object (map (\<lambda>kv. (coerce_utf8 (fst kv), coerce_utf8 (snd kv))) kvs))"
  proof (cases kvs)
    case Nil
    then show ?thesis
      by (simp add: parse_step_def begin_value_def push_frame_def maxNestingDepth_def end_frame_def
          finish_value_def string_object_def)
  next
    case (Cons kv kvs')
    then have "\<exists>k ts. member_tokens kvs = TString k # ts" by (cases kvs') auto
    then have "parse_tokens (member_tokens kvs @ [TRBrace]) (EKeyOrEnd, [FObject [] []]) =
        parse_tokens (member_tokens kvs @ [TRBrace]) (EKey, [FObject [] []])"
      by (auto simp: parse_step_def)
    with parse_members [of kvs "[]" "[]"] Cons show ?thesis
      by (simp add: parse_step_def begin_value_def push_frame_def maxNestingDepth_def string_object_def comp_def)
  qed
  ultimately show ?thesis by (simp add: json_parse_def)
qed

text \<open>Text of ASCII characters is UTF-8.\<close>

lemma rune_list_ascii: "\<forall>b\<in>set bs. b < 128 \<Longrightarrow> rune_list bs = bs"
  by (induction bs) (auto simp: decode_rune.simps)

lemma coerce_ascii:
  assumes "\<forall>c\<in>set s. char_code c < 128"
  shows "coerce_utf8 s = s"
proof -
  have "runes s = map char_code s"
    unfolding runes_def using assms by (intro rune_list_ascii) auto
  moreover have "string_of_runes (map char_code s) = s"
    using assms by (induction s) (auto simp: EncodeRune_ascii char_code_def)
  ultimately show ?thesis by (simp add: coerce_utf8_def)
qed

lemma coerce_utf8_runes: "runes (coerce_utf8 s) = runes s"
  unfolding coerce_utf8_def using runes_valid by (intro runes_string_of_runes) blast

end
