(* ===== verification/Http.thy ===== *)
theory Http
  imports Json
begin

text \<open>
  HTTP as the clients and handlers use it. A request carries a method, the URL as given to
  \<open>http.NewRequest\<close>, headers and a body; the transport (the network and the server behind
  it) is a parameter of the clients: the response to a request, or \<open>None\<close> when
  \<open>http.Client.Do\<close> fails. A response body that breaks off carries the bytes read before.
\<close>

record Request =
  rq_Method :: string
  rq_URL :: string
  rq_Header :: "(string \<times> string) list"
  rq_Body :: bytes

record Response =
  rs_StatusCode :: int
  rs_Body :: bytes
  rs_BrokenOff :: bool

type_synonym transport = "Request \<Rightarrow> Response option"

subsection \<open>URLs\<close>

fun valid_escapes :: "string \<Rightarrow> bool" where
  "valid_escapes [] = True"
| "valid_escapes (c # cs) =
     (if c = CHR ''%'' then
        (case cs of
           a # b # rest \<Rightarrow> hex_val (char_code a) \<noteq> None \<and> hex_val (char_code b) \<noteq> None \<and> valid_escapes rest
         | _ \<Rightarrow> False)
      else valid_escapes cs)"

definition is_ctl :: "char \<Rightarrow> bool" where
  "is_ctl c \<longleftrightarrow> char_code c < 0x20 \<or> char_code c = 0x7F"

text \<open>
  \<open>url.Parse\<close> on a URL with a well-formed scheme and host: no control byte before the
  fragment, and well-formed percent escapes in the path and in the fragment. The query is
  taken as it is.
\<close>

definition url_parses :: "string \<Rightarrow> bool" where
  "url_parses u \<longleftrightarrow>
     (case SplitN2 (CHR ''#'') u of
        main # fragment \<Rightarrow>
          list_all (\<lambda>c. \<not> is_ctl c) main \<and> valid_escapes (hd (SplitN2 (CHR ''?'') main)) \<and>
          list_all valid_escapes fragment
      | [] \<Rightarrow> True)"

definition NewRequest :: "string \<Rightarrow> string \<Rightarrow> bytes \<Rightarrow> Request option" where
  "NewRequest method url body =
     (if url_parses url then Some \<lparr>rq_Method = method, rq_URL = url, rq_Header = [], rq_Body = body\<rparr> else None)"

definition set_header :: "string \<Rightarrow> string \<Rightarrow> Request \<Rightarrow> Request" where
  "set_header k v req = req\<lparr>rq_Header := (k, v) # filter (\<lambda>h. fst h \<noteq> k) (rq_Header req)\<rparr>"

definition get_header :: "Request \<Rightarrow> string \<Rightarrow> string" where
  "get_header req k = (case map_of (rq_Header req) k of None \<Rightarrow> '''' | Some v \<Rightarrow> v)"

lemma get_set_header: "get_header (set_header k v req) k' = (if k' = k then v else get_header req k')"
proof -
  have "map_of (filter (\<lambda>h. fst h \<noteq> k) hs) k' = (if k' = k then None else map_of hs k')" for hs :: "(string \<times> string) list"
    by (induction hs) auto
  then show ?thesis by (simp add: get_header_def set_header_def)
qed

lemma set_header_simps [simp]:
  "rq_Method (set_header k v req) = rq_Method req" "rq_URL (set_header k v req) = rq_URL req"
  "rq_Body (set_header k v req) = rq_Body req"
  by (simp_all add: set_header_def)

text \<open>What \<open>http.Client.Do\<close> sends: the fragment of a URL never leaves the process.\<close>

definition sent :: "Request \<Rightarrow> Request" where
  "sent req = req\<lparr>rq_URL := hd (SplitN2 (CHR ''#'') (rq_URL req))\<rparr>"

subsection \<open>Escaping\<close>

definition alnum :: "char \<Rightarrow> bool" where
  "alnum c \<longleftrightarrow> (let n = char_code c in 48 \<le> n \<and> n \<le> 57 \<or> 65 \<le> n \<and> n \<le> 90 \<or> 97 \<le> n \<and> n \<le> 122)"

definition unreserved :: "char \<Rightarrow> bool" where
  "unreserved c \<longleftrightarrow> alnum c \<or> c \<in> set ''-_.~''"

definition upper_hex :: "nat \<Rightarrow> char" where
  "upper_hex k = char_of (if k < 10 then 48 + k else 55 + k)"

definition percent :: "char \<Rightarrow> string" where
  "percent c = [CHR ''%'', upper_hex (char_code c div 16), upper_hex (char_code c mod 16)]"

text \<open>\<open>url.PathEscape\<close> and \<open>url.QueryEscape\<close>.\<close>

definition PathEscape :: "string \<Rightarrow> string" where
  "PathEscape s = concat (map (\<lambda>c. if unreserved c \<or> c \<in> set ''$&+:=@'' then [c] else percent c) s)"

definition QueryEscape :: "string \<Rightarrow> string" where
  "QueryEscape s = concat (map (\<lambda>c. if unreserved c then [c] else if c = CHR '' '' then ''+'' else percent c) s)"

text \<open>The reading of an escaped path segment on the other side.\<close>

fun PathUnescape :: "string \<Rightarrow> string option" where
  "PathUnescape [] = Some []"
| "PathUnescape (c # cs) =
     (if c = CHR ''%'' then
        (case cs of
           a # b # rest \<Rightarrow>
             (case (hex_val (char_code a), hex_val (char_code b)) of
                (Some x, Some y) \<Rightarrow> map_option ((#) (char_of (16 * x + y))) (PathUnescape rest)
              | _ \<Rightarrow> None)
         | _ \<Rightarrow> None)
      else map_option ((#) c) (PathUnescape cs))"

text \<open>The reading of a query value: as a segment, with a plus sign for a blank.\<close>

definition QueryUnescape :: "string \<Rightarrow> string option" where
  "QueryUnescape s = PathUnescape (map (\<lambda>c. if c = CHR ''+'' then CHR '' '' else c) s)"

lemma hex_val_upper: "k < 16 \<Longrightarrow> hex_val (char_code (upper_hex k)) = Some k"
  by (auto simp: hex_val_def upper_hex_def char_code_def of_char_of)

lemma code_halves: "char_code c div 16 < 16" "char_code c mod 16 < 16"
proof -
  have "char_code c < 16 * 16" by (simp add: char_code_def)
  then show "char_code c div 16 < 16" by (rule less_mult_imp_div_less)
qed simp

lemma PathUnescape_percent: "PathUnescape (percent c @ s) = map_option ((#) c) (PathUnescape s)"
proof -
  have "char_of (16 * (char_code c div 16) + char_code c mod 16) = c"
    by (simp add: char_code_def)
  with code_halves [of c] hex_val_upper show ?thesis by (simp add: percent_def)
qed

lemma PathUnescape_PathEscape: "PathUnescape (PathEscape s) = Some s"
proof (induction s)
  case (Cons c s)
  have "unreserved c \<or> c \<in> set ''$&+:=@'' \<Longrightarrow> c \<noteq> CHR ''%''"
    by (auto simp: unreserved_def alnum_def char_code_def)
  with Cons PathUnescape_percent [of c "PathEscape s"] show ?case by (auto simp: PathEscape_def)
qed (simp add: PathEscape_def)

lemma upper_hex_plain: "k < 16 \<Longrightarrow> upper_hex k \<noteq> CHR ''+'' \<and> upper_hex k \<noteq> CHR ''&''"
proof -
  assume "k < 16"
  then have "char_code (upper_hex k) \<notin> {43, 38}" by (simp add: upper_hex_def char_code_def of_char_of)
  then show ?thesis by (auto simp: char_code_def)
qed

lemma percent_plain: "map (\<lambda>c. if c = CHR ''+'' then CHR '' '' else c) (percent c) = percent c" "CHR ''&'' \<notin> set (percent c)"
  using upper_hex_plain [OF code_halves(1) [of c]] upper_hex_plain [OF code_halves(2) [of c]] by (auto simp: percent_def)

lemma QueryUnescape_QueryEscape: "QueryUnescape (QueryEscape s) = Some s" "CHR ''&'' \<notin> set (QueryEscape s)"
proof -
  have u: "unreserved c \<Longrightarrow> c \<noteq> CHR ''%'' \<and> c \<noteq> CHR ''+'' \<and> c \<noteq> CHR ''&''" for c
    by (auto simp: unreserved_def alnum_def char_code_def)
  show "QueryUnescape (QueryEscape s) = Some s"
    unfolding QueryUnescape_def
  proof (induction s)
    case (Cons c s)
    with u [of c] percent_plain(1) [of c] PathUnescape_percent [of c "map (\<lambda>c. if c = CHR ''+'' then CHR '' '' else c) (QueryEscape s)"]
    show ?case by (auto simp: QueryEscape_def)
  qed (simp add: QueryEscape_def)
  show "CHR ''&'' \<notin> set (QueryEscape s)"
    using u percent_plain(2) by (auto simp: QueryEscape_def split: if_splits)
qed

text \<open>An escaped segment holds no byte that would end the segment or break the URL.\<close>

definition segment_byte :: "char \<Rightarrow> bool" where
  "segment_byte c \<longleftrightarrow> unreserved c \<or> c \<in> set ''$&+:=@%''"

lemma upper_hex_segment: "k < 16 \<Longrightarrow> segment_byte (upper_hex k)"
  by (auto simp: segment_byte_def upper_hex_def unreserved_def alnum_def char_code_def of_char_of)

lemma percent_segment: "list_all segment_byte (percent c)"
  using code_halves [of c] by (simp add: percent_def upper_hex_segment) (simp add: segment_byte_def)

lemma escape_segment: "list_all segment_byte (PathEscape s)" "list_all segment_byte (QueryEscape s)"
proof -
  have u: "unreserved c \<Longrightarrow> segment_byte c" "c \<in> set ''$&+:=@'' \<Longrightarrow> segment_byte c" for c
    by (auto simp: segment_byte_def)
  show "list_all segment_byte (PathEscape s)" "list_all segment_byte (QueryEscape s)"
    using u by (induction s) (auto simp: PathEscape_def QueryEscape_def percent_segment list_all_append)
qed

lemma valid_escapes_percent: "valid_escapes (percent c @ s) = valid_escapes s"
  using code_halves [of c] by (simp add: percent_def hex_val_upper)

lemma valid_escapes_PathEscape: "valid_escapes (PathEscape s @ t) = valid_escapes t"
proof (induction s)
  case (Cons c s)
  have "unreserved c \<or> c \<in> set ''$&+:=@'' \<Longrightarrow> c \<noteq> CHR ''%''"
    by (auto simp: unreserved_def alnum_def char_code_def)
  with Cons valid_escapes_percent [of c "PathEscape s @ t"] show ?case by (auto simp: PathEscape_def)
qed (simp add: PathEscape_def)

lemma segment_byte_harmless: "segment_byte c \<Longrightarrow> c \<noteq> CHR ''#'' \<and> c \<noteq> CHR ''?'' \<and> c \<noteq> CHR ''/'' \<and> \<not> is_ctl c"
  by (auto simp: segment_byte_def unreserved_def alnum_def is_ctl_def char_code_def)

subsection \<open>The host of a URL\<close>

text \<open>
  \<open>url.Parse(u)\<close>, as far as its \<open>Host\<close> goes; the empty string stands for an error, too. The
  address of an IP literal in brackets is not checked.
\<close>

definition is_letter :: "char \<Rightarrow> bool" where
  "is_letter c \<longleftrightarrow> (let n = char_code c in 65 \<le> n \<and> n \<le> 90 \<or> 97 \<le> n \<and> n \<le> 122)"

text \<open>The scheme and what follows it; a URL that starts with a colon has no reading.\<close>

definition split_scheme :: "string \<Rightarrow> (string \<times> string) option" where
  "split_scheme u =
     (let h = takeWhile (\<lambda>c. alnum c \<or> c \<in> set ''+-.'') u; rest = drop (length h) u in
      if rest = [] \<or> hd rest \<noteq> CHR '':'' then Some ([], u)
      else if h = [] then None
      else if is_letter (hd h) then Some (h, tl rest) else Some ([], u))"

definition valid_host :: "string \<Rightarrow> bool" where
  "valid_host h \<longleftrightarrow>
     list_all (\<lambda>c. 0x80 \<le> char_code c \<or> unreserved c \<or> c \<in> set ''!$&()*+,;=:[]<>'' \<or> c = CHR 0x22 \<or> c = CHR 0x27) h"

definition valid_port :: "string \<Rightarrow> bool" where
  "valid_port h \<longleftrightarrow>
     (let port = (if h \<noteq> [] \<and> hd h = CHR ''['' then rev (takeWhile (\<lambda>c. c \<noteq> CHR '']'') (rev h))
                  else if CHR '':'' \<in> set h then CHR '':'' # rev (takeWhile (\<lambda>c. c \<noteq> CHR '':'') (rev h)) else [])
      in port = [] \<or> hd port = CHR '':'' \<and> list_all is_digit (tl port))"

definition after_last_at :: "string \<Rightarrow> string" where
  "after_last_at a = rev (takeWhile (\<lambda>c. c \<noteq> CHR ''@'') (rev a))"

definition url_host :: "string \<Rightarrow> string" where
  "url_host u =
     (let main = hd (SplitN2 (CHR ''#'') u) in
      if \<not> url_parses u then []
      else case split_scheme main of
        None \<Rightarrow> []
      | Some (scheme, rest) \<Rightarrow>
          let rest' = hd (SplitN2 (CHR ''?'') rest) in
          if HasPrefix rest' ''//'' \<and> (scheme \<noteq> [] \<or> \<not> HasPrefix rest' ''///'') then
            let host = after_last_at (takeWhile (\<lambda>c. c \<noteq> CHR ''/'') (drop 2 rest')) in
            if valid_host host \<and> valid_port host then host else []
          else [])"

subsection \<open>Errors of the clients\<close>

text \<open>
  The callers tell \<open>ErrNotFound\<close> and \<open>ErrUnauthorized\<close> apart with \<open>errors.Is\<close>; the
  others are only reported.
\<close>

datatype client_error = ErrNotFound | ErrUnauthorized | ErrArgument | ErrRequest | ErrTransport | ErrStatus int | ErrDecode

text \<open>\<open>io.ReadAll(io.LimitReader(body, n))\<close>: an error only matters within the limit.\<close>

definition read_limited :: "nat \<Rightarrow> Response \<Rightarrow> bytes option" where
  "read_limited n resp =
     (if n \<le> length (rs_Body resp) then Some (take n (rs_Body resp))
      else if rs_BrokenOff resp then None else Some (rs_Body resp))"

text \<open>
  The answer of an API by its status, as both clients read it: the body on 2xx, else the
  error for the status.
\<close>

definition is_2xx :: "int \<Rightarrow> bool" where
  "is_2xx st \<longleftrightarrow> 200 \<le> st \<and> st < 300"

lemma read_limited_short:
  "length (rs_Body resp) < n \<Longrightarrow> \<not> rs_BrokenOff resp \<Longrightarrow> read_limited n resp = Some (rs_Body resp)"
  by (simp add: read_limited_def)

end
