(* ===== verification/Http_Server.thy ===== *)
theory Http_Server
  imports Http
begin

text \<open>
  What the HTTP handlers of the server read and write: a request with its headers, query and
  route parameters and its body, and the reply. Logging is not modelled.
\<close>

record HttpRequest =
  hr_Header :: "(string \<times> string) list"
  hr_Query :: "(string \<times> string) list"
  hr_Param :: "(string \<times> string) list"
  hr_Body :: bytes
  hr_BodyBroken :: bool

text \<open>\<open>Header.Get\<close>, \<open>Query().Get\<close>, \<open>chi.URLParam\<close>: the empty string when absent.\<close>

definition param_get :: "(string \<times> string) list \<Rightarrow> string \<Rightarrow> string" where
  "param_get ps k = (case map_of ps k of None \<Rightarrow> '''' | Some v \<Rightarrow> v)"

record Reply =
  rp_Status :: int
  rp_Type :: string
  rp_Body :: bytes

text \<open>\<open>json.NewEncoder(w).Encode(v)\<close> under a status: the document and a newline.\<close>

definition write_json :: "int \<Rightarrow> json \<Rightarrow> Reply" where
  "write_json status v = \<lparr>rp_Status = status, rp_Type = ''application/json'', rp_Body = Marshal v @ [CHR 0x0A]\<rparr>"

text \<open>\<open>http.Error\<close>.\<close>

definition http_Error :: "string \<Rightarrow> int \<Rightarrow> Reply" where
  "http_Error msg status = \<lparr>rp_Status = status, rp_Type = ''text/plain; charset=utf-8'', rp_Body = msg @ [CHR 0x0A]\<rparr>"

lemma write_json_status [simp]: "rp_Status (write_json st v) = st"
  by (simp add: write_json_def)

lemma http_Error_status [simp]: "rp_Status (http_Error msg st) = st"
  by (simp add: http_Error_def)

text \<open>
  \<open>io.ReadAll\<close> of a body: through \<open>http.MaxBytesReader\<close>, which fails beyond the limit, and
  through \<open>io.LimitReader\<close>, which cuts there.
\<close>

definition read_max :: "nat \<Rightarrow> HttpRequest \<Rightarrow> bytes option" where
  "read_max n req = (if n < length (hr_Body req) \<or> hr_BodyBroken req then None else Some (hr_Body req))"

definition read_cut :: "nat \<Rightarrow> HttpRequest \<Rightarrow> bytes option" where
  "read_cut n req =
     (if n \<le> length (hr_Body req) then Some (take n (hr_Body req))
      else if hr_BodyBroken req then None else Some (hr_Body req))"

text \<open>
  The verb \<open>%q\<close> (\<open>strconv.Quote\<close>), rune by rune; runes beyond ASCII are taken for printable,
  and bytes that are not UTF-8 for U+FFFD.
\<close>

definition quote_rune :: "nat \<Rightarrow> bytes" where
  "quote_rune r =
     (if r = 34 then [CHR 0x5C, CHR 0x22] else if r = 92 then [CHR 0x5C, CHR 0x5C]
      else if r = 7 then [CHR 0x5C, CHR ''a''] else if r = 8 then [CHR 0x5C, CHR ''b'']
      else if r = 12 then [CHR 0x5C, CHR ''f''] else if r = 10 then [CHR 0x5C, CHR ''n'']
      else if r = 13 then [CHR 0x5C, CHR ''r''] else if r = 9 then [CHR 0x5C, CHR ''t'']
      else if r = 11 then [CHR 0x5C, CHR ''v'']
      else if r < 32 \<or> r = 127 then [CHR 0x5C, CHR ''x'', char_of (hex_digit (r div 16)), char_of (hex_digit (r mod 16))]
      else EncodeRune r)"

definition Quote :: "bytes \<Rightarrow> bytes" where
  "Quote s = [CHR 0x22] @ concat (map quote_rune (runes s)) @ [CHR 0x22]"

end
