(* ===== verification/Sha256.thy ===== *)
theory Sha256
  imports Json
begin

unbundle bit_operations_syntax

text \<open>
  Go's \<open>crypto/sha256\<close>, \<open>crypto/hmac\<close> and \<open>encoding/hex\<close>, as far as the webhook uses
  them: the digest of a byte string (FIPS 180-4), HMAC over it (RFC 2104) and the decoding of
  hexadecimal text.
\<close>

subsection \<open>SHA-256\<close>

text \<open>
  The round constants and the initial hash value: the first 32 bits of the fractional parts of
  the cube roots of the first 64 primes, and of the square roots of the first eight.
\<close>

definition sha_K :: "32 word list" where
  "sha_K =
     [1116352408, 1899447441, 3049323471, 3921009573, 961987163, 1508970993, 2453635748, 2870763221,
      3624381080, 310598401, 607225278, 1426881987, 1925078388, 2162078206, 2614888103, 3248222580,
      3835390401, 4022224774, 264347078, 604807628, 770255983, 1249150122, 1555081692, 1996064986,
      2554220882, 2821834349, 2952996808, 3210313671, 3336571891, 3584528711, 113926993, 338241895,
      666307205, 773529912, 1294757372, 1396182291, 1695183700, 1986661051, 2177026350, 2456956037,
      2730485921, 2820302411, 3259730800, 3345764771, 3516065817, 3600352804, 4094571909, 275423344,
      430227734, 506948616, 659060556, 883997877, 958139571, 1322822218, 1537002063, 1747873779,
      1955562222, 2024104815, 2227730452, 2361852424, 2428436474, 2756734187, 3204031479, 3329325298]"

definition sha_H :: "32 word list" where
  "sha_H =
     [1779033703, 3144134277, 1013904242, 2773480762, 1359893119, 2600822924, 528734635, 1541459225]"

definition sha_primes :: "int list" where
  "sha_primes =
     [2, 3, 5, 7, 11, 13, 17, 19, 23, 29, 31, 37, 41, 43, 47, 53, 59, 61, 67, 71, 73, 79,
      83, 89, 97, 101, 103, 107, 109, 113, 127, 131, 137, 139, 149, 151, 157, 163, 167, 173, 179, 181, 191, 193,
      197, 199, 211, 223, 227, 229, 233, 239, 241, 251, 257, 263, 269, 271, 277, 281, 283, 293, 307, 311]"

definition root_floor :: "nat \<Rightarrow> int \<Rightarrow> int" where
  "root_floor n p =
     (if p < 2 ^ n then 1 else if p < 3 ^ n then 2 else if p < 4 ^ n then 3 else if p < 5 ^ n then 4
      else if p < 6 ^ n then 5 else 6)"

definition root_fraction :: "nat \<Rightarrow> int \<Rightarrow> 32 word \<Rightarrow> bool" where
  "root_fraction n p k \<longleftrightarrow>
     (root_floor n p * 2 ^ 32 + uint k) ^ n \<le> p * 2 ^ (32 * n) \<and>
     p * 2 ^ (32 * n) < (root_floor n p * 2 ^ 32 + uint k + 1) ^ n"

lemma sha_constants:
  "list_all2 (root_fraction 3) sha_primes sha_K" "list_all2 (root_fraction 2) (take 8 sha_primes) sha_H"
  by (simp_all add: sha_primes_def sha_K_def sha_H_def root_fraction_def root_floor_def)

definition rotr :: "nat \<Rightarrow> 32 word \<Rightarrow> 32 word" where
  "rotr n x = drop_bit n x OR push_bit (32 - n) x"

definition big_sigma0 :: "32 word \<Rightarrow> 32 word" where
  "big_sigma0 x = rotr 2 x XOR rotr 13 x XOR rotr 22 x"

definition big_sigma1 :: "32 word \<Rightarrow> 32 word" where
  "big_sigma1 x = rotr 6 x XOR rotr 11 x XOR rotr 25 x"

definition small_sigma0 :: "32 word \<Rightarrow> 32 word" where
  "small_sigma0 x = rotr 7 x XOR rotr 18 x XOR drop_bit 3 x"

definition small_sigma1 :: "32 word \<Rightarrow> 32 word" where
  "small_sigma1 x = rotr 17 x XOR rotr 19 x XOR drop_bit 10 x"

definition Ch :: "32 word \<Rightarrow> 32 word \<Rightarrow> 32 word \<Rightarrow> 32 word" where
  "Ch x y z = (x AND y) XOR (NOT x AND z)"

definition Maj :: "32 word \<Rightarrow> 32 word \<Rightarrow> 32 word \<Rightarrow> 32 word" where
  "Maj x y z = (x AND y) XOR (x AND z) XOR (y AND z)"

text \<open>The message schedule, newest word first.\<close>

fun sha_expand :: "nat \<Rightarrow> 32 word list \<Rightarrow> 32 word list" where
  "sha_expand 0 ws = ws"
| "sha_expand (Suc n) ws =
     sha_expand n ((small_sigma1 (ws ! 1) + ws ! 6 + small_sigma0 (ws ! 14) + ws ! 15) # ws)"

fun sha_round :: "32 word list \<Rightarrow> 32 word \<times> 32 word \<Rightarrow> 32 word list" where
  "sha_round [a, b, c, d, e, f, g, h] (k, w) =
     (let t1 = h + big_sigma1 e + Ch e f g + k + w; t2 = big_sigma0 a + Maj a b c
      in [t1 + t2, a, b, c, d + t1, e, f, g])"
| "sha_round st _ = st"

definition sha_block :: "32 word list \<Rightarrow> 32 word list \<Rightarrow> 32 word list" where
  "sha_block st block =
     map2 (+) st (foldl sha_round st (zip sha_K (rev (sha_expand 48 (rev block)))))"

definition be_word :: "bytes \<Rightarrow> 32 word" where
  "be_word bs = foldl (\<lambda>w b. push_bit 8 w OR of_nat (char_code b)) 0 bs"

fun be_words :: "bytes \<Rightarrow> 32 word list" where
  "be_words (a # b # c # d # rest) = be_word [a, b, c, d] # be_words rest"
| "be_words _ = []"

definition be_bytes :: "32 word \<Rightarrow> bytes" where
  "be_bytes w = map (\<lambda>k. char_of (unat (drop_bit k w AND 0xFF))) [24, 16, 8, 0]"

definition sha_pad :: "bytes \<Rightarrow> bytes" where
  "sha_pad msg =
     (let n = length msg; bits = (of_nat (8 * n) :: 64 word) in
      msg @ [CHR 0x80] @ replicate ((119 - n mod 64) mod 64) (CHR 0x00) @
      map (\<lambda>k. char_of (unat (drop_bit k bits AND 0xFF))) [56, 48, 40, 32, 24, 16, 8, 0])"

fun sha_blocks :: "nat \<Rightarrow> 32 word list \<Rightarrow> 32 word list \<Rightarrow> 32 word list" where
  "sha_blocks 0 st ws = st"
| "sha_blocks (Suc n) st ws = sha_blocks n (sha_block st (take 16 ws)) (drop 16 ws)"

definition sha256 :: "bytes \<Rightarrow> bytes" where
  "sha256 msg =
     (let ws = be_words (sha_pad msg) in concat (map be_bytes (sha_blocks (length ws div 16) sha_H ws)))"

subsection \<open>HMAC\<close>

definition xor_byte :: "nat \<Rightarrow> char \<Rightarrow> char" where
  "xor_byte k c = char_of (char_code c XOR k)"

definition hmac_sha256 :: "bytes \<Rightarrow> bytes \<Rightarrow> bytes" where
  "hmac_sha256 key msg =
     (let k = (if 64 < length key then sha256 key else key);
          k64 = k @ replicate (64 - length k) (CHR 0x00)
      in sha256 (map (xor_byte 0x5C) k64 @ sha256 (map (xor_byte 0x36) k64 @ msg)))"

subsection \<open>Hexadecimal text\<close>

fun hex_DecodeString :: "string \<Rightarrow> bytes option" where
  "hex_DecodeString [] = Some []"
| "hex_DecodeString [a] = None"
| "hex_DecodeString (a # b # rest) =
     (case (hex_val (char_code a), hex_val (char_code b)) of
        (Some x, Some y) \<Rightarrow> map_option ((#) (char_of (16 * x + y))) (hex_DecodeString rest)
      | _ \<Rightarrow> None)"

definition hex_EncodeToString :: "bytes \<Rightarrow> string" where
  "hex_EncodeToString bs =
     concat (map (\<lambda>c. [char_of (hex_digit (char_code c div 16)), char_of (hex_digit (char_code c mod 16))]) bs)"

lemma hex_val_char: "k < 16 \<Longrightarrow> hex_val (char_code (char_of (hex_digit k))) = Some k"
proof -
  assume "k < 16"
  moreover from this have "hex_digit k < 256" by (auto simp: hex_digit_def)
  ultimately show ?thesis by (simp add: char_code_def of_char_of hex_val_digit)
qed

lemma hex_decode_encode: "hex_DecodeString (hex_EncodeToString bs) = Some bs"
proof (induction bs)
  case (Cons c bs)
  have "char_code c < 16 * 16" by (simp add: char_code_def)
  then have "char_code c div 16 < 16" by (rule less_mult_imp_div_less)
  moreover have "char_of (16 * (char_code c div 16) + char_code c mod 16) = c" by (simp add: char_code_def)
  ultimately show ?case using Cons by (simp add: hex_EncodeToString_def hex_val_char)
qed (simp add: hex_EncodeToString_def)

text \<open>The text of a byte string is accepted in either case of the letters, and nothing else is.\<close>

definition lower_hex :: "char \<Rightarrow> char" where
  "lower_hex c = (if 65 \<le> char_code c \<and> char_code c \<le> 70 then char_of (char_code c + 32) else c)"

lemma char_code_inject: "char_code c = char_code d \<longleftrightarrow> c = d"
  by (simp add: char_code_def)

lemma hex_val_iff: "k < 16 \<Longrightarrow> hex_val (char_code c) = Some k \<longleftrightarrow> lower_hex c = char_of (hex_digit k)"
proof -
  assume k: "k < 16"
  then have d: "char_code (char_of (hex_digit k)) = hex_digit k" by (simp add: char_code_def of_char_of hex_digit_def)
  have l: "char_code (lower_hex c) = (if 65 \<le> char_code c \<and> char_code c \<le> 70 then char_code c + 32 else char_code c)"
    by (simp add: lower_hex_def char_code_def of_char_of)
  have "lower_hex c = char_of (hex_digit k) \<longleftrightarrow> char_code (lower_hex c) = hex_digit k"
    by (metis d char_code_inject)
  with k l show ?thesis by (auto simp: hex_val_def hex_digit_def)
qed

lemma byte_halves:
  "x < 16 \<Longrightarrow> y < 16 \<Longrightarrow> char_of (16 * x + y) = c \<longleftrightarrow> x = char_code c div 16 \<and> y = char_code c mod 16" for x y :: nat
proof -
  assume "x < 16" "y < 16"
  then have "char_code (char_of (16 * x + y)) = 16 * x + y" by (simp add: char_code_def of_char_of)
  then have "char_of (16 * x + y) = c \<longleftrightarrow> 16 * x + y = char_code c" by (metis char_code_inject)
  with \<open>y < 16\<close> show ?thesis by auto
qed

lemma hex_val_range: "hex_val n = Some k \<Longrightarrow> k < 16"
  by (auto simp: hex_val_def split: if_splits)

lemma hex_pair_iff:
  "(\<exists>x y. hex_val (char_code a) = Some x \<and> hex_val (char_code b) = Some y \<and> char_of (16 * x + y) = c) \<longleftrightarrow>
     lower_hex a = char_of (hex_digit (char_code c div 16)) \<and> lower_hex b = char_of (hex_digit (char_code c mod 16))"
proof -
  have "char_code c < 16 * 16" by (simp add: char_code_def)
  then have h: "char_code c div 16 < 16" "char_code c mod 16 < 16" by (auto intro: less_mult_imp_div_less)
  show ?thesis
    unfolding hex_val_iff [OF h(1), symmetric] hex_val_iff [OF h(2), symmetric]
    using h byte_halves hex_val_range by metis
qed

lemma hex_DecodeString_iff: "hex_DecodeString s = Some bs \<longleftrightarrow> map lower_hex s = hex_EncodeToString bs"
proof (induction s arbitrary: bs rule: hex_DecodeString.induct)
  case 1
  show ?case by (cases bs) (auto simp: hex_EncodeToString_def)
next
  case (2 a)
  show ?case by (cases bs) (auto simp: hex_EncodeToString_def)
next
  case (3 a b rest)
  show ?case
  proof (cases bs)
    case Nil
    then show ?thesis by (auto simp: hex_EncodeToString_def split: option.splits)
  next
    case (Cons c cs)
    have "hex_DecodeString (a # b # rest) = Some bs \<longleftrightarrow>
        (\<exists>x y. hex_val (char_code a) = Some x \<and> hex_val (char_code b) = Some y \<and> char_of (16 * x + y) = c) \<and>
        hex_DecodeString rest = Some cs"
      using Cons by (auto split: option.splits)
    moreover have "hex_DecodeString rest = Some cs \<longleftrightarrow> map lower_hex rest = hex_EncodeToString cs"
      if "hex_val (char_code a) = Some x" "hex_val (char_code b) = Some y" for x y
      using "3.IH" that by simp
    moreover have "map lower_hex (a # b # rest) = hex_EncodeToString bs \<longleftrightarrow>
        lower_hex a = char_of (hex_digit (char_code c div 16)) \<and> lower_hex b = char_of (hex_digit (char_code c mod 16)) \<and>
        map lower_hex rest = hex_EncodeToString cs"
      using Cons by (simp add: hex_EncodeToString_def)
    ultimately show ?thesis using hex_pair_iff [of a b c] by blast
  qed
qed

end
