(* ===== verification/Json_Roundtrip.thy ===== *)
theory Json_Roundtrip
  imports Json
begin

text \<open>
  The documents \<open>Marshal\<close> writes are read back: \<open>json_parse (Marshal v)\<close> is \<open>v\<close> with its
  strings made UTF-8, for every value whose numbers are JSON numbers and whose nesting stays
  within the scanner's limit. And the reading of one value from a stream.
\<close>

fun depth :: "json \<Rightarrow> nat" where
  "depth (JArray vs) = Suc (foldr max (map depth vs) 0)"
| "depth (JObject kvs) = Suc (foldr max (map (\<lambda>kv. depth (snd kv)) kvs) 0)"
| "depth _ = 0"

definition word_char :: "char \<Rightarrow> bool" where
  "word_char c \<longleftrightarrow> punctuation c = None \<and> \<not> json_space c \<and> c \<noteq> CHR 0x22"

fun wf_json :: "json \<Rightarrow> bool" where
  "wf_json (JNumber n) = (n \<noteq> [] \<and> list_all word_char n \<and> valid_number n)"
| "wf_json (JArray vs) = list_all wf_json vs"
| "wf_json (JObject kvs) = list_all (\<lambda>kv. wf_json (snd kv)) kvs"
| "wf_json _ = True"

fun coerce_json :: "json \<Rightarrow> json" where
  "coerce_json (JString s) = JString (coerce_utf8 s)"
| "coerce_json (JArray vs) = JArray (map coerce_json vs)"
| "coerce_json (JObject kvs) = JObject (map (\<lambda>kv. (coerce_utf8 (fst kv), coerce_json (snd kv))) kvs)"
| "coerce_json v = v"

fun commas :: "token list list \<Rightarrow> token list" where
  "commas [] = []"
| "commas [t] = t"
| "commas (t # ts) = t @ TComma # commas ts"

fun tokens_of :: "json \<Rightarrow> token list" where
  "tokens_of JNull = [TNull]"
| "tokens_of (JBool b) = [if b then TTrue else TFalse]"
| "tokens_of (JNumber n) = [TNumber n]"
| "tokens_of (JString s) = [TString (coerce_utf8 s)]"
| "tokens_of (JArray vs) = TLBrack # commas (map tokens_of vs) @ [TRBrack]"
| "tokens_of (JObject kvs) =
     TLBrace # commas (map (\<lambda>kv. TString (coerce_utf8 (fst kv)) # TColon # tokens_of (snd kv)) kvs) @ [TRBrace]"

subsection \<open>Tokens\<close>

text \<open>What may follow a value in a document: nothing, or a punctuation mark.\<close>

definition ends_word :: "bytes \<Rightarrow> bool" where
  "ends_word rest \<longleftrightarrow> rest = [] \<or> punctuation (hd rest) \<noteq> None"

lemma lex_word:
  assumes "list_all word_char w" and "ends_word rest"
  shows "lex (LWord acc) (w @ rest) =
    (case word_token (rev acc @ w) of None \<Rightarrow> None | Some t \<Rightarrow> map_option ((#) t) (lex LStart rest))"
  using assms(1)
proof (induction w arbitrary: acc)
  case Nil
  show ?case
  proof (cases rest)
    case (Cons c cs)
    with assms(2) obtain p where "punctuation c = Some p" by (auto simp: ends_word_def)
    with Cons show ?thesis
      by (cases "lex LStart cs") (auto simp: lex_char_def split: option.splits)
  qed (simp split: option.splits)
next
  case (Cons c w)
  then show ?case by (simp add: word_char_def)
qed

lemma lex_start_word:
  assumes "w \<noteq> []" and "list_all word_char w" and "ends_word rest" and "word_token w = Some t"
  shows "lex LStart (w @ rest) = map_option ((#) t) (lex LStart rest)"
proof -
  obtain c w' where w: "w = c # w'" using assms(1) by (cases w) auto
  then have "lex LStart (w @ rest) = lex (LWord [c]) (w' @ rest)"
    using assms(2) by (cases "lex (LWord [c]) (w' @ rest)") (auto simp: lex_char_def word_char_def)
  with w assms lex_word [of w' rest "[c]"] show ?thesis by simp
qed

lemma valid_number_word: "valid_number n \<Longrightarrow> word_token n = Some (TNumber n)"
  by (auto simp: word_token_def valid_number_def is_digit_def char_code_def)

lemma literals:
  "list_all word_char ''null''" "list_all word_char ''true''" "list_all word_char ''false''"
  "word_token ''null'' = Some TNull" "word_token ''true'' = Some TTrue" "word_token ''false'' = Some TFalse"
  by (simp_all add: word_char_def punctuation_def json_space_def word_token_def)

lemma lex_mark: "punctuation c = Some t \<Longrightarrow> lex LStart ([c] @ rest) = map_option ((#) t) (lex LStart rest)"
  using lex_punctuation [of c t rest] by simp

lemma ends_word_mark: "punctuation c = Some t \<Longrightarrow> ends_word (c # rest)"
  by (simp add: ends_word_def)

lemma marks:
  "punctuation (CHR ''{'') = Some TLBrace" "punctuation (CHR ''}'') = Some TRBrace"
  "punctuation (CHR ''['') = Some TLBrack" "punctuation (CHR '']'') = Some TRBrack"
  "punctuation (CHR '':'') = Some TColon" "punctuation (CHR '','') = Some TComma"
  by (simp_all add: punctuation_def)

lemma lex_Join:
  assumes "\<And>x rest. x \<in> set xs \<Longrightarrow> ends_word rest \<Longrightarrow> lex LStart (f x @ rest) = map_option ((@) (g x)) (lex LStart rest)"
    and "ends_word rest"
  shows "lex LStart (Join (map f xs) '','' @ rest) = map_option ((@) (commas (map g xs))) (lex LStart rest)"
  using assms(1)
proof (induction xs)
  case Nil
  show ?case by (cases "lex LStart rest") simp_all
next
  case (Cons x xs)
  show ?case
  proof (cases xs)
    case Nil
    with Cons.prems assms(2) show ?thesis by simp
  next
    case (Cons y ys)
    have "lex LStart (f x @ CHR '','' # Join (map f xs) '','' @ rest) =
        map_option ((@) (g x)) (map_option ((#) TComma) (map_option ((@) (commas (map g xs))) (lex LStart rest)))"
      using Cons.IH Cons.prems ends_word_mark [OF marks(6)] lex_punctuation [OF marks(6)] by simp
    with Cons show ?thesis by (simp add: option.map_comp comp_def)
  qed
qed

lemma lex_Marshal:
  "wf_json v \<Longrightarrow> ends_word rest \<Longrightarrow> lex LStart (Marshal v @ rest) = map_option ((@) (tokens_of v)) (lex LStart rest)"
proof (induction v arbitrary: rest rule: json.induct)
  case JNull
  with lex_start_word [OF _ literals(1) JNull(2) literals(4)] show ?case by simp
next
  case (JBool b)
  with lex_start_word [OF _ literals(2) JBool(2) literals(5)] lex_start_word [OF _ literals(3) JBool(2) literals(6)]
  show ?case by simp
next
  case (JNumber n)
  with lex_start_word [of n rest] valid_number_word show ?case by simp
next
  case (JString s)
  then show ?case by (simp add: lex_quote)
next
  case (JArray vs)
  have "lex LStart (Join (map Marshal vs) '','' @ CHR '']'' # rest) =
      map_option ((@) (commas (map tokens_of vs))) (lex LStart (CHR '']'' # rest))"
    using JArray by (intro lex_Join ends_word_mark [OF marks(4)]) (auto simp: list_all_iff)
  then show ?case
    by (simp add: lex_punctuation [OF marks(3)] lex_punctuation [OF marks(4)] option.map_comp comp_def del: lex.simps)
next
  case (JObject kvs)
  have "lex LStart (Join (map (\<lambda>kv. quote (fst kv) @ '':'' @ Marshal (snd kv)) kvs) '','' @ CHR ''}'' # rest) =
      map_option ((@) (commas (map (\<lambda>kv. TString (coerce_utf8 (fst kv)) # TColon # tokens_of (snd kv)) kvs)))
        (lex LStart (CHR ''}'' # rest))"
  proof (rule lex_Join)
    fix kv and r
    assume kv: "kv \<in> set kvs" "ends_word r"
    then have "lex LStart (Marshal (snd kv) @ r) = map_option ((@) (tokens_of (snd kv))) (lex LStart r)"
      using JObject by (auto simp: list_all_iff snds.simps)
    then show "lex LStart ((quote (fst kv) @ '':'' @ Marshal (snd kv)) @ r) =
        map_option ((@) (TString (coerce_utf8 (fst kv)) # TColon # tokens_of (snd kv))) (lex LStart r)"
      by (cases "lex LStart r") (simp_all add: lex_quote lex_punctuation [OF marks(5)] option.map_comp comp_def del: lex.simps)
  qed (rule ends_word_mark [OF marks(2)])
  then show ?case
    by (simp add: lex_punctuation [OF marks(1)] lex_punctuation [OF marks(2)] option.map_comp comp_def del: lex.simps)
qed

subsection \<open>Documents\<close>

lemma depth_member: "v \<in> set vs \<Longrightarrow> depth v < depth (JArray vs)"
  by (induction vs) (auto simp: less_Suc_eq_le)

lemma depth_value: "kv \<in> set kvs \<Longrightarrow> depth (snd kv) < depth (JObject kvs)"
  by (induction kvs) (auto simp: less_Suc_eq_le)

lemma tokens_of_begin: "\<exists>t ts. tokens_of v = t # ts \<and> t \<noteq> TRBrack"
  by (cases v) auto

lemma parse_value_or_end:
  "parse_tokens (tokens_of v @ ts) (EValueOrEnd, stk) = parse_tokens (tokens_of v @ ts) (EValue, stk)"
  using tokens_of_begin [of v] by (auto simp: parse_step_def)

definition parses_to :: "json \<Rightarrow> bool" where
  "parses_to v \<longleftrightarrow> (\<forall>ts stk. depth v + length stk \<le> maxNestingDepth \<longrightarrow>
     parse_tokens (tokens_of v @ ts) (EValue, stk) = parse_tokens ts (finish_value (coerce_json v) stk))"

lemma parse_elems:
  assumes "\<forall>v\<in>set vs. parses_to v \<and> depth v + Suc (length stk) \<le> maxNestingDepth" and "vs \<noteq> []"
  shows "parse_tokens (commas (map tokens_of vs) @ TRBrack # ts) (EValue, FArray acc # stk) =
    parse_tokens ts (finish_value (JArray (rev acc @ map coerce_json vs)) stk)"
  using assms
proof (induction vs arbitrary: acc)
  case (Cons v vs)
  then have v: "parse_tokens (tokens_of v @ us) (EValue, FArray acc # stk) = parse_tokens us (ENext, FArray (coerce_json v # acc) # stk)" for us
    by (simp add: parses_to_def finish_value_def)
  show ?case
  proof (cases vs)
    case Nil
    with v show ?thesis by (simp add: parse_step_def next_token_def end_frame_def)
  next
    case (Cons v' vs')
    then have "commas (map tokens_of (v # vs)) @ TRBrack # ts = tokens_of v @ TComma # commas (map tokens_of vs) @ TRBrack # ts" by simp
    with v Cons Cons.IH [of "coerce_json v # acc"] Cons.prems show ?thesis by (simp add: parse_step_def next_token_def)
  qed
qed simp

lemma parse_object_members:
  assumes "\<forall>kv\<in>set kvs. parses_to (snd kv) \<and> depth (snd kv) + Suc (length stk) \<le> maxNestingDepth" and "kvs \<noteq> []"
  shows "parse_tokens (commas (map (\<lambda>kv. TString (coerce_utf8 (fst kv)) # TColon # tokens_of (snd kv)) kvs) @ TRBrace # ts)
      (EKey, FObject acc k0 # stk) =
    parse_tokens ts (finish_value (JObject (rev acc @ map (\<lambda>kv. (coerce_utf8 (fst kv), coerce_json (snd kv))) kvs)) stk)"
  using assms
proof (induction kvs arbitrary: acc k0)
  case (Cons kv kvs)
  let ?m = "\<lambda>kv. TString (coerce_utf8 (fst kv)) # TColon # tokens_of (snd kv)" and ?k = "coerce_utf8 (fst kv)"
  have v: "parse_tokens (?m kv @ us) (EKey, FObject acc k0 # stk) =
      parse_tokens us (ENext, FObject ((?k, coerce_json (snd kv)) # acc) ?k # stk)" for us
    using Cons.prems by (simp add: parse_step_def object_key_def parses_to_def finish_value_def)
  show ?case
  proof (cases kvs)
    case Nil
    with v show ?thesis by (simp add: parse_step_def next_token_def end_frame_def)
  next
    case (Cons kv' kvs')
    then have "commas (map ?m (kv # kvs)) @ TRBrace # ts = ?m kv @ TComma # commas (map ?m kvs) @ TRBrace # ts" by simp
    with v Cons Cons.IH [of "(?k, coerce_json (snd kv)) # acc" ?k] Cons.prems show ?thesis
      by (simp add: parse_step_def next_token_def)
  qed
qed simp

lemma parses_to_all: "parses_to v"
proof (induction v rule: json.induct)
  case (JArray vs)
  show ?case unfolding parses_to_def
  proof (intro allI impI)
    fix ts and stk :: "frame list"
    assume d: "depth (JArray vs) + length stk \<le> maxNestingDepth"
    then have open_: "parse_tokens (TLBrack # us) (EValue, stk) = parse_tokens us (EValueOrEnd, FArray [] # stk)" for us
      by (simp add: parse_step_def begin_value_def push_frame_def)
    have members: "\<forall>v\<in>set vs. parses_to v \<and> depth v + Suc (length stk) \<le> maxNestingDepth"
      using JArray d depth_member [of _ vs] by fastforce
    show "parse_tokens (tokens_of (JArray vs) @ ts) (EValue, stk) = parse_tokens ts (finish_value (coerce_json (JArray vs)) stk)"
    proof (cases vs)
      case Nil
      with open_ show ?thesis by (simp add: parse_step_def end_frame_def)
    next
      case (Cons v vs')
      then obtain us where us: "commas (map tokens_of vs) = tokens_of v @ us" by (cases vs') auto
      have "parse_tokens (commas (map tokens_of vs) @ TRBrack # ts) (EValueOrEnd, FArray [] # stk) =
          parse_tokens (commas (map tokens_of vs) @ TRBrack # ts) (EValue, FArray [] # stk)"
        unfolding us append_assoc by (rule parse_value_or_end)
      with open_ parse_elems [OF members, of ts "[]"] Cons show ?thesis by simp
    qed
  qed
next
  case (JObject kvs)
  show ?case unfolding parses_to_def
  proof (intro allI impI)
    fix ts and stk :: "frame list"
    let ?m = "\<lambda>kv. TString (coerce_utf8 (fst kv)) # TColon # tokens_of (snd kv)"
    assume d: "depth (JObject kvs) + length stk \<le> maxNestingDepth"
    then have open_: "parse_tokens (TLBrace # us) (EValue, stk) = parse_tokens us (EKeyOrEnd, FObject [] [] # stk)" for us
      by (simp add: parse_step_def begin_value_def push_frame_def)
    have members: "\<forall>kv\<in>set kvs. parses_to (snd kv) \<and> depth (snd kv) + Suc (length stk) \<le> maxNestingDepth"
      using JObject d depth_value [of _ kvs] by (fastforce simp: snds.simps)
    show "parse_tokens (tokens_of (JObject kvs) @ ts) (EValue, stk) = parse_tokens ts (finish_value (coerce_json (JObject kvs)) stk)"
    proof (cases kvs)
      case Nil
      with open_ show ?thesis by (simp add: parse_step_def end_frame_def)
    next
      case (Cons kv kvs')
      then obtain us where us: "commas (map ?m kvs) = TString (coerce_utf8 (fst kv)) # us" by (cases kvs') auto
      have "parse_tokens (commas (map ?m kvs) @ TRBrace # ts) (EKeyOrEnd, FObject [] [] # stk) =
          parse_tokens (commas (map ?m kvs) @ TRBrace # ts) (EKey, FObject [] [] # stk)"
        unfolding us by (simp add: parse_step_def)
      with open_ parse_object_members [OF members, of ts "[]" "[]"] Cons show ?thesis by simp
    qed
  qed
qed (simp_all add: parses_to_def parse_step_def begin_value_def)

text \<open>A document that was written is read back.\<close>

lemma json_parse_Marshal:
  assumes "wf_json v" and "depth v \<le> maxNestingDepth"
  shows "json_parse (Marshal v) = Some (coerce_json v)"
proof -
  have "lex LStart (Marshal v @ []) = map_option ((@) (tokens_of v)) (lex LStart [])"
    by (rule lex_Marshal [OF assms(1)]) (simp add: ends_word_def)
  then have "json_parse (Marshal v) = parse_tokens (tokens_of v @ []) (EValue, [])" by (simp add: json_parse_def)
  also have "\<dots> = parse_tokens [] (finish_value (coerce_json v) [])"
    using parses_to_all [of v] assms(2) unfolding parses_to_def by (metis add.right_neutral list.size(3))
  also have "\<dots> = Some (coerce_json v)" by (simp add: finish_value_def)
  finally show ?thesis .
qed

subsection \<open>Reading one value from a stream\<close>

text \<open>
  \<open>json.NewDecoder(r).Decode\<close> scans byte by byte and stops with the end of the first value;
  what follows is left unread. At the top level a literal ends with its last letter.
\<close>

definition lex_step :: "lex_state \<Rightarrow> char \<Rightarrow> (token list \<times> lex_state) option" where
  "lex_step st c =
     (case st of
        LStart \<Rightarrow> Some (lex_char c)
      | LWord w \<Rightarrow>
          if punctuation c = None \<and> \<not> json_space c \<and> c \<noteq> CHR 0x22 then Some ([], LWord (c # w))
          else map_option (\<lambda>t. (t # fst (lex_char c), snd (lex_char c))) (word_token (rev w))
      | LString raw \<Rightarrow>
          if c = CHR 0x22 then map_option (\<lambda>s. ([TString s], LStart)) (unquote (rev raw))
          else if c = CHR 0x5C then Some ([], LEscape (c # raw))
          else if char_code c < 0x20 then None else Some ([], LString (c # raw))
      | LEscape raw \<Rightarrow> Some ([], LString (c # raw)))"

fun feed :: "token list \<Rightarrow> expect \<times> frame list \<Rightarrow> (expect \<times> frame list) option" where
  "feed [] ps = Some ps"
| "feed (t # ts) ps =
     (case fst ps of
        EDone v \<Rightarrow> Some ps
      | _ \<Rightarrow> (case parse_step t ps of None \<Rightarrow> None | Some ps' \<Rightarrow> feed ts ps'))"

definition top_literal :: "lex_state \<Rightarrow> expect \<times> frame list \<Rightarrow> json option" where
  "top_literal st ps =
     (case st of
        LWord w \<Rightarrow>
          if ps = (EValue, []) \<and> rev w \<in> {''null'', ''true'', ''false''}
          then Some (if rev w = ''null'' then JNull else JBool (rev w = ''true'')) else None
      | _ \<Rightarrow> None)"

fun scan_value :: "lex_state \<Rightarrow> expect \<times> frame list \<Rightarrow> bytes \<Rightarrow> json option" where
  "scan_value st ps [] = (case lex st [] of None \<Rightarrow> None | Some ts \<Rightarrow> parse_tokens ts ps)"
| "scan_value st ps (c # cs) =
     (case lex_step st c of
        None \<Rightarrow> None
      | Some (ts, st') \<Rightarrow>
          (case feed ts ps of
             None \<Rightarrow> None
           | Some ps' \<Rightarrow>
               (case fst ps' of
                  EDone v \<Rightarrow> Some v
                | _ \<Rightarrow> (case top_literal st' ps' of Some v \<Rightarrow> Some v | None \<Rightarrow> scan_value st' ps' cs))))"

definition decode_first :: "'a decoder \<Rightarrow> 'a \<Rightarrow> bytes \<Rightarrow> 'a option" where
  "decode_first f zero s =
     (case scan_value LStart (EValue, []) s of
        None \<Rightarrow> None
      | Some v \<Rightarrow> (case f v zero of (x, ok) \<Rightarrow> if ok then Some x else None))"

lemma map_option_append:
  "map_option ((@) []) x = x" "map_option ((@) (t # ts)) x = map_option (\<lambda>r. t # ts @ r) x"
  by (cases x; simp)+

lemma lex_Cons:
  "lex st (c # cs) = (case lex_step st c of None \<Rightarrow> None | Some (ts, st') \<Rightarrow> map_option ((@) ts) (lex st' cs))"
  by (cases st) (auto simp: lex_step_def split_beta map_option_append split: option.splits prod.splits)

lemma parse_done: "fst ps = EDone v \<Longrightarrow> parse_tokens ts ps = Some v' \<Longrightarrow> ts = [] \<and> v' = v"
  by (cases ts) (auto simp: parse_step_def split_beta)

lemma feed_step:
  "\<forall>v. fst ps \<noteq> EDone v \<Longrightarrow> feed (t # ts) ps = (case parse_step t ps of None \<Rightarrow> None | Some ps' \<Rightarrow> feed ts ps')"
  by (auto split: expect.splits)

lemma parse_feed:
  assumes "parse_tokens (ts @ us) ps = Some v" and "\<forall>v. fst ps \<noteq> EDone v"
  shows "\<exists>ps'. feed ts ps = Some ps' \<and> (case fst ps' of EDone v' \<Rightarrow> v' = v | _ \<Rightarrow> parse_tokens us ps' = Some v)"
  using assms
proof (induction ts arbitrary: ps)
  case Nil
  then show ?case by (auto split: expect.splits)
next
  case (Cons t ts)
  then obtain ps' where ps': "parse_step t ps = Some ps'" "parse_tokens (ts @ us) ps' = Some v" by (auto split: option.splits)
  show ?case
  proof (cases "\<exists>v'. fst ps' = EDone v'")
    case True
    then obtain v' where "fst ps' = EDone v'" by blast
    moreover from this parse_done [OF this ps'(2)] have "ts = []" "v' = v" by auto
    ultimately show ?thesis using ps'(1) by (intro exI [of _ ps']) (simp add: feed_step [OF Cons.prems(2)] del: feed.simps(2))
  next
    case False
    then show ?thesis using Cons.IH [OF ps'(2)] ps'(1) by (simp add: feed_step [OF Cons.prems(2)] del: feed.simps(2))
  qed
qed

lemma lex_LWord_scalar: "lex (LWord w) cs = Some ts \<Longrightarrow> \<exists>t us n. ts = t # us \<and> t \<in> {TNumber n, TTrue, TFalse, TNull}"
  by (induction cs arbitrary: w)
    (auto simp: word_token_def split: if_splits option.splits prod.splits)

lemma scan_object:
  "lex st s = Some ts \<Longrightarrow> parse_tokens ts ps = Some (JObject kvs) \<Longrightarrow> \<forall>v. fst ps \<noteq> EDone v \<Longrightarrow>
     scan_value st ps s = Some (JObject kvs)"
proof (induction s arbitrary: st ts ps)
  case (Cons c cs)
  from Cons.prems(1) obtain us st' vs where s: "lex_step st c = Some (us, st')" "lex st' cs = Some vs" "ts = us @ vs"
    unfolding lex_Cons by (auto split: option.splits)
  from parse_feed [OF Cons.prems(2) [unfolded s(3)] Cons.prems(3)] obtain ps' where
    ps': "feed us ps = Some ps'" "case fst ps' of EDone v' \<Rightarrow> v' = JObject kvs | _ \<Rightarrow> parse_tokens vs ps' = Some (JObject kvs)" by blast
  show ?case
  proof (cases "\<exists>v'. fst ps' = EDone v'")
    case True
    with s ps' show ?thesis by auto
  next
    case False
    with ps'(2) have p: "parse_tokens vs ps' = Some (JObject kvs)" by (auto split: expect.splits)
    have "top_literal st' ps' = None"
    proof (rule ccontr)
      assume "top_literal st' ps' \<noteq> None"
      then obtain w where w: "st' = LWord w" "ps' = (EValue, [])" by (auto simp: top_literal_def split: lex_state.splits if_splits)
      from lex_LWord_scalar [OF s(2) [unfolded w]] obtain t us' n where t: "vs = t # us'" "t \<in> {TNumber n, TTrue, TFalse, TNull}" by blast
      then obtain v' where v': "parse_step t (EValue, []) = Some (EDone v', [])" "\<forall>kvs. v' \<noteq> JObject kvs"
        by (auto simp: parse_step_def begin_value_def finish_value_def)
      with p t w have "parse_tokens us' (EDone v', []) = Some (JObject kvs)" by auto
      from parse_done [OF _ this] v' show False by auto
    qed
    with s ps' False Cons.IH [OF s(2) p] show ?thesis by (auto split: expect.splits)
  qed
qed auto

text \<open>A document that is an object is read whole, whatever white space follows it.\<close>

lemma decode_first_object:
  assumes "json_parse s = Some (JObject kvs)"
  shows "decode_first f zero s = Unmarshal f zero s"
proof -
  obtain ts where "lex LStart s = Some ts" "parse_tokens ts (EValue, []) = Some (JObject kvs)"
    using assms by (auto simp: json_parse_def split: option.splits)
  from scan_object [OF this] have "scan_value LStart (EValue, []) s = Some (JObject kvs)" by simp
  with assms show ?thesis by (simp add: decode_first_def Unmarshal_def)
qed

end
