(* ===== verification/Matrix_Cell.thy ===== *)
theory Matrix_Cell
  imports Json_Roundtrip
begin

text \<open>
  \<open>encodeMatrixCell\<close> of \<open>internal/planner/planner.go\<close>: a cell of a job's matrix as the
  document that is stored with the job and as the suffix of its name, with what it uses of
  \<open>fmt\<close> and \<open>encoding/json\<close>. The encoding does not depend on the order in which Go
  iterates over the map, and the document is read back as the cell.
\<close>

subsection \<open>Decoded YAML\<close>

text \<open>
  A YAML value as \<open>yaml.v3\<close> decodes it into an interface. A float is given by the texts that
  \<open>%v\<close> and \<open>json.Marshal\<close> make of it, a value of another Go type (a time, a mapping whose keys
  are not all strings) by its text and its document; \<open>None\<close> when \<open>json.Marshal\<close> refuses it.
\<close>

datatype yaml = YNull | YBool bool | YInt int | YFloat string "string option" | YStr string
  | YOther string "json option" | YSeq "yaml list" | YMap "(string \<times> yaml) list"

text \<open>A Go map with string keys, as the list of its entries; the keys are distinct.\<close>

type_synonym cell = "(string \<times> yaml) list"

text \<open>The verb \<open>%v\<close>; the entries of a map are printed in the order of their keys.\<close>

fun Sprint :: "yaml \<Rightarrow> string" where
  "Sprint YNull = ''<nil>''"
| "Sprint (YBool b) = (if b then ''true'' else ''false'')"
| "Sprint (YInt n) = Itoa n"
| "Sprint (YFloat t d) = t"
| "Sprint (YStr t) = t"
| "Sprint (YOther t d) = t"
| "Sprint (YSeq vs) = ''['' @ Join (map Sprint vs) '' '' @ '']''"
| "Sprint (YMap kvs) = ''map['' @
     Join (map (\<lambda>kv. fst kv @ '':'' @ snd kv) (sort_key fst (map (\<lambda>kv. (fst kv, Sprint (snd kv))) kvs))) '' '' @ '']''"

text \<open>The document \<open>json.Marshal\<close> writes for a value: the members of a map in the order of their keys.\<close>

fun document :: "yaml \<Rightarrow> json option" where
  "document YNull = Some JNull"
| "document (YBool b) = Some (JBool b)"
| "document (YInt n) = Some (JNumber (Itoa n))"
| "document (YFloat t d) = map_option JNumber d"
| "document (YStr t) = Some (JString t)"
| "document (YOther t d) = d"
| "document (YSeq vs) = map_option JArray (those (map document vs))"
| "document (YMap kvs) = map_option (JObject \<circ> sort_key fst)
     (those (map (\<lambda>kv. map_option (Pair (fst kv)) (document (snd kv))) kvs))"

definition json_Marshal :: "cell \<Rightarrow> bytes option" where
  "json_Marshal c = map_option Marshal (document (YMap c))"

definition encodeMatrixCell :: "cell \<Rightarrow> (char slice \<times> string) option" where
  "encodeMatrixCell c =
     (if length c = 0 then Some (None, '''')
      else let values = map (Sprint \<circ> snd) (sort_key fst c) in
           case json_Marshal c of
             None \<Rightarrow> None
           | Some b \<Rightarrow> Some (Some b, Join values '', ''))"

subsection \<open>Canonical form\<close>

lemma those_Some_iff: "those xs = Some ys \<longleftrightarrow> xs = map Some ys"
  by (induction xs arbitrary: ys) (auto split: option.splits)

lemma those_None_iff: "those xs = None \<longleftrightarrow> None \<in> set xs"
  by (induction xs) (auto split: option.splits)

text \<open>Sorting the entries of a map forgets the order they were listed in.\<close>

lemma sort_entries_canonical:
  assumes "distinct (map fst kvs)" and "distinct (map fst kvs')" and "set kvs = set kvs'"
  shows "sort_key fst kvs = sort_key fst kvs'"
proof -
  have "mset kvs = mset kvs'" using assms by (simp add: set_eq_iff_mset_eq_distinct distinct_map)
  moreover have "inj_on fst (set kvs)" using assms(1) by (simp add: distinct_map)
  ultimately show ?thesis by (intro sort_key_inj_key_eq) simp_all
qed

definition members :: "cell \<Rightarrow> (string \<times> json) list option" where
  "members c = those (map (\<lambda>kv. map_option (Pair (fst kv)) (document (snd kv))) c)"

lemma members_Some:
  assumes "members c = Some es"
  shows "map fst es = map fst c" and "set es = {(k, d). \<exists>y. (k, y) \<in> set c \<and> document y = Some d}"
proof -
  have es: "map (\<lambda>kv. map_option (Pair (fst kv)) (document (snd kv))) c = map Some es"
    using assms by (simp add: members_def those_Some_iff)
  then show "map fst es = map fst c" by (induction c arbitrary: es) auto
  have "e \<in> set es \<longleftrightarrow> (\<exists>kv\<in>set c. map_option (Pair (fst kv)) (document (snd kv)) = Some e)" for e
    using arg_cong [OF es, of "\<lambda>xs. Some e \<in> set xs"] by (simp only: set_map image_iff eq_commute [of "Some e"]) simp
  then show "set es = {(k, d). \<exists>y. (k, y) \<in> set c \<and> document y = Some d}"
    by (intro set_eqI) (auto simp: Bex_def)
qed

lemma members_None: "members c = None \<longleftrightarrow> (\<exists>kv\<in>set c. document (snd kv) = None)"
  by (auto simp: members_def those_None_iff image_iff eq_commute [of None])

text \<open>
  The encoding of a cell is canonical: it depends on the entries of the map only, not on the
  order of an iteration over it.
\<close>

theorem encodeMatrixCell_canonical:
  assumes "distinct (map fst c)" and "distinct (map fst c')" and "set c = set c'"
  shows "encodeMatrixCell c = encodeMatrixCell c'"
proof -
  have "map_option (sort_key fst) (members c) = map_option (sort_key fst) (members c')"
  proof (cases "members c")
    case None
    then have "members c' = None" using assms(3) by (simp add: members_None)
    with None show ?thesis by simp
  next
    case (Some es)
    then have "members c' \<noteq> None" using assms(3) by (metis members_None option.distinct(1))
    then obtain es' where es': "members c' = Some es'" by blast
    have "sort_key fst es = sort_key fst es'"
      using members_Some [OF Some] members_Some [OF es'] assms by (intro sort_entries_canonical) simp_all
    with Some es' show ?thesis by simp
  qed
  then have "json_Marshal c = json_Marshal c'"
    by (simp add: json_Marshal_def option.map_comp flip: members_def) (metis option.map_comp)
  moreover have "c = [] \<longleftrightarrow> c' = []" using assms(3) by (metis set_empty)
  ultimately show ?thesis using sort_entries_canonical [OF assms] by (simp add: encodeMatrixCell_def)
qed

subsection \<open>Reading the document back\<close>

text \<open>Floats and values of other types have documents that are JSON.\<close>

fun yaml_ok :: "yaml \<Rightarrow> bool" where
  "yaml_ok (YFloat t d) = (\<forall>n\<in>set_option d. wf_json (JNumber n))"
| "yaml_ok (YOther t d) = (\<forall>v\<in>set_option d. wf_json v)"
| "yaml_ok (YSeq vs) = list_all yaml_ok vs"
| "yaml_ok (YMap kvs) = list_all (\<lambda>kv. yaml_ok (snd kv)) kvs"
| "yaml_ok _ = True"

lemma is_digit_of: "k < (10::nat) \<Longrightarrow> is_digit (char_of (48 + k))"
  by (simp add: is_digit_def digit_code)

lemma nat_digits_digits: "list_all is_digit (nat_digits n)"
proof (induction n rule: nat_digits.induct)
  case (1 n)
  then show ?case by (subst nat_digits.simps) (simp add: is_digit_of)
qed

lemma nat_digits_lead: "n \<noteq> 0 \<Longrightarrow> hd (nat_digits n) \<noteq> CHR ''0''"
proof (induction n rule: nat_digits.induct)
  case (1 n)
  show ?case
  proof (cases "n < 10")
    case True
    have "char_code (char_of (48 + n)) \<noteq> char_code CHR ''0''" using 1(2) True by (simp add: digit_code) (simp add: char_code_def)
    with True show ?thesis by (subst nat_digits.simps) auto
  next
    case False
    with 1 show ?thesis by (subst nat_digits.simps) simp
  qed
qed

lemma no_digits:
  "\<not> is_digit CHR ''{''" "\<not> is_digit CHR ''}''" "\<not> is_digit CHR ''[''" "\<not> is_digit CHR '']''" "\<not> is_digit CHR '':''"
  "\<not> is_digit CHR '',''" "\<not> is_digit CHR '' ''" "\<not> is_digit CHR 0x09" "\<not> is_digit CHR 0x0A" "\<not> is_digit CHR 0x0D"
  "\<not> is_digit CHR 0x22" "\<not> is_digit CHR ''-''"
  by (simp_all add: is_digit_def char_code_def)

lemma digit_word_char:
  assumes "is_digit c"
  shows "word_char c"
proof -
  have "c \<noteq> d" if "\<not> is_digit d" for d using assms that by blast
  then show ?thesis unfolding word_char_def punctuation_def json_space_def by (simp add: no_digits)
qed

text \<open>An integer is printed as a JSON number.\<close>

lemma valid_number_digits:
  assumes "list_all is_digit ds" and "ds \<noteq> []" and "hd ds \<noteq> CHR ''0'' \<or> length ds = 1"
  shows "valid_number ds" and "valid_number (CHR ''-'' # ds)"
proof -
  have tw: "takeWhile is_digit ds = ds" "dropWhile is_digit ds = []"
    using assms(1) by (auto simp: list_all_iff)
  have "hd ds \<noteq> CHR ''-''" using assms(1,2) no_digits(12) by (metis list.set_sel(1) list_all_iff)
  then have s1: "(case ds of [] \<Rightarrow> [] | c # t \<Rightarrow> if c = CHR ''-'' then t else ds) = ds" by (cases ds) simp_all
  show "valid_number ds" using assms(2,3) by (simp add: valid_number_def s1 tw)
  show "valid_number (CHR ''-'' # ds)" using assms(2,3) by (simp add: valid_number_def tw)
qed

lemma wf_json_Itoa: "wf_json (JNumber (Itoa n))"
proof -
  have one: "hd (nat_digits k) \<noteq> CHR ''0'' \<or> length (nat_digits k) = 1" for k
    using nat_digits_lead [of k] by (cases "k = 0") (simp_all add: nat_digits.simps [of 0])
  note number = valid_number_digits [OF nat_digits_digits nat_digits_nonempty one]
  have "list_all word_char (nat_digits k)" for k
    using nat_digits_digits [of k] digit_word_char by (auto simp: list_all_iff)
  moreover have "word_char CHR ''-''" by (simp add: word_char_def punctuation_def json_space_def)
  ultimately show ?thesis using number by (simp add: Itoa_def)
qed

lemma document_wf: "yaml_ok y \<Longrightarrow> document y = Some v \<Longrightarrow> wf_json v"
proof (induction y arbitrary: v)
  case (YInt n)
  then show ?case using wf_json_Itoa by auto
next
  case (YSeq ys)
  then obtain vs where vs: "map document ys = map Some vs" "v = JArray vs" by (auto simp: those_Some_iff)
  have "wf_json d" if "d \<in> set vs" for d
  proof -
    from that have "Some d \<in> set (map document ys)" by (simp add: vs(1))
    then obtain y where "y \<in> set ys" "document y = Some d" by auto
    with YSeq show ?thesis by (simp add: list_all_iff)
  qed
  with vs(2) show ?case by (simp add: list_all_iff)
next
  case (YMap kvs)
  then obtain es where es: "members kvs = Some es" "v = JObject (sort_key fst es)" by (auto simp: members_def)
  have "wf_json d" if "(k, d) \<in> set es" for k d
  proof -
    from that members_Some(2) [OF es(1)] obtain y where y: "(k, y) \<in> set kvs" "document y = Some d" by auto
    with YMap.prems(1) have "yaml_ok y" by (fastforce simp: list_all_iff)
    with YMap.IH [of "(k, y)" y] y show ?thesis by auto
  qed
  with es(2) show ?case by (auto simp: list_all_iff)
qed auto

text \<open>The text a cell is stored as is a JSON document of its entries, sorted by key.\<close>

lemma encodeMatrixCell_Some:
  assumes "encodeMatrixCell c = Some (text, nameSuffix)"
  shows "c = [] \<and> text = None \<or>
    (\<exists>es. c \<noteq> [] \<and> members c = Some es \<and> text = Some (Marshal (JObject (sort_key fst es))))"
  using assms by (auto simp: encodeMatrixCell_def json_Marshal_def members_def split: if_splits option.splits)

text \<open>
  The stored text is read back as the cell: each entry with the document of its value, up to
  the bytes of strings that are not UTF-8.
\<close>

theorem encodeMatrixCell_roundtrip:
  assumes "encodeMatrixCell c = Some (Some text, nameSuffix)" and "yaml_ok (YMap c)"
    and "document (YMap c) = Some v" and "depth v \<le> maxNestingDepth"
  shows "json_parse text = Some (coerce_json v)"
proof -
  have "text = Marshal v"
    using assms(1,3) by (auto simp: encodeMatrixCell_def json_Marshal_def split: if_splits)
  with json_parse_Marshal [OF document_wf [OF assms(2,3)] assms(4)] show ?thesis by simp
qed

end
