(* ===== verification/Planner.thy ===== *)
theory Planner
  imports Dispatch_Base Job_Machine Sample Matrix_Cell
begin

text \<open>
  \<open>internal/planner\<close>: a workflow file is parsed and planned by act's \<open>pkg/model\<close>, every
  job's matrix is expanded, and one run row and one job row per matrix cell are written.

  act is a parameter, the record \<open>act\<close>: \<open>ReadWorkflow\<close>, the workflow planner's
  \<open>PlanEvent\<close> and \<open>PlanAll\<close>, and of each planned job its name, needs and
  \<open>GetMatrixes\<close>; \<open>None\<close> is an error. Cells and their encoding are in \<open>Matrix_Cell\<close>.
\<close>

subsection \<open>Values of act\<close>

record act_job =
  aj_Name :: string
  aj_Needs :: "string slice"
  aj_GetMatrixes :: "cell list option"

record act_run =
  ar_JobID :: string
  ar_Job :: "act_job option"

type_synonym act_plan = "act_run list list"

record act_workflow =
  wf_If :: "(string \<times> string) list"
  wf_On :: "string list"
  wf_OnEvent :: "string \<Rightarrow> yaml"

record act_planner =
  PlanEvent :: "string \<Rightarrow> act_plan option"
  PlanAll :: "act_plan option"

record act =
  ReadWorkflow :: "bytes \<Rightarrow> act_workflow option"
  NewSingleWorkflowPlanner :: "string \<Rightarrow> bytes \<Rightarrow> act_planner option"

subsection \<open>Input, result and planned jobs\<close>

record PlanInput =
  pi_Repo :: string
  pi_Ref :: string
  pi_SHA :: string
  pi_EventName :: string
  pi_EventPayload :: "char slice"
  pi_TriggeredBy :: string
  pi_WorkflowYAML :: bytes

record PlanResult =
  pr_RunID :: uuid
  pr_JobIDs :: "uuid list"

record plannedJob =
  pj_jobIDYAML :: string
  pj_name :: string
  pj_needs :: "string slice"
  pj_ifExpr :: "string option"
  pj_cells :: "cell list"

datatype plan_error = ErrInvalidWorkflow | PlanStore store_error | PlanMarshal

subsection \<open>Planning\<close>

definition map_lookup :: "(string \<times> string) list \<Rightarrow> string \<Rightarrow> string" where
  "map_lookup m k = (case map_of m k of None \<Rightarrow> '''' | Some v \<Rightarrow> v)"

definition plan_run :: "(string \<times> string) list \<Rightarrow> act_run \<Rightarrow> (plan_error + plannedJob option)" where
  "plan_run rawIf r =
     (case ar_Job r of
        None \<Rightarrow> Inr None
      | Some job \<Rightarrow>
          let name = (if aj_Name job = '''' then ar_JobID r else aj_Name job);
              raw = map_lookup rawIf (ar_JobID r);
              ifExpr = (if raw \<noteq> '''' then Some raw else None)
          in case aj_GetMatrixes job of
               None \<Rightarrow> Inl ErrInvalidWorkflow
             | Some cells \<Rightarrow>
                 Inr (Some \<lparr>pj_jobIDYAML = ar_JobID r, pj_name = name, pj_needs = aj_Needs job,
                            pj_ifExpr = ifExpr, pj_cells = cells\<rparr>))"

fun plan_runs :: "(string \<times> string) list \<Rightarrow> act_run list \<Rightarrow> (plan_error + plannedJob list)" where
  "plan_runs rawIf [] = Inr []"
| "plan_runs rawIf (r # rs) =
     (case plan_run rawIf r of
        Inl e \<Rightarrow> Inl e
      | Inr p \<Rightarrow>
          (case plan_runs rawIf rs of
             Inl e \<Rightarrow> Inl e
           | Inr ps \<Rightarrow> Inr (case p of None \<Rightarrow> ps | Some pj \<Rightarrow> pj # ps)))"

text \<open>Everything \<open>Plan\<close> does before it touches the database.\<close>

definition plan_jobs :: "act \<Rightarrow> PlanInput \<Rightarrow> (plan_error + plannedJob list)" where
  "plan_jobs A inp =
     (case ReadWorkflow A (pi_WorkflowYAML inp) of
        None \<Rightarrow> Inl ErrInvalidWorkflow
      | Some rawWF \<Rightarrow>
     (case NewSingleWorkflowPlanner A (pi_Repo inp @ ''@'' @ pi_Ref inp) (pi_WorkflowYAML inp) of
        None \<Rightarrow> Inl ErrInvalidWorkflow
      | Some wp \<Rightarrow>
     (case PlanEvent wp (pi_EventName inp) of
        None \<Rightarrow> Inl ErrInvalidWorkflow
      | Some stages \<Rightarrow>
     (case (if length stages = 0 then PlanAll wp else Some stages) of
        None \<Rightarrow> Inl ErrInvalidWorkflow
      | Some stages' \<Rightarrow> plan_runs (wf_If rawWF) (concat stages')))))"

subsection \<open>Persisting\<close>

definition row_name :: "string \<Rightarrow> string \<Rightarrow> string" where
  "row_name name nameSuffix = (if nameSuffix \<noteq> '''' then name @ '' ('' @ nameSuffix @ '')'' else name)"

definition job_of_cell :: "uuid \<Rightarrow> uuid \<Rightarrow> plannedJob \<Rightarrow> char slice \<times> string \<Rightarrow> Job" where
  "job_of_cell jobRowID runID pj enc =
     \<lparr>j_ID = jobRowID, j_RunID = runID, j_JobIDYAML = pj_jobIDYAML pj,
      j_Name = row_name (pj_name pj) (snd enc), j_MatrixCellJSON = fst enc, j_Needs = pj_needs pj,
      j_IfExpr = pj_ifExpr pj, j_Status = ''queued'', j_RunnerID = None, j_LeaseID = None,
      j_LeaseDeadline = None, j_Result = None, j_StartedAt = None, j_FinishedAt = None\<rparr>"

definition plan_failed :: "env \<Rightarrow> uuid \<Rightarrow> plan_error \<Rightarrow> (world, plan_error + 'a) state" where
  "plan_failed E runID e = do { SetRunStatus E runID ''failure''; ret (Inl e) }"

text \<open>The two nested loops: the cells of all jobs, each with its job, in plan order.\<close>

fun persist_cells ::
    "env \<Rightarrow> uuid \<Rightarrow> (plannedJob \<times> cell) list \<Rightarrow> uuid list \<Rightarrow> (world, plan_error + uuid list) state" where
  "persist_cells E runID [] ids = ret (Inr ids)"
| "persist_cells E runID ((pj, c) # rest) ids =
     (case encodeMatrixCell c of
        None \<Rightarrow> plan_failed E runID PlanMarshal
      | Some enc \<Rightarrow> do {
          jobRowID \<leftarrow> uuid_new E;
          r \<leftarrow> CreateJob E (job_of_cell jobRowID runID pj enc);
          case r of
            Inl e \<Rightarrow> plan_failed E runID (PlanStore e)
          | Inr _ \<Rightarrow> persist_cells E runID rest (ids @ [jobRowID])
        })"

definition all_cells :: "plannedJob list \<Rightarrow> (plannedJob \<times> cell) list" where
  "all_cells pjs = concat (map (\<lambda>pj. map (Pair pj) (pj_cells pj)) pjs)"

definition Plan :: "act \<Rightarrow> env \<Rightarrow> PlanInput \<Rightarrow> (world, plan_error + PlanResult) state" where
  "Plan A E inp =
     (case plan_jobs A inp of
        Inl e \<Rightarrow> ret (Inl e)
      | Inr plannedJobs \<Rightarrow> do {
          runID \<leftarrow> uuid_new E;
          r \<leftarrow> CreateRun E
            \<lparr>run_ID = runID, run_Repo = pi_Repo inp, run_Ref = pi_Ref inp, run_SHA = pi_SHA inp,
             run_Event = pi_EventName inp, run_EventPayloadJSON = pi_EventPayload inp,
             run_TriggeredBy = pi_TriggeredBy inp, run_Status = ''queued'',
             run_WorkflowYAML = pi_WorkflowYAML inp, run_CreatedAt = 0\<rparr>;
          case r of
            Inl e \<Rightarrow> ret (Inl (PlanStore e))
          | Inr _ \<Rightarrow> do {
              p \<leftarrow> persist_cells E runID (all_cells plannedJobs) [];
              case p of
                Inl e \<Rightarrow> ret (Inl e)
              | Inr ids \<Rightarrow> ret (Inr \<lparr>pr_RunID = runID, pr_JobIDs = ids\<rparr>)
            }
        })"

subsection \<open>What every relation of the stores gives\<close>

lemma new_job_cell: "new_job (job_of_cell jid runID pj enc)"
  by (simp add: new_job_def job_of_cell_def)

context store_rel
begin

lemma guar_plan_failed: "rely E \<Longrightarrow> guar (plan_failed E runID e)"
  unfolding plan_failed_def by (intro guar_rules guar_SetRunStatus)

lemma guar_persist_cells: "rely E \<Longrightarrow> guar (persist_cells E runID cells ids)"
  by (induction cells arbitrary: ids)
    (auto intro!: guar_rules guar_CreateJob guar_plan_failed new_job_cell)

lemma guar_Plan: "rely E \<Longrightarrow> guar (Plan A E inp)"
  unfolding Plan_def by (intro guar_rules guar_store guar_persist_cells)

end

subsection \<open>Properties\<close>

lemma plan_run_error: "plan_run rawIf r = Inl e \<Longrightarrow> e = ErrInvalidWorkflow"
  by (auto simp: plan_run_def Let_def split: option.splits)

lemma plan_runs_error: "plan_runs rawIf rs = Inl e \<Longrightarrow> e = ErrInvalidWorkflow"
  by (induction rs) (auto split: sum.splits dest: plan_run_error)

lemma plan_jobs_error: "plan_jobs A inp = Inl e \<Longrightarrow> e = ErrInvalidWorkflow"
  by (auto simp: plan_jobs_def split: option.splits if_splits dest: plan_runs_error)

lemma plan_failed_error: "fst (run_state (plan_failed E runID e) w) = Inl e"
  by (simp add: plan_failed_def split_beta)

lemma persist_cells_error:
  "fst (run_state (persist_cells E runID cells ids) w) \<noteq> Inl ErrInvalidWorkflow"
  by (induction cells arbitrary: ids w)
    (auto simp: plan_failed_error split_beta split: option.splits sum.splits)

text \<open>
  What makes a workflow invalid: \<open>act\<close> cannot read it, make a planner of it or plan the event,
  nor all jobs when the event matches none, or cannot expand the matrix of a planned job.
\<close>

definition event_plan :: "act_planner \<Rightarrow> string \<Rightarrow> act_plan option" where
  "event_plan wp event = (case PlanEvent wp event of Some [] \<Rightarrow> PlanAll wp | p \<Rightarrow> p)"

definition invalid_workflow :: "act \<Rightarrow> PlanInput \<Rightarrow> bool" where
  "invalid_workflow A inp \<longleftrightarrow> ReadWorkflow A (pi_WorkflowYAML inp) = None \<or>
     (case NewSingleWorkflowPlanner A (pi_Repo inp @ ''@'' @ pi_Ref inp) (pi_WorkflowYAML inp) of
        None \<Rightarrow> True
      | Some wp \<Rightarrow>
          (case event_plan wp (pi_EventName inp) of
             None \<Rightarrow> True
           | Some stages \<Rightarrow> \<exists>stage\<in>set stages. \<exists>r\<in>set stage. \<exists>job. ar_Job r = Some job \<and> aj_GetMatrixes job = None))"

lemma plan_runs_fails: "(\<exists>e. plan_runs rawIf rs = Inl e) \<longleftrightarrow> (\<exists>r\<in>set rs. \<exists>job. ar_Job r = Some job \<and> aj_GetMatrixes job = None)"
proof (induction rs)
  case (Cons r rs)
  have "(\<exists>e. plan_run rawIf r = Inl e) \<longleftrightarrow> (\<exists>job. ar_Job r = Some job \<and> aj_GetMatrixes job = None)"
    by (auto simp: plan_run_def Let_def split: option.splits)
  with Cons show ?case by (cases "plan_run rawIf r"; cases "plan_runs rawIf rs") auto
qed simp

lemma plan_jobs_fails: "(\<exists>e. plan_jobs A inp = Inl e) \<longleftrightarrow> invalid_workflow A inp"
proof (cases "ReadWorkflow A (pi_WorkflowYAML inp)")
  case (Some rawWF)
  show ?thesis
  proof (cases "NewSingleWorkflowPlanner A (pi_Repo inp @ ''@'' @ pi_Ref inp) (pi_WorkflowYAML inp)")
    case (Some wp)
    have "plan_jobs A inp = (case event_plan wp (pi_EventName inp) of
        None \<Rightarrow> Inl ErrInvalidWorkflow | Some stages \<Rightarrow> plan_runs (wf_If rawWF) (concat stages))"
      using \<open>ReadWorkflow _ _ = _\<close> Some by (auto simp: plan_jobs_def event_plan_def split: option.splits list.splits)
    with \<open>ReadWorkflow _ _ = _\<close> Some show ?thesis
      by (cases "event_plan wp (pi_EventName inp)") (auto simp: invalid_workflow_def plan_runs_fails)
  qed (use Some in \<open>simp add: plan_jobs_def invalid_workflow_def\<close>)
qed (simp add: plan_jobs_def invalid_workflow_def)

text \<open>
  C28: planning is all or nothing where it can be. \<open>Plan\<close> fails with \<open>ErrInvalidWorkflow\<close>
  exactly when \<open>act\<close> cannot read the workflow, plan it for the event (or, when the event matches
  no job, as a whole) or expand the matrix of one of the planned jobs; whatever the database does
  gives other errors. And then it has touched nothing: the whole state of the process and the
  database is the one before, with no statement sent.
\<close>

theorem invalid_workflow_writes_nothing:
  "(fst (run_state (Plan A E inp) w) = Inl ErrInvalidWorkflow \<longleftrightarrow> invalid_workflow A inp) \<and>
   (invalid_workflow A inp \<longrightarrow> run_state (Plan A E inp) w = (Inl ErrInvalidWorkflow, w))"
proof (cases "plan_jobs A inp")
  case (Inl e)
  then have "invalid_workflow A inp" "e = ErrInvalidWorkflow" using plan_jobs_fails plan_jobs_error by blast+
  with Inl show ?thesis by (simp add: Plan_def)
next
  case (Inr pjs)
  then have "\<not> invalid_workflow A inp" using plan_jobs_fails [of A inp] by simp
  moreover have "fst (run_state (Plan A E inp) w) \<noteq> Inl ErrInvalidWorkflow"
    using Inr persist_cells_error by (auto simp: Plan_def split_beta split: sum.splits)
  ultimately show ?thesis by simp
qed

text \<open>The row a planned cell is stored as.\<close>

definition planned_row :: "env \<Rightarrow> uuid \<Rightarrow> plannedJob \<times> cell \<Rightarrow> Job \<Rightarrow> bool" where
  "planned_row E runID pc j \<longleftrightarrow>
     (\<exists>enc mc. encodeMatrixCell (snd pc) = Some enc \<and> jsonb_null E (fst enc) = Some mc \<and>
        j = (job_of_cell (j_ID j) runID (fst pc) enc)
              \<lparr>j_Needs := Some (elems (pj_needs (fst pc))), j_MatrixCellJSON := mc\<rparr>)"

lemma planned_row_new: "planned_row E runID pc j \<Longrightarrow> new_job j"
proof -
  assume "planned_row E runID pc j"
  then obtain enc mc where j: "j = (job_of_cell (j_ID j) runID (fst pc) enc)
      \<lparr>j_Needs := Some (elems (pj_needs (fst pc))), j_MatrixCellJSON := mc\<rparr>"
    by (auto simp: planned_row_def)
  show "new_job j" by (subst j) (simp add: new_job_def job_of_cell_def)
qed

lemma run_CreateJob:
  assumes "solo E" and "run_state (CreateJob E j) w = (Inr (), w')"
  shows "\<exists>mc. jsonb_null E (j_MatrixCellJSON j) = Some mc \<and>
    w' = w\<lparr>db := (db w)\<lparr>jobs := jobs (db w) @ [j\<lparr>j_Needs := Some (elems (j_Needs j)), j_MatrixCellJSON := mc\<rparr>]\<rparr>, tick := Suc (tick w)\<rparr>"
proof (cases "j_Needs j")
  case None
  with assms show ?thesis
    by (auto simp: CreateJob_def run_statement_solo sql_CreateJob_def split: option.splits if_splits)
next
  case (Some ns)
  have "j\<lparr>j_Needs := Some ns\<rparr> = j" using Some [symmetric] by simp
  with Some assms show ?thesis
    by (auto simp: CreateJob_def run_statement_solo sql_CreateJob_def split: option.splits if_splits)
qed

lemma persist_cells_rows:
  assumes "solo E" and "run_state (persist_cells E runID cells ids) w = (Inr ids', w')"
  shows "\<exists>new n. w' = w\<lparr>db := (db w)\<lparr>jobs := jobs (db w) @ new\<rparr>, tick := n\<rparr> \<and> ids' = ids @ map j_ID new \<and>
    list_all2 (planned_row E runID) cells new"
  using assms(2)
proof (induction cells arbitrary: ids w)
  case Nil
  then show ?case by (intro exI [of _ "[]"] exI [of _ "tick w"]) simp
next
  case (Cons pc cells)
  obtain pj c where pc: "pc = (pj, c)" by (cases pc)
  obtain enc where enc: "encodeMatrixCell c = Some enc"
    using Cons.prems pc by (cases "encodeMatrixCell c") (auto simp: plan_failed_def split_beta)
  let ?jid = "new_uuid E (tick w)" and ?w = "w\<lparr>tick := Suc (tick w)\<rparr>"
  obtain r w1 where r: "run_state (CreateJob E (job_of_cell ?jid runID pj enc)) ?w = (r, w1)"
    by (cases "run_state (CreateJob E (job_of_cell ?jid runID pj enc)) ?w")
  have ok: "r = Inr ()" using Cons.prems pc enc r by (cases r) (auto simp: plan_failed_def split_beta)
  with run_CreateJob [OF assms(1)] r obtain mc where mc: "jsonb_null E (fst enc) = Some mc"
    and w1: "w1 = w\<lparr>db := (db w)\<lparr>jobs := jobs (db w) @ [(job_of_cell ?jid runID pj enc)
        \<lparr>j_Needs := Some (elems (pj_needs pj)), j_MatrixCellJSON := mc\<rparr>]\<rparr>, tick := Suc (Suc (tick w))\<rparr>"
    by (fastforce simp: job_of_cell_def)
  have "run_state (persist_cells E runID cells (ids @ [?jid])) w1 = (Inr ids', w')"
    using Cons.prems pc enc r ok by simp
  from Cons.IH [OF this] obtain new n where IH: "w' = w1\<lparr>db := (db w1)\<lparr>jobs := jobs (db w1) @ new\<rparr>, tick := n\<rparr>"
    "ids' = (ids @ [?jid]) @ map j_ID new" "list_all2 (planned_row E runID) cells new" by blast
  let ?row = "(job_of_cell ?jid runID pj enc)\<lparr>j_Needs := Some (elems (pj_needs pj)), j_MatrixCellJSON := mc\<rparr>"
  have "planned_row E runID pc ?row" using enc mc pc by (auto simp: planned_row_def job_of_cell_def)
  then show ?case
    by (intro exI [of _ "?row # new"] exI [of _ n]) (use IH w1 in \<open>simp add: job_of_cell_def\<close>)
qed

lemma Plan_success:
  assumes "solo E" and "run_state (Plan A E inp) w = (Inr res, w')"
  shows "\<exists>pjs run new. plan_jobs A inp = Inr pjs \<and>
    workflow_runs (db w') = workflow_runs (db w) @ [run] \<and>
    run_ID run = pr_RunID res \<and> run_Status run = ''queued'' \<and> run_Repo run = pi_Repo inp \<and>
    run_Ref run = pi_Ref inp \<and> run_SHA run = pi_SHA inp \<and> run_Event run = pi_EventName inp \<and>
    run_WorkflowYAML run = pi_WorkflowYAML inp \<and>
    jobs (db w') = jobs (db w) @ new \<and> map j_ID new = pr_JobIDs res \<and>
    list_all2 (planned_row E (pr_RunID res)) (all_cells pjs) new \<and> (\<forall>j\<in>set new. new_job j) \<and>
    runners (db w') = runners (db w)"
proof -
  obtain pjs where pjs: "plan_jobs A inp = Inr pjs" using assms(2) by (cases "plan_jobs A inp") (auto simp: Plan_def)
  let ?rid = "new_uuid E (tick w)"
  let ?run = "\<lparr>run_ID = ?rid, run_Repo = pi_Repo inp, run_Ref = pi_Ref inp, run_SHA = pi_SHA inp,
     run_Event = pi_EventName inp, run_EventPayloadJSON = pi_EventPayload inp, run_TriggeredBy = pi_TriggeredBy inp,
     run_Status = ''queued'', run_WorkflowYAML = pi_WorkflowYAML inp, run_CreatedAt = 0\<rparr>"
  obtain r w1 where r: "run_state (CreateRun E ?run) (w\<lparr>tick := Suc (tick w)\<rparr>) = (r, w1)"
    by (cases "run_state (CreateRun E ?run) (w\<lparr>tick := Suc (tick w)\<rparr>)")
  have ok: "r = Inr ()" using assms(2) pjs r by (cases r) (auto simp: Plan_def)
  with r obtain p now where w1: "w1 = w\<lparr>db := (db w)\<lparr>workflow_runs := workflow_runs (db w) @
      [?run\<lparr>run_EventPayloadJSON := Some p, run_CreatedAt := now\<rparr>]\<rparr>, tick := Suc (Suc (tick w))\<rparr>"
    by (auto simp: CreateRun_def run_statement_solo [OF assms(1)] sql_CreateRun_def split: option.splits if_splits)
  obtain q w2 where q: "run_state (persist_cells E ?rid (all_cells pjs) []) w1 = (q, w2)"
    by (cases "run_state (persist_cells E ?rid (all_cells pjs) []) w1")
  with assms(2) pjs r ok obtain ids where ids: "q = Inr ids" "res = \<lparr>pr_RunID = ?rid, pr_JobIDs = ids\<rparr>" "w' = w2"
    by (cases q) (auto simp: Plan_def)
  from persist_cells_rows [OF assms(1)] q ids obtain new n where
    new: "w2 = w1\<lparr>db := (db w1)\<lparr>jobs := jobs (db w1) @ new\<rparr>, tick := n\<rparr>" "ids = map j_ID new"
    "list_all2 (planned_row E ?rid) (all_cells pjs) new" by fastforce
  have "\<forall>j\<in>set new. new_job j"
  proof
    fix j assume "j \<in> set new"
    then obtain i where "i < length new" "j = new ! i" by (auto simp: in_set_conv_nth)
    with new(3) have "planned_row E ?rid (all_cells pjs ! i) j" by (simp add: list_all2_conv_all_nth)
    then show "new_job j" by (rule planned_row_new)
  qed
  with pjs w1 ids new show ?thesis
    by (intro exI [of _ pjs] exI [of _ "?run\<lparr>run_EventPayloadJSON := Some p, run_CreatedAt := now\<rparr>"] exI [of _ new]) simp
qed

text \<open>
  The column a cell is stored in: NULL without a matrix, else what Postgres makes of a text that
  is read back as the cell.
\<close>

definition cell_stored :: "env \<Rightarrow> cell \<Rightarrow> char slice \<Rightarrow> bool" where
  "cell_stored E c mc \<longleftrightarrow>
     (if c = [] then mc = None
      else \<exists>text t v. mc = Some t \<and> jsonb E text = Some t \<and> document (YMap c) = Some v \<and>
        (yaml_ok (YMap c) \<and> depth v \<le> maxNestingDepth \<longrightarrow> json_parse text = Some (coerce_json v)))"

lemma planned_row_cell: "planned_row E runID pc j \<Longrightarrow> cell_stored E (snd pc) (j_MatrixCellJSON j)"
proof -
  assume "planned_row E runID pc j"
  then obtain b sfx mc where enc: "encodeMatrixCell (snd pc) = Some (b, sfx)" "jsonb_null E b = Some mc"
    and j: "j = (job_of_cell (j_ID j) runID (fst pc) (b, sfx))
      \<lparr>j_Needs := Some (elems (pj_needs (fst pc))), j_MatrixCellJSON := mc\<rparr>"
    by (auto simp: planned_row_def)
  have mc: "j_MatrixCellJSON j = mc" by (subst j) simp
  show ?thesis
  proof (cases "snd pc = []")
    case True
    with enc mc show ?thesis by (auto simp: cell_stored_def encodeMatrixCell_def jsonb_null_def)
  next
    case False
    then obtain v where v: "document (YMap (snd pc)) = Some v" "b = Some (Marshal v)"
      using enc(1) by (auto simp: encodeMatrixCell_def json_Marshal_def simp del: document.simps split: option.splits)
    moreover obtain t where "jsonb E (Marshal v) = Some t" "mc = Some t" using enc(2) v(2) by (auto simp: jsonb_null_def)
    ultimately show ?thesis
      using False mc json_parse_Marshal [OF document_wf [OF _ v(1)]] unfolding cell_stored_def by auto
  qed
qed

text \<open>
  C27: what a successful \<open>Plan\<close> writes, alone on the database: one run row, queued, with the
  trigger's data and the verbatim workflow, and after the existing jobs exactly one row per
  matrix cell of every planned job, in plan order, each queued and not leased, with the job's
  needs, its own \<open>if:\<close> text and the cell, as a text that is read back as the cell; the ids returned are the ids of these rows, and no
  runner row is touched.
\<close>

theorem Plan_rows:
  assumes "solo E" and "run_state (Plan A E inp) w = (Inr res, w')"
  shows "\<exists>pjs run new. plan_jobs A inp = Inr pjs \<and>
    workflow_runs (db w') = workflow_runs (db w) @ [run] \<and>
    run_ID run = pr_RunID res \<and> run_Status run = ''queued'' \<and> run_Repo run = pi_Repo inp \<and>
    run_Ref run = pi_Ref inp \<and> run_SHA run = pi_SHA inp \<and> run_Event run = pi_EventName inp \<and>
    run_WorkflowYAML run = pi_WorkflowYAML inp \<and>
    jobs (db w') = jobs (db w) @ new \<and> map j_ID new = pr_JobIDs res \<and>
    list_all2 (planned_row E (pr_RunID res)) (all_cells pjs) new \<and>
    list_all2 (\<lambda>pc j. cell_stored E (snd pc) (j_MatrixCellJSON j)) (all_cells pjs) new \<and>
    (\<forall>j\<in>set new. new_job j) \<and> runners (db w') = runners (db w)"
proof -
  have "list_all2 (\<lambda>pc j. cell_stored E (snd pc) (j_MatrixCellJSON j)) cells new"
    if "list_all2 (planned_row E (pr_RunID res)) cells new" for cells new
    using that by (rule list_all2_mono) (rule planned_row_cell)
  with Plan_success [OF assms] show ?thesis by meson
qed

subsection \<open>The runs a call may add\<close>

text \<open>The columns of a run that never change: all but the status and the stored payload.\<close>

definition run_origin :: "Run \<Rightarrow> string \<times> string \<times> string \<times> string \<times> string \<times> string" where
  "run_origin r = (run_Repo r, run_Ref r, run_SHA r, run_Event r, run_TriggeredBy r, run_WorkflowYAML r)"

definition input_origin :: "PlanInput \<Rightarrow> string \<times> string \<times> string \<times> string \<times> string \<times> string" where
  "input_origin inp = (pi_Repo inp, pi_Ref inp, pi_SHA inp, pi_EventName inp, pi_TriggeredBy inp, pi_WorkflowYAML inp)"

definition origins :: "world \<Rightarrow> (string \<times> string \<times> string \<times> string \<times> string \<times> string) list" where
  "origins w = map run_origin (workflow_runs (db w))"

lemma origins_SetRunStatus: "solo E \<Longrightarrow> origins (snd (run_state (SetRunStatus E rid st) w)) = origins w"
  by (simp add: SetRunStatus_def run_statement_solo sql_SetRunStatus_def origins_def split_beta run_origin_def
      map_update_where_same)

lemma origins_CreateJob: "solo E \<Longrightarrow> origins (snd (run_state (CreateJob E j) w)) = origins w"
  by (auto simp: CreateJob_def Let_def run_statement_solo sql_CreateJob_def origins_def split_beta split: option.splits)

lemma origins_persist_cells:
  "solo E \<Longrightarrow> origins (snd (run_state (persist_cells E rid cells ids) w)) = origins w"
proof (induction cells arbitrary: ids w)
  case (Cons pc cells)
  obtain pj c where pc: "pc = (pj, c)" by (cases pc)
  have o: "origins (w\<lparr>tick := n\<rparr>) = origins w" for w n by (simp add: origins_def)
  show ?case
  proof (cases "encodeMatrixCell c")
    case None
    with pc Cons.prems show ?thesis by (simp add: plan_failed_def origins_SetRunStatus split_beta)
  next
    case (Some enc)
    let ?j = "job_of_cell (new_uuid E (tick w)) rid pj enc" and ?w = "w\<lparr>tick := Suc (tick w)\<rparr>"
    obtain r w1 where r: "run_state (CreateJob E ?j) ?w = (r, w1)" by (cases "run_state (CreateJob E ?j) ?w")
    then have "origins w1 = origins w" using origins_CreateJob [OF Cons.prems, of ?j ?w] o by simp
    with pc Some r Cons show ?thesis
      by (cases r) (simp_all add: plan_failed_def origins_SetRunStatus split_beta)
  qed
qed simp

text \<open>Whatever comes of a call of \<open>Plan\<close>, it adds at most one run, and that is of its input.\<close>

lemma Plan_origins:
  assumes "solo E"
  shows "origins (snd (run_state (Plan A E inp) w)) \<in> {origins w, origins w @ [input_origin inp]}"
proof (cases "plan_jobs A inp")
  case (Inl e)
  then show ?thesis by (simp add: Plan_def)
next
  case (Inr pjs)
  let ?run = "\<lparr>run_ID = new_uuid E (tick w), run_Repo = pi_Repo inp, run_Ref = pi_Ref inp, run_SHA = pi_SHA inp,
     run_Event = pi_EventName inp, run_EventPayloadJSON = pi_EventPayload inp, run_TriggeredBy = pi_TriggeredBy inp,
     run_Status = ''queued'', run_WorkflowYAML = pi_WorkflowYAML inp, run_CreatedAt = 0\<rparr>"
  obtain r w1 where r: "run_state (CreateRun E ?run) (w\<lparr>tick := Suc (tick w)\<rparr>) = (r, w1)"
    by (cases "run_state (CreateRun E ?run) (w\<lparr>tick := Suc (tick w)\<rparr>)")
  have w1: "origins w1 \<in> {origins w, origins w @ [input_origin inp]}"
    using r assms by (auto simp: CreateRun_def Let_def run_statement_solo sql_CreateRun_def origins_def run_origin_def
        input_origin_def split_beta split: option.splits if_splits)
  show ?thesis
    using Inr r w1 assms by (cases r) (auto simp: Plan_def origins_persist_cells split_beta split: sum.splits)
qed

subsection \<open>A concrete workflow\<close>

text \<open>A matrixed \<open>build\<close> with two cells and a \<open>test\<close> that needs it.\<close>

definition sample_act :: act where
  "sample_act =
     \<lparr>ReadWorkflow = \<lambda>y. Some \<lparr>wf_If = [(''test'', ''always()'')], wf_On = [''push''], wf_OnEvent = \<lambda>_. YNull\<rparr>,
      NewSingleWorkflowPlanner = \<lambda>_ _. Some
        \<lparr>PlanEvent = \<lambda>_. Some
           [[\<lparr>ar_JobID = ''build'', ar_Job = Some \<lparr>aj_Name = '''', aj_Needs = None,
                aj_GetMatrixes = Some [[(''os'', YStr ''linux'')], [(''os'', YStr ''mac'')]]\<rparr>\<rparr>],
            [\<lparr>ar_JobID = ''test'', ar_Job = Some \<lparr>aj_Name = ''Test'', aj_Needs = Some [''build''],
                aj_GetMatrixes = Some [[]]\<rparr>\<rparr>]],
         PlanAll = None\<rparr>\<rparr>"

text \<open>The same workflow with a matrix \<open>act\<close> cannot expand.\<close>

definition bad_matrix_act :: act where
  "bad_matrix_act = sample_act\<lparr>NewSingleWorkflowPlanner := \<lambda>_ _. Some
     \<lparr>PlanEvent = \<lambda>_. Some [[\<lparr>ar_JobID = ''build'', ar_Job = Some \<lparr>aj_Name = [], aj_Needs = None, aj_GetMatrixes = None\<rparr>\<rparr>]],
      PlanAll = None\<rparr>\<rparr>"

definition sample_input :: PlanInput where
  "sample_input =
     \<lparr>pi_Repo = ''acme/app'', pi_Ref = ''refs/heads/main'', pi_SHA = ''abc'', pi_EventName = ''push'',
      pi_EventPayload = Some ''{}'', pi_TriggeredBy = ''dev'', pi_WorkflowYAML = ''on: push''\<rparr>"

theorem invalid_workflow_writes_nothing_witness:
  "run_state (Plan bad_matrix_act sample_env sample_input) (world_with (db_with [])) =
     (Inl ErrInvalidWorkflow, world_with (db_with []))"
proof -
  have "invalid_workflow bad_matrix_act sample_input"
    by (simp add: invalid_workflow_def bad_matrix_act_def event_plan_def sample_act_def)
  then show ?thesis using invalid_workflow_writes_nothing by blast
qed

lemma Plan_sample: "\<exists>res w'. run_state (Plan sample_act sample_env sample_input) (world_with (db_with [])) = (Inr res, w')"
proof -
  have "case fst (run_state (Plan sample_act sample_env sample_input) (world_with (db_with []))) of Inl _ \<Rightarrow> False | Inr _ \<Rightarrow> True"
    by code_simp
  then show ?thesis
    by (cases "run_state (Plan sample_act sample_env sample_input) (world_with (db_with []))") (auto split: sum.splits)
qed

theorem Plan_rows_witness:
  "\<exists>res w' new. run_state (Plan sample_act sample_env sample_input) (world_with (db_with [])) = (Inr res, w') \<and>
     jobs (db w') = new \<and> map j_ID new = pr_JobIDs res \<and> map j_JobIDYAML new = [''build'', ''build'', ''test'']"
proof -
  obtain res w' where run: "run_state (Plan sample_act sample_env sample_input) (world_with (db_with [])) = (Inr res, w')"
    using Plan_sample by blast
  from Plan_rows [OF solo_sample_env run] obtain pjs new where
    new: "plan_jobs sample_act sample_input = Inr pjs" "jobs (db w') = jobs (db (world_with (db_with []))) @ new"
    "map j_ID new = pr_JobIDs res" "list_all2 (planned_row sample_env (pr_RunID res)) (all_cells pjs) new" by blast
  have "map (pj_jobIDYAML \<circ> fst) (all_cells pjs) = [''build'', ''build'', ''test'']"
    using new(1) by (auto simp: plan_jobs_def sample_act_def plan_run_def Let_def all_cells_def)
  moreover have "planned_row E rid pc j \<Longrightarrow> j_JobIDYAML j = pj_jobIDYAML (fst pc)" for E rid pc j
  proof -
    assume "planned_row E rid pc j"
    then obtain enc mc where j: "j = (job_of_cell (j_ID j) rid (fst pc) enc)
        \<lparr>j_Needs := Some (elems (pj_needs (fst pc))), j_MatrixCellJSON := mc\<rparr>" by (auto simp: planned_row_def)
    show ?thesis by (subst j) (simp add: job_of_cell_def)
  qed
  then have "list_all2 (\<lambda>pc j. j_JobIDYAML j = pj_jobIDYAML (fst pc)) (all_cells pjs) new"
    by (intro list_all2_mono [OF new(4)]) blast
  then have "map j_JobIDYAML new = map (pj_jobIDYAML \<circ> fst) (all_cells pjs)"
    by (auto simp: list_all2_conv_all_nth intro!: nth_equalityI)
  ultimately show ?thesis using run new by (simp add: world_with_def db_with_def)
qed

end
