(* ===== verification/Github_Api.thy ===== *)
theory Github_Api
  imports Github_Client Http Base64 Json_Roundtrip
begin

text \<open>
  The requests of \<open>internal/github/github.go\<close>: resolving a ref, listing the workflow files
  of a commit and fetching one, over the transport \<open>http\<close>.
\<close>

definition newRequest :: "Client \<Rightarrow> string \<Rightarrow> string \<Rightarrow> string \<Rightarrow> Request option" where
  "newRequest c method path accept =
     (case NewRequest method (base c @ path) [] of
        None \<Rightarrow> None
      | Some req \<Rightarrow>
          let accept' = (if accept = '''' then ''application/vnd.github+json'' else accept);
              req1 = set_header ''Accept'' accept' req;
              req2 = set_header ''X-GitHub-Api-Version'' apiVersion req1
          in Some (if token c \<noteq> '''' then set_header ''Authorization'' (''Bearer '' @ token c) req2 else req2))"

definition bodyCap :: nat where
  "bodyCap = 10 * 2 ^ 20"

definition do_request :: "transport \<Rightarrow> Request \<Rightarrow> (client_error + bytes)" where
  "do_request http req =
     (case http (sent req) of
        None \<Rightarrow> Inl ErrTransport
      | Some resp \<Rightarrow>
          (case read_limited bodyCap resp of
             None \<Rightarrow> Inl ErrTransport
           | Some body \<Rightarrow>
               if rs_StatusCode resp \<ge> 200 \<and> rs_StatusCode resp < 300 then Inr body
               else if rs_StatusCode resp = 404 then Inl ErrNotFound
               else if rs_StatusCode resp = 401 \<or> rs_StatusCode resp = 403 then Inl ErrUnauthorized
               else Inl (ErrStatus (rs_StatusCode resp))))"

definition request :: "transport \<Rightarrow> Client \<Rightarrow> string \<Rightarrow> string \<Rightarrow> string \<Rightarrow> (client_error + bytes)" where
  "request http c method path accept =
     (case newRequest c method path accept of None \<Rightarrow> Inl ErrRequest | Some req \<Rightarrow> do_request http req)"

definition ResolveRef :: "transport \<Rightarrow> Client \<Rightarrow> string \<Rightarrow> string \<Rightarrow> (client_error + string)" where
  "ResolveRef http c repo ref =
     (case splitRepo repo of
        None \<Rightarrow> Inl ErrArgument
      | Some (owner, name) \<Rightarrow>
          if ref = '''' then Inl ErrArgument
          else case request http c ''GET'' (''/repos/'' @ owner @ ''/'' @ name @ ''/commits/'' @ ref) ''application/vnd.github.sha'' of
                 Inl e \<Rightarrow> Inl e
               | Inr body \<Rightarrow>
                   let sha = TrimSpace body in
                   if sha = '''' then Inl ErrDecode else Inr sha)"

subsection \<open>Workflow files\<close>

record contentsEntry =
  ce_Name :: string
  ce_Path :: string
  ce_Type :: string
  ce_Content :: string
  ce_Encoding :: string

definition zero_entry :: contentsEntry where
  "zero_entry = \<lparr>ce_Name = '''', ce_Path = '''', ce_Type = '''', ce_Content = '''', ce_Encoding = ''''\<rparr>"

definition entry_fields :: "contentsEntry fields" where
  "entry_fields =
     [(''name'', \<lambda>v e. case decode_string v (ce_Name e) of (s, ok) \<Rightarrow> (e\<lparr>ce_Name := s\<rparr>, ok)),
      (''path'', \<lambda>v e. case decode_string v (ce_Path e) of (s, ok) \<Rightarrow> (e\<lparr>ce_Path := s\<rparr>, ok)),
      (''type'', \<lambda>v e. case decode_string v (ce_Type e) of (s, ok) \<Rightarrow> (e\<lparr>ce_Type := s\<rparr>, ok)),
      (''content'', \<lambda>v e. case decode_string v (ce_Content e) of (s, ok) \<Rightarrow> (e\<lparr>ce_Content := s\<rparr>, ok)),
      (''encoding'', \<lambda>v e. case decode_string v (ce_Encoding e) of (s, ok) \<Rightarrow> (e\<lparr>ce_Encoding := s\<rparr>, ok))]"

definition decode_entry :: "contentsEntry decoder" where
  "decode_entry = decode_struct entry_fields"

definition workflow_entry :: "contentsEntry \<Rightarrow> bool" where
  "workflow_entry e \<longleftrightarrow> ce_Type e = ''file'' \<and> (HasSuffix (ce_Name e) ''.yml'' \<or> HasSuffix (ce_Name e) ''.yaml'')"

definition ListWorkflows :: "transport \<Rightarrow> Client \<Rightarrow> string \<Rightarrow> string \<Rightarrow> (client_error + string list)" where
  "ListWorkflows http c repo sha =
     (case splitRepo repo of
        None \<Rightarrow> Inl ErrArgument
      | Some (owner, name) \<Rightarrow>
          if sha = '''' then Inl ErrArgument
          else case request http c ''GET''
                      (''/repos/'' @ owner @ ''/'' @ name @ ''/contents/.github/workflows?ref='' @ sha) '''' of
                 Inl e \<Rightarrow> Inl e
               | Inr body \<Rightarrow>
                   (case Unmarshal (decode_slice decode_entry zero_entry) None body of
                      None \<Rightarrow> Inl ErrDecode
                    | Some entries \<Rightarrow> Inr (map ce_Path (filter workflow_entry (elems entries)))))"

text \<open>The JSON form of a file: the decoded content, or \<open>None\<close> when the body is the file.\<close>

definition contents_form :: "bytes \<Rightarrow> (client_error + bytes) option" where
  "contents_form body =
     (case Unmarshal decode_entry zero_entry body of
        None \<Rightarrow> None
      | Some entry \<Rightarrow>
          if ce_Content entry = '''' then None
          else if ce_Encoding entry \<noteq> '''' \<and> ce_Encoding entry \<noteq> ''base64'' then Some (Inl ErrDecode)
          else case StdEncoding_DecodeString (ReplaceAll (CHR 0x0A) (ce_Content entry)) of
                 None \<Rightarrow> Some (Inl ErrDecode)
               | Some decoded \<Rightarrow> Some (Inr decoded))"

definition FetchWorkflow :: "transport \<Rightarrow> Client \<Rightarrow> string \<Rightarrow> string \<Rightarrow> string \<Rightarrow> (client_error + bytes)" where
  "FetchWorkflow http c repo sha path =
     (case splitRepo repo of
        None \<Rightarrow> Inl ErrArgument
      | Some (owner, name) \<Rightarrow>
          if sha = '''' then Inl ErrArgument
          else if path = '''' then Inl ErrArgument
          else case request http c ''GET''
                      (''/repos/'' @ owner @ ''/'' @ name @ ''/contents/'' @ path @ ''?ref='' @ sha)
                      ''application/vnd.github.raw'' of
                 Inl e \<Rightarrow> Inl e
               | Inr body \<Rightarrow> (case contents_form body of None \<Rightarrow> Inr body | Some r \<Rightarrow> r))"

subsection \<open>Refs with a fragment sign\<close>

lemma url_parses_fragment:
  "CHR ''#'' \<notin> set u \<Longrightarrow> url_parses (u @ CHR ''#'' # frag) \<longleftrightarrow> url_parses u \<and> valid_escapes frag"
  using SplitN2_append [of "CHR ''#''" u frag] by (auto simp: url_parses_def SplitN2_none)

lemma sent_set_header: "sent (set_header k v req) = set_header k v (sent req)"
  by (simp add: sent_def set_header_def)

lemma NewRequest_fragment:
  assumes "CHR ''#'' \<notin> set u" and "valid_escapes frag"
  shows "map_option sent (NewRequest method (u @ CHR ''#'' # frag) body) = map_option sent (NewRequest method u body)"
  using SplitN2_append [OF assms(1), of frag] url_parses_fragment [OF assms(1), of frag] assms
  by (simp add: NewRequest_def sent_def SplitN2_none)

lemma newRequest_sent:
  "map_option sent (newRequest c method path accept) =
     map_option (\<lambda>req. let accept' = (if accept = '''' then ''application/vnd.github+json'' else accept);
              req2 = set_header ''X-GitHub-Api-Version'' apiVersion (set_header ''Accept'' accept' req)
          in if token c \<noteq> '''' then set_header ''Authorization'' (''Bearer '' @ token c) req2 else req2)
       (map_option sent (NewRequest method (base c @ path) []))"
  by (cases "NewRequest method (base c @ path) []") (simp_all add: newRequest_def Let_def sent_set_header)

lemma request_sent:
  "map_option sent (newRequest c m p a) = map_option sent (newRequest c m p' a) \<Longrightarrow> request http c m p a = request http c m p' a"
  by (cases "newRequest c m p a"; cases "newRequest c m p' a") (simp_all add: request_def do_request_def)

text \<open>
  A ref is put into the URL as it is. From a fragment sign on it is not sent: resolving
  the branch \<open>ref#frag\<close> answers with the commit of the branch \<open>ref\<close>.
\<close>

theorem ResolveRef_drops_fragment:
  assumes "CHR ''#'' \<notin> set ref" and "ref \<noteq> []" and "CHR ''#'' \<notin> set repo" and "CHR ''#'' \<notin> set (base c)"
    and "valid_escapes frag"
  shows "ResolveRef http c repo (ref @ CHR ''#'' # frag) = ResolveRef http c repo ref"
proof (cases "splitRepo repo")
  case (Some on)
  obtain owner name where on: "on = (owner, name)" by (cases on)
  with Some have "repo = owner @ ''/'' @ name" using splitRepo_iff by blast
  with assms have u: "CHR ''#'' \<notin> set (base c @ ''/repos/'' @ owner @ ''/'' @ name @ ''/commits/'' @ ref)" by auto
  have "request http c ''GET'' (''/repos/'' @ owner @ ''/'' @ name @ ''/commits/'' @ ref @ CHR ''#'' # frag) a =
      request http c ''GET'' (''/repos/'' @ owner @ ''/'' @ name @ ''/commits/'' @ ref) a" for a
    by (rule request_sent) (use NewRequest_fragment [OF u assms(5)] in \<open>simp add: newRequest_sent\<close>)
  with Some on assms(2) show ?thesis by (simp add: ResolveRef_def)
qed (simp add: ResolveRef_def)

definition tip_server :: transport where
  "tip_server req = Some \<lparr>rs_StatusCode = 200, rs_Body = ''abc'', rs_BrokenOff = False\<rparr>"

theorem ResolveRef_drops_fragment_witness:
  "ResolveRef tip_server (New ''tok'') ''acme/app'' ''issue#42'' = ResolveRef tip_server (New ''tok'') ''acme/app'' ''issue''"
  using ResolveRef_drops_fragment [of "''issue''" "''acme/app''" "New ''tok''" "''42''" tip_server]
  by (simp add: base_def New_def apiBase_def)

subsection \<open>Fetching a file\<close>

text \<open>Base64 with padding, as GitHub writes the content of a file.\<close>

fun std_encode :: "bytes \<Rightarrow> string" where
  "std_encode (a # b # c # xs) = encode_raw stdAlphabet [a, b, c] @ std_encode xs"
| "std_encode [a, b] = encode_raw stdAlphabet [a, b] @ ''=''"
| "std_encode [a] = encode_raw stdAlphabet [a] @ ''==''"
| "std_encode [] = []"

lemma alphabet_bytes: "c \<in> set stdAlphabet \<Longrightarrow> c \<noteq> CHR ''='' \<and> c \<noteq> CHR 0x0A \<and> c \<noteq> CHR 0x0D \<and> char_code c < 128"
  by (auto simp: stdAlphabet_def char_code_def)

lemma encode_raw_bytes:
  "c \<in> set (encode_raw stdAlphabet xs) \<Longrightarrow> c \<noteq> CHR ''='' \<and> c \<noteq> CHR 0x0A \<and> c \<noteq> CHR 0x0D \<and> char_code c < 128"
  using set_encode_raw [OF alphabets(4), of xs] alphabet_bytes by blast

lemma list_of_length:
  "length xs = 4 \<Longrightarrow> \<exists>p q r s. xs = [p, q, r, s]" "length xs = 3 \<Longrightarrow> \<exists>p q r. xs = [p, q, r]" "length xs = 2 \<Longrightarrow> \<exists>p q. xs = [p, q]"
  by (auto simp: numeral_eq_Suc length_Suc_conv)

lemma encode_groups:
  "\<exists>p q r s. encode_raw stdAlphabet [a, b, c] = [p, q, r, s]" "\<exists>p q r. encode_raw stdAlphabet [a, b] = [p, q, r]"
  "\<exists>p q. encode_raw stdAlphabet [a] = [p, q]"
  by (rule list_of_length, simp add: length_encode_raw)+

lemma decode_groups_std_encode: "decode_groups (std_encode xs) = Some xs"
proof (induction xs rule: std_encode.induct)
  case (1 a b c xs)
  obtain p q r s where g: "encode_raw stdAlphabet [a, b, c] = [p, q, r, s]" using encode_groups(1) by blast
  then have "r \<noteq> CHR ''=''" "s \<noteq> CHR ''=''" using encode_raw_bytes [of _ "[a, b, c]"] by auto
  with g 1 decode_encode_raw [OF alphabets(2,4), of "[a, b, c]"] show ?case by simp
next
  case (2 a b)
  obtain p q r where g: "encode_raw stdAlphabet [a, b] = [p, q, r]" using encode_groups(2) by blast
  then have "r \<noteq> CHR ''=''" using encode_raw_bytes [of _ "[a, b]"] by auto
  with g decode_encode_raw [OF alphabets(2,4), of "[a, b]"] show ?case by simp
next
  case (3 a)
  obtain p q where g: "encode_raw stdAlphabet [a] = [p, q]" using encode_groups(3) by blast
  with decode_encode_raw [OF alphabets(2,4), of "[a]"] show ?case by simp
qed simp

lemma std_encode_bytes: "c \<in> set (std_encode xs) \<Longrightarrow> c \<noteq> CHR 0x0A \<and> c \<noteq> CHR 0x0D \<and> char_code c < 128"
  by (induction xs rule: std_encode.induct) (auto dest: encode_raw_bytes simp: char_code_def)

lemma DecodeString_std_encode: "StdEncoding_DecodeString (std_encode xs) = Some xs"
proof -
  have "filter (\<lambda>c. c \<noteq> CHR 0x0D \<and> c \<noteq> CHR 0x0A) (std_encode xs) = std_encode xs"
    using std_encode_bytes by (auto simp: filter_id_conv)
  then show ?thesis by (simp add: StdEncoding_DecodeString_def decode_groups_std_encode)
qed

text \<open>
  The contents object of a file: an object whose \<open>content\<close> is the given text and whose \<open>encoding\<close>
  is base64; its name, path and type, where it has them, are texts, and it may have any other
  members (as the size, the URLs and the links GitHub adds).
\<close>

definition contents_member :: "string \<Rightarrow> bytes \<times> json \<Rightarrow> bool" where
  "contents_member chunked kv \<longleftrightarrow> kv = (''content'', JString chunked) \<or> kv = (''encoding'', JString ''base64'') \<or>
     (\<exists>t. snd kv = JString t) \<and> fst kv \<in> {''name'', ''path'', ''type''} \<or> (\<forall>f\<in>set entry_fields. \<not> same_key (fst f) (fst kv))"

definition contents_object :: "string \<Rightarrow> json \<Rightarrow> bool" where
  "contents_object chunked v \<longleftrightarrow> (\<exists>kvs. v = JObject kvs \<and> (\<forall>kv\<in>set kvs. contents_member chunked kv) \<and>
     (''content'', JString chunked) \<in> set kvs \<and> (''encoding'', JString ''base64'') \<in> set kvs)"

lemma same_key_refl [simp]: "same_key k k"
  by (simp add: same_key_def)

lemma find_field_None: "\<forall>f\<in>set fs. \<not> same_key (fst f) k \<Longrightarrow> find_field fs k = None"
proof -
  assume *: "\<forall>f\<in>set fs. \<not> same_key (fst f) k"
  then have "find (\<lambda>f. fst f = k) fs = None" "find (\<lambda>f. same_key (fst f) k) fs = None"
    by (auto simp: find_None_iff)
  then show ?thesis by (simp add: find_field_def)
qed

lemma find_field_Some: "find_field fs k = Some f \<Longrightarrow> \<exists>n. (n, f) \<in> set fs \<and> same_key n k"
  unfolding find_field_def by (fastforce split: option.splits dest!: find_Some_set)

lemma entry_fields_at:
  "find_field entry_fields ''name'' = Some (\<lambda>v e. case decode_string v (ce_Name e) of (s, ok) \<Rightarrow> (e\<lparr>ce_Name := s\<rparr>, ok))"
  "find_field entry_fields ''path'' = Some (\<lambda>v e. case decode_string v (ce_Path e) of (s, ok) \<Rightarrow> (e\<lparr>ce_Path := s\<rparr>, ok))"
  "find_field entry_fields ''type'' = Some (\<lambda>v e. case decode_string v (ce_Type e) of (s, ok) \<Rightarrow> (e\<lparr>ce_Type := s\<rparr>, ok))"
  "find_field entry_fields ''content'' = Some (\<lambda>v e. case decode_string v (ce_Content e) of (s, ok) \<Rightarrow> (e\<lparr>ce_Content := s\<rparr>, ok))"
  "find_field entry_fields ''encoding'' = Some (\<lambda>v e. case decode_string v (ce_Encoding e) of (s, ok) \<Rightarrow> (e\<lparr>ce_Encoding := s\<rparr>, ok))"
  by (simp_all add: find_field_def entry_fields_def)

lemma decode_contents:
  "\<forall>kv\<in>set kvs. contents_member chunked kv \<Longrightarrow> \<exists>e'. decode_members entry_fields kvs e = (e', True) \<and>
    ce_Content e' = (if (''content'', JString chunked) \<in> set kvs then chunked else ce_Content e) \<and>
    ce_Encoding e' = (if (''encoding'', JString ''base64'') \<in> set kvs then ''base64'' else ce_Encoding e)"
proof (induction kvs arbitrary: e)
  case (Cons kv kvs)
  obtain k v where kv: "kv = (k, v)" by (cases kv)
  have "\<exists>e1. (case find_field entry_fields k of None \<Rightarrow> (e, True) | Some f \<Rightarrow> f v e) = (e1, True) \<and>
      ce_Content e1 = (if kv = (''content'', JString chunked) then chunked else ce_Content e) \<and>
      ce_Encoding e1 = (if kv = (''encoding'', JString ''base64'') then ''base64'' else ce_Encoding e)"
  proof (cases "\<forall>f\<in>set entry_fields. \<not> same_key (fst f) k")
    case True
    then have "kv \<noteq> (''content'', JString chunked)" "kv \<noteq> (''encoding'', JString ''base64'')"
      by (auto simp: kv entry_fields_def)
    with find_field_None [OF True] show ?thesis by simp
  next
    case False
    moreover have "contents_member chunked kv" using Cons.prems by simp
    ultimately consider "k = ''content''" "v = JString chunked" | "k = ''encoding''" "v = JString ''base64''"
      | t where "v = JString t" "k \<in> {''name'', ''path'', ''type''}" unfolding contents_member_def kv by auto
    then show ?thesis by cases (auto simp: kv entry_fields_at decode_string_def)
  qed
  then obtain e1 where e1: "(case find_field entry_fields k of None \<Rightarrow> (e, True) | Some f \<Rightarrow> f v e) = (e1, True)"
    "ce_Content e1 = (if kv = (''content'', JString chunked) then chunked else ce_Content e)"
    "ce_Encoding e1 = (if kv = (''encoding'', JString ''base64'') then ''base64'' else ce_Encoding e)" by blast
  obtain e' where "decode_members entry_fields kvs e1 = (e', True)"
    "ce_Content e' = (if (''content'', JString chunked) \<in> set kvs then chunked else ce_Content e1)"
    "ce_Encoding e' = (if (''encoding'', JString ''base64'') \<in> set kvs then ''base64'' else ce_Encoding e1)"
    using Cons.IH [of e1] Cons.prems by auto
  with e1 show ?case unfolding kv by auto
qed simp

lemma decode_no_content:
  assumes "\<forall>kv\<in>set kvs. \<not> same_key ''content'' (fst kv)"
  shows "ce_Content (fst (decode_members entry_fields kvs e)) = ce_Content e"
  using assms
proof (induction kvs arbitrary: e)
  case (Cons kv kvs)
  obtain k v where kv: "kv = (k, v)" by (cases kv)
  have "ce_Content (fst (case find_field entry_fields k of None \<Rightarrow> (e, True) | Some f \<Rightarrow> f v e)) = ce_Content e"
  proof (cases "find_field entry_fields k")
    case (Some f)
    then obtain n where "(n, f) \<in> set entry_fields" "same_key n k" using find_field_Some by blast
    with Cons.prems have "ce_Content (fst (f v e)) = ce_Content e" by (auto simp: kv entry_fields_def split_beta)
    with Some show ?thesis by simp
  qed simp
  with Cons show ?case by (simp add: kv split_beta)
qed simp

text \<open>A file that is no JSON object with a member \<open>content\<close> is taken as it is.\<close>

lemma contents_form_raw:
  assumes "\<forall>kvs. json_parse src = Some (JObject kvs) \<longrightarrow> (\<forall>kv\<in>set kvs. \<not> same_key ''content'' (fst kv))"
  shows "contents_form src = None"
proof (cases "Unmarshal decode_entry zero_entry src")
  case (Some entry)
  then obtain v where v: "json_parse src = Some v" "decode_entry v zero_entry = (entry, True)"
    by (auto simp: Unmarshal_def split: option.splits prod.splits if_splits)
  have "ce_Content entry = []"
  proof (cases v)
    case (JObject kvs)
    with v assms decode_no_content [of kvs zero_entry] show ?thesis
      by (simp add: decode_entry_def decode_struct_def zero_entry_def)
  qed (use v in \<open>auto simp: decode_entry_def decode_struct_def zero_entry_def\<close>)
  with Some show ?thesis by (simp add: contents_form_def)
qed (simp add: contents_form_def)

lemma contents_form_object:
  assumes "json_parse body = Some v" and "contents_object chunked v" and "ReplaceAll (CHR 0x0A) chunked = std_encode src" and "src \<noteq> []"
  shows "contents_form body = Some (Inr src)"
proof -
  obtain kvs where kvs: "v = JObject kvs" "\<forall>kv\<in>set kvs. contents_member chunked kv"
    "(''content'', JString chunked) \<in> set kvs" "(''encoding'', JString ''base64'') \<in> set kvs"
    using assms(2) by (auto simp: contents_object_def)
  obtain e where e: "decode_members entry_fields kvs zero_entry = (e, True)" "ce_Content e = chunked" "ce_Encoding e = ''base64''"
    using decode_contents [OF kvs(2), of zero_entry] kvs(3,4) by auto
  have "std_encode src \<noteq> []" using decode_groups_std_encode [of src] assms(4) by (cases "std_encode src") auto
  with assms(3) have "chunked \<noteq> []" by (auto simp: ReplaceAll_def)
  moreover have "Unmarshal decode_entry zero_entry body = Some e"
    by (simp add: Unmarshal_def assms(1) kvs(1) decode_entry_def decode_struct_def e(1))
  ultimately show ?thesis by (simp add: contents_form_def e assms(3) DecodeString_std_encode)
qed

text \<open>
  C36: a fetched workflow is the file, in both forms the server may answer with. When the API
  answers 200 with the raw bytes, these bytes are returned, unless the file itself is a JSON
  object with a member named \<open>content\<close> (in any case of letters). When it answers with a contents
  object instead, with any further members and its base64 text cut into lines at will, the
  file that was encoded is returned, unless it is empty.
\<close>

theorem FetchWorkflow_file:
  assumes "splitRepo repo = Some (owner, name)" and "sha \<noteq> []" and "path \<noteq> []"
    and "newRequest c ''GET'' (''/repos/'' @ owner @ ''/'' @ name @ ''/contents/'' @ path @ ''?ref='' @ sha)
           ''application/vnd.github.raw'' = Some req"
    and "http (sent req) = Some \<lparr>rs_StatusCode = 200, rs_Body = body, rs_BrokenOff = False\<rparr>" and "length body < bodyCap"
    and "body = src \<and> (\<forall>kvs. json_parse src = Some (JObject kvs) \<longrightarrow> (\<forall>kv\<in>set kvs. \<not> same_key ''content'' (fst kv))) \<or>
         (\<exists>v chunked. json_parse body = Some v \<and> contents_object chunked v \<and>
            ReplaceAll (CHR 0x0A) chunked = std_encode src \<and> src \<noteq> [])"
  shows "FetchWorkflow http c repo sha path = Inr src"
proof -
  have "request http c ''GET'' (''/repos/'' @ owner @ ''/'' @ name @ ''/contents/'' @ path @ ''?ref='' @ sha)
      ''application/vnd.github.raw'' = Inr body"
    using assms(4-6) by (simp add: request_def do_request_def read_limited_short)
  moreover have "contents_form body = (if body = src \<and> contents_form src = None then None else Some (Inr src))"
    using assms(7) contents_form_raw [of src] contents_form_object [of body _ _ src] by auto
  ultimately show ?thesis using assms(1-3) by (auto simp: FetchWorkflow_def split: if_splits)
qed

text \<open>A server that answers with the contents object of the file \<open>on: push\<close>.\<close>

definition sample_contents :: json where
  "sample_contents = JObject
     [(''name'', JString ''ci.yml''), (''path'', JString ''.github/workflows/ci.yml''), (''sha'', JString ''9c1''), (''size'', JNumber ''8''),
      (''type'', JString ''file''), (''content'', JString ''b246IHB1c2g=''), (''encoding'', JString ''base64'')]"

definition sample_server :: transport where
  "sample_server req = Some \<lparr>rs_StatusCode = 200, rs_Body = Marshal sample_contents, rs_BrokenOff = False\<rparr>"

lemma sample_contents_object: "contents_object ''b246IHB1c2g='' sample_contents"
  by (simp add: contents_object_def sample_contents_def contents_member_def entry_fields_def same_key_def runes_def
      decode_rune.simps char_code_def fold_rune_def)

lemma sample_contents_text: "std_encode ''on: push'' = ''b246IHB1c2g=''"
  by code_simp

lemma sample_contents_read: "json_parse (Marshal sample_contents) = Some sample_contents"
proof -
  have "coerce_json sample_contents = sample_contents"
    unfolding sample_contents_def by (simp add: coerce_ascii char_code_def)
  moreover have "wf_json sample_contents" "depth sample_contents \<le> maxNestingDepth"
    by (simp_all add: sample_contents_def word_char_def punctuation_def json_space_def valid_number_def is_digit_def char_code_def
        maxNestingDepth_def)
  ultimately show ?thesis using json_parse_Marshal by metis
qed

lemma newRequest_sample:
  "\<exists>req. newRequest (New ''tok'') ''GET'' (''/repos/'' @ ''acme'' @ ''/'' @ ''app'' @ ''/contents/'' @
      ''.github/workflows/ci.yml'' @ ''?ref='' @ ''abc'') ''application/vnd.github.raw'' = Some req"
  by (simp add: newRequest_def NewRequest_def url_parses_def SplitN2_def base_def New_def apiBase_def is_ctl_def char_code_def)

theorem FetchWorkflow_file_witness:
  "FetchWorkflow sample_server (New ''tok'') ''acme/app'' ''abc'' ''.github/workflows/ci.yml'' = Inr ''on: push''"
proof -
  obtain req where req: "newRequest (New ''tok'') ''GET'' (''/repos/'' @ ''acme'' @ ''/'' @ ''app'' @ ''/contents/'' @
      ''.github/workflows/ci.yml'' @ ''?ref='' @ ''abc'') ''application/vnd.github.raw'' = Some req"
    using newRequest_sample by blast
  have split: "splitRepo ''acme/app'' = Some (''acme'', ''app'')" by (simp add: splitRepo_iff)
  have short: "length (Marshal sample_contents) < bodyCap"
    by (simp add: sample_contents_def quote_plain plain_text_def char_code_def bodyCap_def)
  show ?thesis
    using sample_contents_object sample_contents_read sample_contents_text
    by (intro FetchWorkflow_file [OF split _ _ req, of _ "Marshal sample_contents"])
      (auto simp: sample_server_def short ReplaceAll_def intro!: exI [of _ sample_contents] exI [of _ "''b246IHB1c2g=''"])
qed

end
