(* ===== verification/Webhook_Github.thy ===== *)
theory Webhook_Github
  imports Http_Server Sha256 Json_Roundtrip Planner Dispatch_Gate Github_Api
begin

text \<open>
  \<open>internal/webhook/github.go\<close>: a delivery is verified, gated on the allow-listed
  repository, and every workflow file of the pushed commit whose \<open>on:\<close> admits the push is
  planned.

  act's pattern matcher \<open>pkg/workflowpattern\<close> is a parameter, the record
  \<open>workflowpattern\<close>, and so is the client that lists and fetches files.
\<close>

subsection \<open>Wire types\<close>

definition maxGitHubWebhookBody :: nat where
  "maxGitHubWebhookBody = 5 * 2 ^ 20"

record GitHubRepo =
  gr_FullName :: string
  gr_Fork :: bool
  gr_DefaultBranch :: string
  gr_CloneURL :: string

record GitHubPusher =
  gp_Name :: string

record GitHubCommit =
  gc_ID :: string
  gc_Message :: string
  gc_Added :: "string slice"
  gc_Removed :: "string slice"
  gc_Modified :: "string slice"

record PushEvent =
  pe_Ref :: string
  pe_After :: string
  pe_Repository :: GitHubRepo
  pe_Pusher :: GitHubPusher
  pe_HeadCommit :: "GitHubCommit option"
  pe_Commits :: "GitHubCommit slice"

definition zero_commit :: GitHubCommit where
  "zero_commit = \<lparr>gc_ID = '''', gc_Message = '''', gc_Added = None, gc_Removed = None, gc_Modified = None\<rparr>"

definition zero_push :: PushEvent where
  "zero_push =
     \<lparr>pe_Ref = '''', pe_After = '''',
      pe_Repository = \<lparr>gr_FullName = '''', gr_Fork = False, gr_DefaultBranch = '''', gr_CloneURL = ''''\<rparr>,
      pe_Pusher = \<lparr>gp_Name = ''''\<rparr>, pe_HeadCommit = None, pe_Commits = None\<rparr>"

definition decode_repo :: "GitHubRepo decoder" where
  "decode_repo = decode_struct
     [(''full_name'', \<lambda>v r. case decode_string v (gr_FullName r) of (s, ok) \<Rightarrow> (r\<lparr>gr_FullName := s\<rparr>, ok)),
      (''fork'', \<lambda>v r. case decode_bool v (gr_Fork r) of (b, ok) \<Rightarrow> (r\<lparr>gr_Fork := b\<rparr>, ok)),
      (''default_branch'', \<lambda>v r. case decode_string v (gr_DefaultBranch r) of (s, ok) \<Rightarrow> (r\<lparr>gr_DefaultBranch := s\<rparr>, ok)),
      (''clone_url'', \<lambda>v r. case decode_string v (gr_CloneURL r) of (s, ok) \<Rightarrow> (r\<lparr>gr_CloneURL := s\<rparr>, ok))]"

definition decode_pusher :: "GitHubPusher decoder" where
  "decode_pusher = decode_struct
     [(''name'', \<lambda>v p. case decode_string v (gp_Name p) of (s, ok) \<Rightarrow> (p\<lparr>gp_Name := s\<rparr>, ok))]"

definition decode_paths :: "string slice decoder" where
  "decode_paths = decode_slice decode_string ''''"

definition decode_commit :: "GitHubCommit decoder" where
  "decode_commit = decode_struct
     [(''id'', \<lambda>v c. case decode_string v (gc_ID c) of (s, ok) \<Rightarrow> (c\<lparr>gc_ID := s\<rparr>, ok)),
      (''message'', \<lambda>v c. case decode_string v (gc_Message c) of (s, ok) \<Rightarrow> (c\<lparr>gc_Message := s\<rparr>, ok)),
      (''added'', \<lambda>v c. case decode_paths v (gc_Added c) of (x, ok) \<Rightarrow> (c\<lparr>gc_Added := x\<rparr>, ok)),
      (''removed'', \<lambda>v c. case decode_paths v (gc_Removed c) of (x, ok) \<Rightarrow> (c\<lparr>gc_Removed := x\<rparr>, ok)),
      (''modified'', \<lambda>v c. case decode_paths v (gc_Modified c) of (x, ok) \<Rightarrow> (c\<lparr>gc_Modified := x\<rparr>, ok))]"

definition decode_push :: "PushEvent decoder" where
  "decode_push = decode_struct
     [(''ref'', \<lambda>v p. case decode_string v (pe_Ref p) of (s, ok) \<Rightarrow> (p\<lparr>pe_Ref := s\<rparr>, ok)),
      (''after'', \<lambda>v p. case decode_string v (pe_After p) of (s, ok) \<Rightarrow> (p\<lparr>pe_After := s\<rparr>, ok)),
      (''repository'', \<lambda>v p. case decode_repo v (pe_Repository p) of (r, ok) \<Rightarrow> (p\<lparr>pe_Repository := r\<rparr>, ok)),
      (''pusher'', \<lambda>v p. case decode_pusher v (pe_Pusher p) of (r, ok) \<Rightarrow> (p\<lparr>pe_Pusher := r\<rparr>, ok)),
      (''head_commit'', \<lambda>v p. case decode_pointer decode_commit zero_commit v (pe_HeadCommit p) of
         (c, ok) \<Rightarrow> (p\<lparr>pe_HeadCommit := c\<rparr>, ok)),
      (''commits'', \<lambda>v p. case decode_slice decode_commit zero_commit v (pe_Commits p) of
         (cs, ok) \<Rightarrow> (p\<lparr>pe_Commits := cs\<rparr>, ok))]"

subsection \<open>Dependencies\<close>

record 'p workflowpattern =
  CompilePatterns :: "string list \<Rightarrow> (string + 'p)"
  Skip :: "'p \<Rightarrow> string list \<Rightarrow> bool"
  Filter :: "'p \<Rightarrow> string list \<Rightarrow> bool"

record 'p GitHubWebhookDeps =
  gd_Secret :: string
  gd_AllowRepo :: string
  gd_ListWorkflows :: "string \<Rightarrow> string \<Rightarrow> (client_error + string list)"
  gd_FetchWorkflow :: "string \<Rightarrow> string \<Rightarrow> string \<Rightarrow> (client_error + bytes)"
  gd_act :: act
  gd_env :: env
  gd_patterns :: "'p workflowpattern"
  gd_Notifier :: bool
  gd_CommitStatus :: bool
  gd_uuid_string :: "uuid \<Rightarrow> string"

subsection \<open>Signature\<close>

definition Verify :: "string \<Rightarrow> bytes \<Rightarrow> bytes \<Rightarrow> bool" where
  "Verify sig body secret =
     (if length secret = 0 then False
      else if \<not> HasPrefix sig ''sha256='' then False
      else case hex_DecodeString (drop (length ''sha256='') sig) of
             None \<Rightarrow> False
           | Some sigBytes \<Rightarrow> sigBytes = hmac_sha256 secret body)"

subsection \<open>Gate, branches and changed files\<close>

text \<open>\<open>Some reason\<close> when the push is gated.\<close>

definition githubGateReason :: "PushEvent \<Rightarrow> string \<Rightarrow> string option" where
  "githubGateReason push allowRepo =
     (if gr_Fork (pe_Repository push) then Some ''repository is a fork''
      else if allowRepo = '''' then Some ''no allow-listed repo configured''
      else if gr_FullName (pe_Repository push) \<noteq> allowRepo
           then Some (''repo '' @ Quote (gr_FullName (pe_Repository push)) @ '' is not the allow-listed repo'')
      else None)"

definition BuildEventJSON :: "string \<Rightarrow> bytes \<Rightarrow> bytes option" where
  "BuildEventJSON eventName rawPayload =
     (if length rawPayload = 0 then None else if json_parse rawPayload = None then None else Some rawPayload)"

text \<open>The closure \<open>add\<close>: the paths not seen before are appended.\<close>

definition add_paths :: "string list \<Rightarrow> string list \<Rightarrow> string list" where
  "add_paths paths out = foldl (\<lambda>out p. if p \<in> set out then out else out @ [p]) out paths"

definition add_commit :: "string list \<Rightarrow> GitHubCommit \<Rightarrow> string list" where
  "add_commit out c =
     add_paths (elems (gc_Removed c)) (add_paths (elems (gc_Modified c)) (add_paths (elems (gc_Added c)) out))"

definition changedFiles :: "PushEvent \<Rightarrow> string list" where
  "changedFiles push =
     (let out = foldl add_commit [] (elems (pe_Commits push)) in
      case pe_HeadCommit push of None \<Rightarrow> out | Some c \<Rightarrow> add_commit out c)"

definition shortBranch :: "string \<Rightarrow> string" where
  "shortBranch ref = (if HasPrefix ref ''refs/heads/'' then drop (length ''refs/heads/'') ref else '''')"

definition shortGitSHA :: "string \<Rightarrow> string" where
  "shortGitSHA sha = (if length sha > 7 then take 7 sha else sha)"

fun hasGitHubEvent :: "string list \<Rightarrow> string \<Rightarrow> bool" where
  "hasGitHubEvent [] eventName = False"
| "hasGitHubEvent (e # events) eventName = (if e = eventName then True else hasGitHubEvent events eventName)"

subsection \<open>Filters\<close>

fun toGitHubPatternList :: "yaml \<Rightarrow> string list" where
  "toGitHubPatternList YNull = []"
| "toGitHubPatternList (YStr s) = [s]"
| "toGitHubPatternList (YSeq vs) = concat (map (\<lambda>v. case v of YStr s \<Rightarrow> [s] | _ \<Rightarrow> []) vs)"
| "toGitHubPatternList _ = []"

text \<open>Reading a key of the mapping; a missing one is nil.\<close>

definition on_get :: "(string \<times> yaml) list \<Rightarrow> string \<Rightarrow> yaml" where
  "on_get m k = (case map_of m k of None \<Rightarrow> YNull | Some v \<Rightarrow> v)"

text \<open>
  Why a list of patterns drops a workflow: it does not compile (with the error as reason), or
  \<open>Skip\<close> or \<open>Filter\<close> says so. An empty list drops nothing.
\<close>

definition list_reason ::
    "'p workflowpattern \<Rightarrow> ('p \<Rightarrow> string list \<Rightarrow> bool) \<Rightarrow> string \<Rightarrow> string \<Rightarrow> string list \<Rightarrow> string list \<Rightarrow> string option" where
  "list_reason W drops key msg pats inputs =
     (if length pats = 0 then None
      else case CompilePatterns W pats of
             Inl err \<Rightarrow> Some (''invalid on.push.'' @ key @ '' pattern: '' @ err)
           | Inr patterns \<Rightarrow> if drops patterns inputs then Some msg else None)"

definition passesFilters :: "'p workflowpattern \<Rightarrow> yaml \<Rightarrow> string \<Rightarrow> string list \<Rightarrow> bool \<times> string" where
  "passesFilters W on branch files =
     (case on of
        YMap m \<Rightarrow>
          let branches = toGitHubPatternList (on_get m ''branches'');
              branchesIgnore = toGitHubPatternList (on_get m ''branches-ignore'');
              paths = toGitHubPatternList (on_get m ''paths'');
              pathsIgnore = toGitHubPatternList (on_get m ''paths-ignore'')
          in if length branches > 0 \<and> branch = ''''
             then (False, ''ref is not a branch but workflow restricts on.push.branches'')
             else case list_reason W (Skip W) ''branches'' (''branch '' @ Quote branch @ '' does not match on.push.branches'')
                         branches [branch] of
               Some reason \<Rightarrow> (False, reason)
             | None \<Rightarrow>
            (case (if branch \<noteq> '''' then
                     list_reason W (Filter W) ''branches-ignore'' (''branch '' @ Quote branch @ '' excluded by on.push.branches-ignore'')
                       branchesIgnore [branch]
                   else None) of
               Some reason \<Rightarrow> (False, reason)
             | None \<Rightarrow>
            (case list_reason W (Skip W) ''paths'' ''no changed file matches on.push.paths'' paths files of
               Some reason \<Rightarrow> (False, reason)
             | None \<Rightarrow>
            (case list_reason W (Filter W) ''paths-ignore'' ''all changed files excluded by on.push.paths-ignore'' pathsIgnore files of
               Some reason \<Rightarrow> (False, reason)
             | None \<Rightarrow> (True, ''''))))
      | _ \<Rightarrow> (True, ''''))"

subsection \<open>Handler\<close>

definition planGitHubPushWorkflow ::
    "'p GitHubWebhookDeps \<Rightarrow> string \<Rightarrow> string \<Rightarrow> string \<Rightarrow> string list \<Rightarrow> string \<Rightarrow> PushEvent \<Rightarrow> bytes \<Rightarrow> (world, string option) state" where
  "planGitHubPushWorkflow D repo sha branch files path push rawBody =
     (case gd_FetchWorkflow D repo sha path of
        Inl e \<Rightarrow> ret None
      | Inr yamlBytes \<Rightarrow>
     (case ReadWorkflow (gd_act D) yamlBytes of
        None \<Rightarrow> ret None
      | Some wfl \<Rightarrow>
          if \<not> hasGitHubEvent (wf_On wfl) ''push'' then ret None
          else if \<not> fst (passesFilters (gd_patterns D) (wf_OnEvent wfl ''push'') branch files) then ret None
          else do {
            r \<leftarrow> Plan (gd_act D) (gd_env D)
                   \<lparr>pi_Repo = repo, pi_Ref = pe_Ref push, pi_SHA = sha, pi_EventName = ''push'',
                    pi_EventPayload = Some rawBody, pi_TriggeredBy = gp_Name (pe_Pusher push),
                    pi_WorkflowYAML = yamlBytes\<rparr>;
            case r of
              Inl e \<Rightarrow> ret None
            | Inr result \<Rightarrow> do {
                (if gd_Notifier D then Notify else ret ());
                (if gd_CommitStatus D then post_status repo sha ''pending'' ''Drassi: run queued'' else ret ());
                ret (Some (gd_uuid_string D (pr_RunID result)))
              }
          }))"

fun plan_paths ::
    "'p GitHubWebhookDeps \<Rightarrow> string \<Rightarrow> string \<Rightarrow> string \<Rightarrow> string list \<Rightarrow> string list \<Rightarrow> PushEvent \<Rightarrow> bytes \<Rightarrow> string list \<Rightarrow>
       (world, string list) state" where
  "plan_paths D repo sha branch files [] push body runIDs = ret runIDs"
| "plan_paths D repo sha branch files (path # paths) push body runIDs = do {
     r \<leftarrow> planGitHubPushWorkflow D repo sha branch files path push body;
     plan_paths D repo sha branch files paths push body (case r of None \<Rightarrow> runIDs | Some runID \<Rightarrow> runIDs @ [runID])
   }"

definition ignored :: "string \<Rightarrow> Reply" where
  "ignored reason = write_json 202 (string_object [(''ignored'', reason)])"

definition error_reply :: "int \<Rightarrow> string \<Rightarrow> Reply" where
  "error_reply status msg = write_json status (string_object [(''error'', msg)])"

definition githubWebhookHandler :: "'p GitHubWebhookDeps \<Rightarrow> HttpRequest \<Rightarrow> (world, Reply) state" where
  "githubWebhookHandler D req =
     (case read_max maxGitHubWebhookBody req of
        None \<Rightarrow> ret (error_reply 400 ''failed to read body'')
      | Some body \<Rightarrow>
          if \<not> Verify (param_get (hr_Header req) ''X-Hub-Signature-256'') body (gd_Secret D)
          then ret (error_reply 401 ''invalid signature'')
          else let event = param_get (hr_Header req) ''X-GitHub-Event'' in
          if event \<noteq> ''push'' then ret (ignored (''event '' @ Quote event @ '' not handled''))
          else case Unmarshal decode_push zero_push body of
            None \<Rightarrow> ret (error_reply 400 ''invalid push payload'')
          | Some push \<Rightarrow>
              (case githubGateReason push (gd_AllowRepo D) of
                 Some reason \<Rightarrow> ret (ignored reason)
               | None \<Rightarrow>
                   if pe_After push = '''' then ret (error_reply 400 ''missing after sha'')
                   else let repo = gr_FullName (pe_Repository push); sha = pe_After push in
                   case gd_ListWorkflows D repo sha of
                     Inl e \<Rightarrow> ret (ignored ''failed to list workflows'')
                   | Inr workflowPaths \<Rightarrow> do {
                       runIDs \<leftarrow> plan_paths D repo sha (shortBranch (pe_Ref push)) (changedFiles push) workflowPaths push body [];
                       if length runIDs = 0 then ret (ignored ''no workflow matched this push'')
                       else ret (write_json 202 (JObject [(''run_ids'', JArray (map JString runIDs))]))
                     }))"

subsection \<open>Changed files\<close>

lemma add_paths_set: "set (add_paths ps out) = set out \<union> set ps"
  by (induction ps arbitrary: out) (auto simp: add_paths_def)

lemma add_paths_distinct: "distinct out \<Longrightarrow> distinct (add_paths ps out)"
  by (induction ps arbitrary: out) (auto simp: add_paths_def)

definition commit_paths :: "GitHubCommit \<Rightarrow> string set" where
  "commit_paths c = set (elems (gc_Added c)) \<union> set (elems (gc_Modified c)) \<union> set (elems (gc_Removed c))"

lemma add_commit_laws: "set (add_commit out c) = set out \<union> commit_paths c" "distinct out \<Longrightarrow> distinct (add_commit out c)"
  by (auto simp: add_commit_def add_paths_set add_paths_distinct commit_paths_def)

lemma add_commits_laws:
  "set (foldl add_commit out cs) = set out \<union> (\<Union>c\<in>set cs. commit_paths c)"
  "distinct out \<Longrightarrow> distinct (foldl add_commit out cs)"
  by (induction cs arbitrary: out) (auto simp: add_commit_laws)

text \<open>
  The changed files of a push are the paths added, modified or removed by any of its
  commits or by its head commit, each listed once.
\<close>

theorem changedFiles_union:
  "distinct (changedFiles push) \<and>
   set (changedFiles push) = (\<Union>c\<in>set (elems (pe_Commits push)) \<union> set_option (pe_HeadCommit push). commit_paths c)"
  by (cases "pe_HeadCommit push") (auto simp: changedFiles_def add_commits_laws add_commit_laws)

subsection \<open>Signatures\<close>

text \<open>
  C34: a signature is accepted exactly when a secret is configured and the text behind
  \<open>sha256=\<close> is, up to the case of its letters, the hexadecimal HMAC of the body.
\<close>

theorem Verify_iff:
  "Verify sig body secret \<longleftrightarrow>
     secret \<noteq> [] \<and> (\<exists>h. sig = ''sha256='' @ h \<and> map lower_hex h = hex_EncodeToString (hmac_sha256 secret body))"
proof (cases "prefix ''sha256='' sig")
  case True
  then obtain h where h: "sig = ''sha256='' @ h" by (auto elim: prefixE)
  have "Verify sig body secret \<longleftrightarrow> secret \<noteq> [] \<and> hex_DecodeString h = Some (hmac_sha256 secret body)"
    using h by (auto simp: Verify_def HasPrefix_def split: option.splits)
  with h show ?thesis by (auto simp: hex_DecodeString_iff)
next
  case False
  then show ?thesis by (auto simp: Verify_def HasPrefix_def)
qed

subsection \<open>What a delivery may do\<close>

text \<open>A delivery the handler acts on: signed, a push, of the allow-listed repository.\<close>

definition accepted_push :: "'p GitHubWebhookDeps \<Rightarrow> HttpRequest \<Rightarrow> PushEvent \<Rightarrow> bool" where
  "accepted_push D req push \<longleftrightarrow>
     Verify (param_get (hr_Header req) ''X-Hub-Signature-256'') (hr_Body req) (gd_Secret D) \<and>
     param_get (hr_Header req) ''X-GitHub-Event'' = ''push'' \<and>
     Unmarshal decode_push zero_push (hr_Body req) = Some push \<and>
     \<not> gr_Fork (pe_Repository push) \<and> gd_AllowRepo D \<noteq> [] \<and> gr_FullName (pe_Repository push) = gd_AllowRepo D \<and>
     pe_After push \<noteq> [] \<and> length (hr_Body req) \<le> maxGitHubWebhookBody \<and> \<not> hr_BodyBroken req"

lemma githubGateReason_None:
  "githubGateReason push allow = None \<longleftrightarrow> \<not> gr_Fork (pe_Repository push) \<and> allow \<noteq> [] \<and> gr_FullName (pe_Repository push) = allow"
  by (auto simp: githubGateReason_def)

lemma handler_cases:
  obtains (rejected) reply where "\<forall>push. \<not> accepted_push D req push" "githubWebhookHandler D req = ret reply"
      "rp_Status reply \<in> {202, 400, 401}"
    | (unlisted) push e where "accepted_push D req push" "gd_ListWorkflows D (gd_AllowRepo D) (pe_After push) = Inl e"
      "githubWebhookHandler D req = ret (ignored ''failed to list workflows'')"
    | (planned) push paths where "accepted_push D req push" "gd_ListWorkflows D (gd_AllowRepo D) (pe_After push) = Inr paths"
      "githubWebhookHandler D req = do {
         runIDs \<leftarrow> plan_paths D (gd_AllowRepo D) (pe_After push) (shortBranch (pe_Ref push)) (changedFiles push) paths push (hr_Body req) [];
         if length runIDs = 0 then ret (ignored ''no workflow matched this push'')
         else ret (write_json 202 (JObject [(''run_ids'', JArray (map JString runIDs))]))
       }"
proof (cases "\<exists>push. accepted_push D req push")
  case True
  then obtain push where p: "accepted_push D req push" by blast
  then have n: "githubGateReason push (gd_AllowRepo D) = None" by (simp add: accepted_push_def githubGateReason_None)
  show thesis
  proof (cases "gd_ListWorkflows D (gd_AllowRepo D) (pe_After push)")
    case (Inl e)
    with p n show thesis
      by (intro unlisted) (auto simp: githubWebhookHandler_def accepted_push_def read_max_def)
  next
    case (Inr paths)
    with p n show thesis
      by (intro planned) (auto simp: githubWebhookHandler_def accepted_push_def read_max_def Let_def)
  qed
next
  case False
  have reply: "\<exists>reply. githubWebhookHandler D req = ret reply \<and> rp_Status reply \<in> {202, 400, 401}"
  proof (cases "read_max maxGitHubWebhookBody req")
    case None
    then show ?thesis by (auto simp: githubWebhookHandler_def error_reply_def)
  next
    case (Some body)
    then have body: "body = hr_Body req" "length body \<le> maxGitHubWebhookBody" "\<not> hr_BodyBroken req"
      by (auto simp: read_max_def split: if_splits)
    consider "\<not> Verify (param_get (hr_Header req) ''X-Hub-Signature-256'') body (gd_Secret D)"
      | "Verify (param_get (hr_Header req) ''X-Hub-Signature-256'') body (gd_Secret D)"
        "param_get (hr_Header req) ''X-GitHub-Event'' \<noteq> ''push''"
      | "Verify (param_get (hr_Header req) ''X-Hub-Signature-256'') body (gd_Secret D)"
        "param_get (hr_Header req) ''X-GitHub-Event'' = ''push''" by blast
    then show ?thesis
    proof cases
      case 1
      with Some show ?thesis by (auto simp: githubWebhookHandler_def error_reply_def)
    next
      case 2
      with Some show ?thesis by (auto simp: githubWebhookHandler_def ignored_def)
    next
      case 3
      show ?thesis
      proof (cases "Unmarshal decode_push zero_push body")
        case None
        with 3 Some show ?thesis by (auto simp: githubWebhookHandler_def error_reply_def)
      next
        case (Some push)
        have "githubGateReason push (gd_AllowRepo D) = None \<longrightarrow> pe_After push = []"
          using False 3 Some body by (auto simp: accepted_push_def githubGateReason_None)
        with 3 Some \<open>read_max _ req = _\<close> show ?thesis
          by (cases "githubGateReason push (gd_AllowRepo D)")
            (auto simp: githubWebhookHandler_def error_reply_def ignored_def)
      qed
    qed
  qed
  show thesis using reply False rejected by blast
qed

text \<open>
  C20: only an accepted push has an effect. A delivery that is not signed with the secret, is
  no push, comes from a fork, names another repository than the configured one (or none is
  configured), is malformed or too long is answered with 202, 400 or 401 and leaves database,
  notifier and everything else of the process as they are.
\<close>

theorem unaccepted_delivery_has_no_effect:
  "(\<exists>push. accepted_push D req push) \<or>
   (\<exists>reply. run_state (githubWebhookHandler D req) w = (reply, w) \<and> rp_Status reply \<in> {202, 400, 401})"
  by (rule handler_cases [of D req]) auto

subsection \<open>The runs of a delivery\<close>

text \<open>The workflow at \<open>path\<close> is triggered by the push, with text \<open>yaml\<close>.\<close>

definition triggered :: "'p GitHubWebhookDeps \<Rightarrow> PushEvent \<Rightarrow> string \<Rightarrow> bytes \<Rightarrow> bool" where
  "triggered D push path yaml \<longleftrightarrow>
     gd_FetchWorkflow D (gd_AllowRepo D) (pe_After push) path = Inr yaml \<and>
     (\<exists>wfl. ReadWorkflow (gd_act D) yaml = Some wfl \<and> ''push'' \<in> set (wf_On wfl) \<and>
        fst (passesFilters (gd_patterns D) (wf_OnEvent wfl ''push'') (shortBranch (pe_Ref push)) (changedFiles push)))"

definition push_origin :: "'p GitHubWebhookDeps \<Rightarrow> PushEvent \<Rightarrow> bytes \<Rightarrow> string \<times> string \<times> string \<times> string \<times> string \<times> string" where
  "push_origin D push yaml =
     (gd_AllowRepo D, pe_Ref push, pe_After push, ''push'', gp_Name (pe_Pusher push), yaml)"

lemma hasGitHubEvent_iff: "hasGitHubEvent es e \<longleftrightarrow> e \<in> set es"
  by (induction es) auto

lemma origins_memory [simp]:
  "origins (snd (run_state Notify w)) = origins w" "origins (snd (run_state (post_status a b c d) w)) = origins w"
  by (simp_all add: Notify_def post_status_def origins_def)

lemma planGitHubPushWorkflow_origins:
  fixes D :: "'p GitHubWebhookDeps"
  assumes "solo (gd_env D)"
  shows "\<exists>new. origins (snd (run_state (planGitHubPushWorkflow D (gd_AllowRepo D) (pe_After push) (shortBranch (pe_Ref push))
      (changedFiles push) path push body) w)) = origins w @ new \<and>
    (new = [] \<or> (\<exists>yaml. triggered D push path yaml \<and> new = [push_origin D push yaml]))"
proof -
  let ?act = "planGitHubPushWorkflow D (gd_AllowRepo D) (pe_After push) (shortBranch (pe_Ref push)) (changedFiles push) path push body"
  show ?thesis
  proof (cases "\<exists>yaml. triggered D push path yaml")
    case False
    then have "?act = ret None"
      by (auto simp: planGitHubPushWorkflow_def triggered_def hasGitHubEvent_iff split: sum.splits option.splits)
    then show ?thesis by simp
  next
    case True
    then obtain yaml wfl where y: "triggered D push path yaml" "ReadWorkflow (gd_act D) yaml = Some wfl"
      by (auto simp: triggered_def)
    let ?inp = "\<lparr>pi_Repo = gd_AllowRepo D, pi_Ref = pe_Ref push, pi_SHA = pe_After push, pi_EventName = ''push'',
       pi_EventPayload = Some body, pi_TriggeredBy = gp_Name (pe_Pusher push), pi_WorkflowYAML = yaml\<rparr>"
    obtain r w1 where r: "run_state (Plan (gd_act D) (gd_env D) ?inp) w = (r, w1)"
      by (cases "run_state (Plan (gd_act D) (gd_env D) ?inp) w")
    have "origins (snd (run_state ?act w)) = origins w1"
      using y r by (cases r) (auto simp: planGitHubPushWorkflow_def triggered_def hasGitHubEvent_iff split_beta)
    moreover have "input_origin ?inp = push_origin D push yaml" by (simp add: input_origin_def push_origin_def)
    ultimately show ?thesis using Plan_origins [OF assms(1), of "gd_act D" ?inp w] r y by auto
  qed
qed

lemma plan_paths_origins:
  fixes D :: "'p GitHubWebhookDeps"
  assumes "solo (gd_env D)"
  shows "\<exists>planned new. origins (snd (run_state (plan_paths D (gd_AllowRepo D) (pe_After push) (shortBranch (pe_Ref push))
      (changedFiles push) paths push body ids) w)) = origins w @ new \<and> subseq planned paths \<and>
    list_all2 (\<lambda>path x. \<exists>yaml. triggered D push path yaml \<and> x = push_origin D push yaml) planned new"
proof (induction paths arbitrary: ids w)
  case Nil
  show ?case by (intro exI [of _ "[]"]) simp
next
  case (Cons path paths)
  let ?ok = "\<lambda>path x. \<exists>yaml. triggered D push path yaml \<and> x = push_origin D push yaml"
  obtain r w1 where r: "run_state (planGitHubPushWorkflow D (gd_AllowRepo D) (pe_After push) (shortBranch (pe_Ref push))
      (changedFiles push) path push body) w = (r, w1)" by fastforce
  with planGitHubPushWorkflow_origins [OF assms, of push path body w] obtain n1 where
    n1: "origins w1 = origins w @ n1" "n1 = [] \<or> (\<exists>yaml. triggered D push path yaml \<and> n1 = [push_origin D push yaml])" by auto
  from Cons.IH [of "case r of None \<Rightarrow> ids | Some runID \<Rightarrow> ids @ [runID]" w1] obtain ps n2 where
    n2: "origins (snd (run_state (plan_paths D (gd_AllowRepo D) (pe_After push) (shortBranch (pe_Ref push)) (changedFiles push)
      paths push body (case r of None \<Rightarrow> ids | Some runID \<Rightarrow> ids @ [runID])) w1)) = origins w1 @ n2"
    "subseq ps paths" "list_all2 ?ok ps n2" by blast
  let ?ps = "(if n1 = [] then [] else [path]) @ ps"
  have "subseq ?ps (path # paths)" using n2(2) by auto
  moreover have "list_all2 ?ok ?ps (n1 @ n2)" using n1(2) n2(3) by auto
  ultimately show ?case
    by (intro exI [of _ ?ps] exI [of _ "n1 @ n2"]) (use r n1(1) n2(1) in \<open>simp add: split_beta\<close>)
qed

text \<open>
  C13: every run a delivery creates, alone on the database, is of the allow-listed repository,
  at the pushed commit, for the event push, and carries the verbatim text of a listed workflow
  file whose \<open>on:\<close> names push and whose filters pass. The new runs belong, one by one and in
  this order, to different entries of the list of files, so that no file is planned twice; and
  there is none unless the delivery is accepted.
\<close>

theorem webhook_runs_are_trusted:
  fixes D :: "'p GitHubWebhookDeps"
  assumes "solo (gd_env D)" and "run_state (githubWebhookHandler D req) w = (reply, w')" and "origins w' \<noteq> origins w"
  shows "\<exists>push paths planned new. accepted_push D req push \<and>
    gd_ListWorkflows D (gd_AllowRepo D) (pe_After push) = Inr paths \<and> subseq planned paths \<and>
    origins w' = origins w @ new \<and>
    list_all2 (\<lambda>path x. \<exists>yaml. triggered D push path yaml \<and>
       x = (gd_AllowRepo D, pe_Ref push, pe_After push, ''push'', gp_Name (pe_Pusher push), yaml)) planned new"
proof (rule handler_cases [of D req])
  fix push paths
  assume p: "accepted_push D req push" "gd_ListWorkflows D (gd_AllowRepo D) (pe_After push) = Inr paths"
    and h: "githubWebhookHandler D req = do {
         runIDs \<leftarrow> plan_paths D (gd_AllowRepo D) (pe_After push) (shortBranch (pe_Ref push)) (changedFiles push) paths push (hr_Body req) [];
         if length runIDs = 0 then ret (ignored ''no workflow matched this push'')
         else ret (write_json 202 (JObject [(''run_ids'', JArray (map JString runIDs))]))
       }"
  have "w' = snd (run_state (plan_paths D (gd_AllowRepo D) (pe_After push) (shortBranch (pe_Ref push)) (changedFiles push)
      paths push (hr_Body req) []) w)"
    using assms(2) h by (auto simp: split_beta split: if_splits)
  with p plan_paths_origins [OF assms(1), of push paths "hr_Body req" "[]" w] show ?thesis
    unfolding push_origin_def by blast
qed (use assms in auto)

subsection \<open>What every relation of the stores gives\<close>

context store_rel
begin

lemma guar_post_status: "guar (post_status repo sha st description)"
  unfolding post_status_def by (rule guar_memory) simp

lemma guar_planGitHubPushWorkflow:
  "rely (gd_env D) \<Longrightarrow> guar (planGitHubPushWorkflow D repo sha branch files path push body)"
  unfolding planGitHubPushWorkflow_def
  by (intro guar_rules guar_Plan guar_Notify guar_post_status) 

lemma guar_plan_paths: "rely (gd_env D) \<Longrightarrow> guar (plan_paths D repo sha branch files paths push body ids)"
  by (induction paths arbitrary: ids) (auto intro!: guar_rules guar_planGitHubPushWorkflow)

lemma guar_githubWebhookHandler: "rely (gd_env D) \<Longrightarrow> guar (githubWebhookHandler D req)"
  unfolding githubWebhookHandler_def by (intro guar_rules guar_plan_paths)

end

subsection \<open>A concrete delivery\<close>

definition sample_push_body :: bytes where
  "sample_push_body = Marshal (JObject
     [(''ref'', JString ''refs/heads/main''), (''after'', JString ''abc''),
      (''repository'', JObject [(''full_name'', JString ''acme/app'')])])"

definition sample_hook :: "unit GitHubWebhookDeps" where
  "sample_hook =
     \<lparr>gd_Secret = ''k'', gd_AllowRepo = ''acme/app'', gd_ListWorkflows = \<lambda>_ _. Inr [''ci.yml''],
      gd_FetchWorkflow = \<lambda>_ _ _. Inr ''on: push'', gd_act = sample_act, gd_env = sample_env,
      gd_patterns = \<lparr>CompilePatterns = \<lambda>_. Inr (), Skip = \<lambda>_ _. False, Filter = \<lambda>_ _. False\<rparr>,
      gd_Notifier = True, gd_CommitStatus = True, gd_uuid_string = \<lambda>_. ''id''\<rparr>"

definition sample_delivery :: HttpRequest where
  "sample_delivery =
     \<lparr>hr_Header = [(''X-Hub-Signature-256'', ''sha256='' @ hex_EncodeToString (hmac_sha256 ''k'' sample_push_body)),
        (''X-GitHub-Event'', ''push'')],
      hr_Query = [], hr_Param = [], hr_Body = sample_push_body, hr_BodyBroken = False\<rparr>"

lemma coerce_sample:
  "coerce_utf8 ''ref'' = ''ref''" "coerce_utf8 ''after'' = ''after''" "coerce_utf8 ''repository'' = ''repository''"
  "coerce_utf8 ''full_name'' = ''full_name''" "coerce_utf8 ''refs/heads/main'' = ''refs/heads/main''"
  "coerce_utf8 ''abc'' = ''abc''" "coerce_utf8 ''acme/app'' = ''acme/app''"
  by (rule coerce_ascii, simp add: char_code_def)+

lemma sample_push_decoded:
  "Unmarshal decode_push zero_push sample_push_body =
     Some (zero_push\<lparr>pe_Ref := ''refs/heads/main'', pe_After := ''abc'',
       pe_Repository := (pe_Repository zero_push)\<lparr>gr_FullName := ''acme/app''\<rparr>\<rparr>)"
proof -
  have "json_parse sample_push_body = Some (JObject
     [(''ref'', JString ''refs/heads/main''), (''after'', JString ''abc''),
      (''repository'', JObject [(''full_name'', JString ''acme/app'')])])"
    unfolding sample_push_body_def
    by (subst json_parse_Marshal) (simp_all add: maxNestingDepth_def coerce_sample)
  then show ?thesis
    by (simp add: Unmarshal_def decode_push_def decode_repo_def decode_struct_def find_field_def decode_string_def)
qed

lemma lower_hex_digits: "map lower_hex (hex_EncodeToString bs) = hex_EncodeToString bs"
  using hex_decode_encode [of bs] by (simp add: hex_DecodeString_iff)

lemma sample_body_short: "length sample_push_body \<le> maxGitHubWebhookBody"
  by (simp add: sample_push_body_def quote_plain plain_text_def char_code_def maxGitHubWebhookBody_def)

lemma sample_planned:
  "case run_state (Plan sample_act sample_env
      \<lparr>pi_Repo = ''acme/app'', pi_Ref = ''refs/heads/main'', pi_SHA = ''abc'', pi_EventName = ''push'',
       pi_EventPayload = Some p, pi_TriggeredBy = '''', pi_WorkflowYAML = ''on: push''\<rparr>) (world_with (db_with [])) of
      (r, w') \<Rightarrow> origins w' = [run_origin sample_run, (''acme/app'', ''refs/heads/main'', ''abc'', ''push'', '''', ''on: push'')]"
  by code_simp

lemma sample_triggers:
  "planGitHubPushWorkflow sample_hook ''acme/app'' ''abc'' branch files path
     (zero_push\<lparr>pe_Ref := ''refs/heads/main'', pe_After := ''abc'', pe_Repository := r\<rparr>) body = do {
       r \<leftarrow> Plan sample_act sample_env
         \<lparr>pi_Repo = ''acme/app'', pi_Ref = ''refs/heads/main'', pi_SHA = ''abc'', pi_EventName = ''push'',
          pi_EventPayload = Some body, pi_TriggeredBy = '''', pi_WorkflowYAML = ''on: push''\<rparr>;
       case r of
         Inl e \<Rightarrow> ret None
       | Inr result \<Rightarrow> do {
           Notify;
           post_status ''acme/app'' ''abc'' ''pending'' ''Drassi: run queued'';
           ret (Some ''id'')
         }
     }"
  by (simp add: planGitHubPushWorkflow_def sample_hook_def sample_act_def passesFilters_def zero_push_def)

lemma sample_delivery_origins:
  "origins (snd (run_state (githubWebhookHandler sample_hook sample_delivery) (world_with (db_with [])))) =
     [run_origin sample_run, (''acme/app'', ''refs/heads/main'', ''abc'', ''push'', '''', ''on: push'')]"
proof -
  let ?w = "world_with (db_with [])"
  let ?push = "zero_push\<lparr>pe_Ref := ''refs/heads/main'', pe_After := ''abc'',
       pe_Repository := (pe_Repository zero_push)\<lparr>gr_FullName := ''acme/app''\<rparr>\<rparr>"
  have "Verify (param_get (hr_Header sample_delivery) ''X-Hub-Signature-256'') sample_push_body ''k''"
    using lower_hex_digits by (auto simp: Verify_iff sample_delivery_def param_get_def)
  moreover have "githubGateReason ?push ''acme/app'' = None" by (simp add: githubGateReason_None zero_push_def)
  ultimately have "githubWebhookHandler sample_hook sample_delivery = do {
       runIDs \<leftarrow> plan_paths sample_hook ''acme/app'' ''abc'' (shortBranch ''refs/heads/main'') (changedFiles ?push) [''ci.yml''] ?push sample_push_body [];
       if length runIDs = 0 then ret (ignored ''no workflow matched this push'')
       else ret (write_json 202 (JObject [(''run_ids'', JArray (map JString runIDs))]))
     }"
    using sample_body_short sample_push_decoded
    by (simp add: githubWebhookHandler_def read_max_def Let_def)
      (simp add: sample_delivery_def sample_hook_def param_get_def)
  moreover obtain r w' where "run_state (Plan sample_act sample_env
      \<lparr>pi_Repo = ''acme/app'', pi_Ref = ''refs/heads/main'', pi_SHA = ''abc'', pi_EventName = ''push'',
       pi_EventPayload = Some sample_push_body, pi_TriggeredBy = '''', pi_WorkflowYAML = ''on: push''\<rparr>) ?w = (r, w')"
    by fastforce
  moreover from this have "origins w' = [run_origin sample_run, (''acme/app'', ''refs/heads/main'', ''abc'', ''push'', '''', ''on: push'')]"
    using sample_planned [of sample_push_body] by simp
  ultimately show ?thesis
    by (cases r) (auto simp: sample_triggers split_beta)
qed

theorem webhook_runs_are_trusted_witness:
  "\<exists>push. accepted_push sample_hook sample_delivery push \<and>
     (\<exists>reply w'. run_state (githubWebhookHandler sample_hook sample_delivery) (world_with (db_with [])) = (reply, w') \<and>
        (''acme/app'', ''refs/heads/main'', ''abc'', ''push'', '''', ''on: push'') \<in> set (origins w'))"
proof -
  let ?w = "world_with (db_with [])"
  obtain reply w' where run: "run_state (githubWebhookHandler sample_hook sample_delivery) ?w = (reply, w')" by fastforce
  have w': "origins w' = [run_origin sample_run, (''acme/app'', ''refs/heads/main'', ''abc'', ''push'', '''', ''on: push'')]"
    using sample_delivery_origins run by simp
  moreover have "origins ?w = [run_origin sample_run]" by (simp add: origins_def world_with_def db_with_def)
  ultimately have "origins w' \<noteq> origins ?w" by simp
  moreover have "solo (gd_env sample_hook)" by (simp add: sample_hook_def)
  ultimately show ?thesis using webhook_runs_are_trusted [OF _ run] run w' by fastforce
qed

end
