(* ===== verification/Gitlab_Client.thy ===== *)
theory Gitlab_Client
  imports Http
begin

text \<open>
  \<open>internal/gitlab/gitlab.go\<close>: the client of a GitLab instance. The names carry the prefix
  \<open>gl_\<close> where the GitHub client has the same ones.
\<close>

record gl_Client =
  gl_baseURL :: string
  gl_token :: string

definition gl_New :: "string \<Rightarrow> string \<Rightarrow> gl_Client" where
  "gl_New url tok = \<lparr>gl_baseURL = TrimRight url (CHR ''/''), gl_token = tok\<rparr>"

definition gl_apiBase :: "gl_Client \<Rightarrow> string" where
  "gl_apiBase c = gl_baseURL c @ ''/api/v4''"

definition encodeProjectPath :: "string \<Rightarrow> string" where
  "encodeProjectPath project = PathEscape project"

definition encodeFilePath :: "string \<Rightarrow> string" where
  "encodeFilePath path = PathEscape path"

definition gl_newRequest :: "gl_Client \<Rightarrow> string \<Rightarrow> Request option" where
  "gl_newRequest c apiPath =
     (case NewRequest ''GET'' (gl_apiBase c @ apiPath) [] of
        None \<Rightarrow> None
      | Some req \<Rightarrow> Some (if gl_token c \<noteq> '''' then set_header ''PRIVATE-TOKEN'' (gl_token c) req else req))"

definition gl_do :: "transport \<Rightarrow> Request \<Rightarrow> (client_error + bytes)" where
  "gl_do http req =
     (case http (sent req) of
        None \<Rightarrow> Inl ErrTransport
      | Some resp \<Rightarrow>
          (case read_limited (10 * 2 ^ 20) resp of
             None \<Rightarrow> Inl ErrTransport
           | Some body \<Rightarrow>
               if rs_StatusCode resp \<ge> 200 \<and> rs_StatusCode resp < 300 then Inr body
               else if rs_StatusCode resp = 404 then Inl ErrNotFound
               else if rs_StatusCode resp = 401 \<or> rs_StatusCode resp = 403 then Inl ErrUnauthorized
               else Inl (ErrStatus (rs_StatusCode resp))))"

definition gl_request :: "transport \<Rightarrow> gl_Client \<Rightarrow> string \<Rightarrow> (client_error + bytes)" where
  "gl_request http c apiPath =
     (case gl_newRequest c apiPath of None \<Rightarrow> Inl ErrRequest | Some req \<Rightarrow> gl_do http req)"

subsection \<open>Workflow files\<close>

definition workflowsDir :: string where
  "workflowsDir = ''.github/workflows''"

record treeEntry =
  te_Name :: string
  te_Type :: string
  te_Path :: string

definition zero_tree :: treeEntry where
  "zero_tree = \<lparr>te_Name = '''', te_Type = '''', te_Path = ''''\<rparr>"

definition decode_tree :: "treeEntry decoder" where
  "decode_tree = decode_struct
     [(''name'', \<lambda>v e. case decode_string v (te_Name e) of (s, ok) \<Rightarrow> (e\<lparr>te_Name := s\<rparr>, ok)),
      (''type'', \<lambda>v e. case decode_string v (te_Type e) of (s, ok) \<Rightarrow> (e\<lparr>te_Type := s\<rparr>, ok)),
      (''path'', \<lambda>v e. case decode_string v (te_Path e) of (s, ok) \<Rightarrow> (e\<lparr>te_Path := s\<rparr>, ok))]"

definition tree_workflow :: "treeEntry \<Rightarrow> bool" where
  "tree_workflow e \<longleftrightarrow> te_Type e = ''blob'' \<and> (HasSuffix (te_Name e) ''.yml'' \<or> HasSuffix (te_Name e) ''.yaml'')"

definition tree_path :: "string \<Rightarrow> string \<Rightarrow> string" where
  "tree_path project sha =
     ''/projects/'' @ encodeProjectPath project @ ''/repository/tree?path='' @ QueryEscape workflowsDir @
     ''&ref='' @ QueryEscape sha @ ''&per_page=100''"

definition gl_ListWorkflows :: "transport \<Rightarrow> gl_Client \<Rightarrow> string \<Rightarrow> string \<Rightarrow> (client_error + string list)" where
  "gl_ListWorkflows http c project sha =
     (if project = '''' then Inl ErrArgument
      else if sha = '''' then Inl ErrArgument
      else case gl_request http c (tree_path project sha) of
             Inl e \<Rightarrow> Inl e
           | Inr body \<Rightarrow>
               (case Unmarshal (decode_slice decode_tree zero_tree) None body of
                  None \<Rightarrow> Inl ErrDecode
                | Some entries \<Rightarrow> Inr (map te_Path (filter tree_workflow (elems entries)))))"

definition raw_path :: "string \<Rightarrow> string \<Rightarrow> string \<Rightarrow> string" where
  "raw_path project sha path =
     ''/projects/'' @ encodeProjectPath project @ ''/repository/files/'' @ encodeFilePath path @
     ''/raw?ref='' @ QueryEscape sha"

definition gl_FetchWorkflow :: "transport \<Rightarrow> gl_Client \<Rightarrow> string \<Rightarrow> string \<Rightarrow> string \<Rightarrow> (client_error + bytes)" where
  "gl_FetchWorkflow http c project sha path =
     (if project = '''' then Inl ErrArgument
      else if sha = '''' then Inl ErrArgument
      else if path = '''' then Inl ErrArgument
      else gl_request http c (raw_path project sha path))"

subsection \<open>Clone URLs\<close>

definition gl_host :: "gl_Client \<Rightarrow> string" where
  "gl_host c = (if url_host (gl_baseURL c) = '''' then gl_baseURL c else url_host (gl_baseURL c))"

definition gl_CloneURL :: "gl_Client \<Rightarrow> string \<Rightarrow> string" where
  "gl_CloneURL c project =
     (if gl_token c = '''' then ''https://'' @ gl_host c @ ''/'' @ project @ ''.git''
      else ''https://oauth2:'' @ gl_token c @ ''@'' @ gl_host c @ ''/'' @ project @ ''.git'')"

definition gl_Redact :: "string \<Rightarrow> string" where
  "gl_Redact cloneURL =
     (case Index cloneURL ''oauth2:'' of
        None \<Rightarrow> cloneURL
      | Some i \<Rightarrow>
          let rest = drop (i + length ''oauth2:'') cloneURL in
          case Index rest ''@'' of
            None \<Rightarrow> cloneURL
          | Some at \<Rightarrow> take i cloneURL @ ''oauth2:***REDACTED***'' @ drop at rest)"

subsection \<open>Properties\<close>

lemma segment_bytes_harmless:
  "list_all segment_byte s \<Longrightarrow> CHR ''#'' \<notin> set s \<and> CHR ''?'' \<notin> set s \<and> CHR ''/'' \<notin> set s \<and> list_all (\<lambda>c. \<not> is_ctl c) s"
  using segment_byte_harmless by (fastforce simp: list_all_iff)

lemma SplitN2_first: "c \<notin> set a \<Longrightarrow> hd (SplitN2 c (a @ c # b)) = a"
  by (simp add: SplitN2_append)

text \<open>A base URL the client can be configured with: nothing in it needs escaping.\<close>

definition plain_base :: "string \<Rightarrow> bool" where
  "plain_base u \<longleftrightarrow> list_all (\<lambda>c. c \<noteq> CHR ''#'' \<and> c \<noteq> CHR ''?'' \<and> c \<noteq> CHR ''%'' \<and> \<not> is_ctl c) u"

lemma plain_base_escapes: "plain_base u \<Longrightarrow> valid_escapes (u @ t) = valid_escapes t"
  by (induction u) (auto simp: plain_base_def)

lemma raw_path_request:
  assumes "plain_base (gl_baseURL c)"
  shows "\<exists>req. gl_newRequest c (raw_path project sha path) = Some req \<and> sent req = req \<and>
    rq_URL req = gl_apiBase c @ raw_path project sha path"
proof -
  let ?p = "gl_baseURL c @ ''/api/v4/projects/'' @ PathEscape project @ ''/repository/files/'' @ PathEscape path @ ''/raw''"
  let ?u = "gl_apiBase c @ raw_path project sha path"
  have u: "?u = ?p @ CHR ''?'' # ''ref='' @ QueryEscape sha"
    by (simp add: gl_apiBase_def raw_path_def encodeProjectPath_def encodeFilePath_def)
  have h: "CHR ''#'' \<notin> set (PathEscape x)" "CHR ''?'' \<notin> set (PathEscape x)" "list_all (\<lambda>c. \<not> is_ctl c) (PathEscape x)"
    "CHR ''#'' \<notin> set (QueryEscape x)" "list_all (\<lambda>c. \<not> is_ctl c) (QueryEscape x)" for x
    using segment_bytes_harmless [OF escape_segment(1), of x] segment_bytes_harmless [OF escape_segment(2), of x] by auto
  have b: "CHR ''#'' \<notin> set (gl_baseURL c)" "CHR ''?'' \<notin> set (gl_baseURL c)" "list_all (\<lambda>c. \<not> is_ctl c) (gl_baseURL c)"
    using assms by (auto simp: plain_base_def list_all_iff)
  have frag: "CHR ''#'' \<notin> set ?u" using h b by (simp add: u)
  have ctl: "list_all (\<lambda>c. \<not> is_ctl c) ?u" unfolding u using h b by (simp add: is_ctl_def char_code_def)
  have "valid_escapes ?p"
    using plain_base_escapes [OF assms] by (simp add: valid_escapes_PathEscape)
  moreover have "hd (SplitN2 (CHR ''?'') ?u) = ?p" unfolding u by (rule SplitN2_first) (use h b in simp)
  ultimately have "url_parses ?u" using ctl by (simp add: url_parses_def SplitN2_none [OF frag])
  then show ?thesis
    by (auto simp: gl_newRequest_def NewRequest_def sent_def set_header_def SplitN2_none [OF frag])
qed

text \<open>
  C37: the file asked for is the file named. For a well-formed base URL every project, sha and
  path gives a request, and the path of its URL, cut at the slashes, has the escaped project
  and the escaped file path as single segments, while the query is the one parameter \<open>ref\<close>: the
  server that unescapes them reads exactly the project, the path and the commit the caller
  named, slashes, question marks, ampersands, blanks and percent signs included.
\<close>

theorem gitlab_addresses_the_file:
  assumes "plain_base (gl_baseURL c)" and "project \<noteq> []" and "sha \<noteq> []" and "path \<noteq> []"
  shows "\<exists>req p f q. gl_FetchWorkflow http c project sha path = gl_do http req \<and>
    rq_URL (sent req) = gl_apiBase c @ ''/projects/'' @ p @ ''/repository/files/'' @ f @ ''/raw?ref='' @ q \<and>
    CHR ''/'' \<notin> set p \<and> CHR ''?'' \<notin> set p \<and> CHR ''/'' \<notin> set f \<and> CHR ''?'' \<notin> set f \<and> CHR ''&'' \<notin> set q \<and>
    PathUnescape p = Some project \<and> PathUnescape f = Some path \<and> QueryUnescape q = Some sha"
proof -
  obtain req where "gl_newRequest c (raw_path project sha path) = Some req" "sent req = req"
    "rq_URL req = gl_apiBase c @ raw_path project sha path" using raw_path_request [OF assms(1)] by blast
  with assms segment_bytes_harmless [OF escape_segment(1), of project] segment_bytes_harmless [OF escape_segment(1), of path]
  show ?thesis
    by (intro exI [of _ req] exI [of _ "PathEscape project"] exI [of _ "PathEscape path"] exI [of _ "QueryEscape sha"])
      (simp add: gl_FetchWorkflow_def gl_request_def raw_path_def encodeProjectPath_def encodeFilePath_def
        PathUnescape_PathEscape QueryUnescape_QueryEscape)
qed

definition gl_sample_server :: transport where
  "gl_sample_server req = Some \<lparr>rs_StatusCode = 200, rs_Body = ''on: push'', rs_BrokenOff = False\<rparr>"

theorem gitlab_addresses_the_file_witness:
  "\<exists>req p. gl_FetchWorkflow gl_sample_server (gl_New ''https://git.acme.dev/'' ''t'') ''acme/app'' ''abc'' ''ci.yml'' = gl_do gl_sample_server req \<and>
     CHR ''/'' \<notin> set p \<and> PathUnescape p = Some ''acme/app'' \<and>
     (\<exists>rest. rq_URL (sent req) = ''https://git.acme.dev/api/v4/projects/'' @ p @ rest)"
proof -
  have "plain_base (gl_baseURL (gl_New ''https://git.acme.dev/'' ''t''))"
    by (simp add: plain_base_def gl_New_def TrimRight_def is_ctl_def char_code_def)
  from gitlab_addresses_the_file [OF this, of "''acme/app''" "''abc''" "''ci.yml''" gl_sample_server] show ?thesis
    by (fastforce simp: gl_apiBase_def gl_New_def TrimRight_def)
qed

end
