(* ===== verification/Webhook_Gitlab.thy ===== *)
theory Webhook_Gitlab
  imports Webhook_Github Gitlab_Client
begin

text \<open>
  \<open>internal/webhook/gitlab.go\<close>: a delivery is authenticated by a shared token, gated on the
  allow-listed project, and one workflow of the pushed commit is planned.
\<close>

definition gitlabMaxBodyBytes :: nat where
  "gitlabMaxBodyBytes = 10 * 2 ^ 20"

record GitLabWebhookDeps =
  ld_Secret :: string
  ld_AllowProject :: string
  ld_ListWorkflows :: "string \<Rightarrow> string \<Rightarrow> (client_error + string list)"
  ld_FetchWorkflow :: "string \<Rightarrow> string \<Rightarrow> string \<Rightarrow> (client_error + bytes)"
  ld_act :: act
  ld_env :: env
  ld_Notifier :: bool
  ld_WorkflowPath :: string
  ld_uuid_string :: "uuid \<Rightarrow> string"
  ld_invalid_text :: "PlanInput \<Rightarrow> string"

text \<open>
  The last field is the text of the error \<open>Plan\<close> returns for an invalid workflow; it holds
  the words of act's own error.
\<close>

record gitlabPushProject =
  gpp_PathWithNamespace :: string

record gitlabPushEvent =
  ge_ObjectKind :: string
  ge_Ref :: string
  ge_CheckoutSHA :: string
  ge_UserUsername :: string
  ge_Project :: gitlabPushProject

definition zero_gitlab_push :: gitlabPushEvent where
  "zero_gitlab_push =
     \<lparr>ge_ObjectKind = '''', ge_Ref = '''', ge_CheckoutSHA = '''', ge_UserUsername = '''',
      ge_Project = \<lparr>gpp_PathWithNamespace = ''''\<rparr>\<rparr>"

definition decode_gitlab_project :: "gitlabPushProject decoder" where
  "decode_gitlab_project = decode_struct
     [(''path_with_namespace'', \<lambda>v p. case decode_string v (gpp_PathWithNamespace p) of
         (s, ok) \<Rightarrow> (p\<lparr>gpp_PathWithNamespace := s\<rparr>, ok))]"

definition decode_gitlab_push :: "gitlabPushEvent decoder" where
  "decode_gitlab_push = decode_struct
     [(''object_kind'', \<lambda>v e. case decode_string v (ge_ObjectKind e) of (s, ok) \<Rightarrow> (e\<lparr>ge_ObjectKind := s\<rparr>, ok)),
      (''ref'', \<lambda>v e. case decode_string v (ge_Ref e) of (s, ok) \<Rightarrow> (e\<lparr>ge_Ref := s\<rparr>, ok)),
      (''checkout_sha'', \<lambda>v e. case decode_string v (ge_CheckoutSHA e) of (s, ok) \<Rightarrow> (e\<lparr>ge_CheckoutSHA := s\<rparr>, ok)),
      (''user_username'', \<lambda>v e. case decode_string v (ge_UserUsername e) of (s, ok) \<Rightarrow> (e\<lparr>ge_UserUsername := s\<rparr>, ok)),
      (''project'', \<lambda>v e. case decode_gitlab_project v (ge_Project e) of (p, ok) \<Rightarrow> (e\<lparr>ge_Project := p\<rparr>, ok))]"

subsection \<open>Replies\<close>

text \<open>\<open>run_id\<close> is left out of the document when it is empty.\<close>

definition gitlabWebhookResponse :: "string \<Rightarrow> string \<Rightarrow> json" where
  "gitlabWebhookResponse status runID =
     string_object ((''status'', status) # (if runID = '''' then [] else [(''run_id'', runID)]))"

definition gitlabWebhookErrorResponse :: "string \<Rightarrow> json" where
  "gitlabWebhookErrorResponse msg = string_object [(''error'', msg)]"

definition gitlabWriteJSON :: "int \<Rightarrow> json \<Rightarrow> Reply" where
  "gitlabWriteJSON status v = write_json status v"

definition gitlabWriteError :: "int \<Rightarrow> string \<Rightarrow> Reply" where
  "gitlabWriteError status msg = gitlabWriteJSON status (gitlabWebhookErrorResponse msg)"

definition gitlabInternalError :: Reply where
  "gitlabInternalError = gitlabWriteError 500 ''internal error''"

definition gitlabIgnored :: Reply where
  "gitlabIgnored = gitlabWriteJSON 202 (gitlabWebhookResponse ''ignored'' '''')"

definition gitlabHandleFetchError :: "client_error \<Rightarrow> Reply" where
  "gitlabHandleFetchError e =
     (if e = ErrNotFound then gitlabWriteError 400 ''workflow file or ref not found in GitLab project''
      else gitlabInternalError)"

subsection \<open>Handler\<close>

text \<open>The text of the workflow to plan, or the reply that ends the delivery.\<close>

definition gitlab_workflow :: "GitLabWebhookDeps \<Rightarrow> string \<Rightarrow> string \<Rightarrow> (Reply + bytes)" where
  "gitlab_workflow D project sha =
     (if ld_WorkflowPath D \<noteq> '''' then
        (case ld_FetchWorkflow D project sha (ld_WorkflowPath D) of
           Inl e \<Rightarrow> Inl (gitlabHandleFetchError e)
         | Inr yamlBytes \<Rightarrow> Inr yamlBytes)
      else
        (case ld_ListWorkflows D project sha of
           Inl e \<Rightarrow> Inl (gitlabHandleFetchError e)
         | Inr paths \<Rightarrow>
             (case paths of
                [] \<Rightarrow> Inl (gitlabWriteError 400 ''no workflow files found under .github/workflows'')
              | path # _ \<Rightarrow>
                  (case ld_FetchWorkflow D project sha path of
                     Inl e \<Rightarrow> Inl (gitlabHandleFetchError e)
                   | Inr yamlBytes \<Rightarrow> Inr yamlBytes))))"

definition gitlab_input :: "gitlabPushEvent \<Rightarrow> bytes \<Rightarrow> bytes \<Rightarrow> PlanInput" where
  "gitlab_input evt body workflowYAML =
     \<lparr>pi_Repo = gpp_PathWithNamespace (ge_Project evt), pi_Ref = ge_Ref evt, pi_SHA = ge_CheckoutSHA evt,
      pi_EventName = ''push'', pi_EventPayload = Some body, pi_TriggeredBy = ge_UserUsername evt,
      pi_WorkflowYAML = workflowYAML\<rparr>"

definition gitlabWebhookHandler :: "GitLabWebhookDeps \<Rightarrow> HttpRequest \<Rightarrow> (world, Reply) state" where
  "gitlabWebhookHandler D req =
     (let got = param_get (hr_Header req) ''X-Gitlab-Token'' in
      if ld_Secret D = '''' \<or> got \<noteq> ld_Secret D then ret (gitlabWriteError 401 ''invalid or missing X-Gitlab-Token'')
      else case read_cut gitlabMaxBodyBytes req of
        None \<Rightarrow> ret (gitlabWriteError 400 ''failed to read request body'')
      | Some body \<Rightarrow>
     (case Unmarshal decode_gitlab_push zero_gitlab_push body of
        None \<Rightarrow> ret (gitlabWriteError 400 ''invalid JSON body'')
      | Some evt \<Rightarrow>
          if ge_ObjectKind evt \<noteq> ''push'' then ret gitlabIgnored
          else if ld_AllowProject D = '''' \<or> gpp_PathWithNamespace (ge_Project evt) \<noteq> ld_AllowProject D then ret gitlabIgnored
          else if ge_CheckoutSHA evt = '''' \<or> ge_Ref evt = ''''
          then ret (gitlabWriteError 400 ''push event missing ref or checkout_sha'')
          else case gitlab_workflow D (gpp_PathWithNamespace (ge_Project evt)) (ge_CheckoutSHA evt) of
            Inl reply \<Rightarrow> ret reply
          | Inr workflowYAML \<Rightarrow> do {
              r \<leftarrow> Plan (ld_act D) (ld_env D) (gitlab_input evt body workflowYAML);
              case r of
                Inl e \<Rightarrow>
                  if e = ErrInvalidWorkflow
                  then ret (gitlabWriteError 400 (ld_invalid_text D (gitlab_input evt body workflowYAML)))
                  else ret gitlabInternalError
              | Inr result \<Rightarrow> do {
                  (if ld_Notifier D then Notify else ret ());
                  ret (gitlabWriteJSON 202 (gitlabWebhookResponse ''accepted'' (ld_uuid_string D (pr_RunID result))))
                }
            }))"

subsection \<open>What every relation of the stores gives\<close>

context store_rel
begin

lemma guar_gitlabWebhookHandler: "rely (ld_env D) \<Longrightarrow> guar (gitlabWebhookHandler D req)"
  unfolding gitlabWebhookHandler_def by (intro guar_rules guar_Plan guar_Notify)

end

subsection \<open>What a delivery may do\<close>

text \<open>A delivery the handler acts on: the right token, a push, of the allow-listed project.\<close>

definition accepted_gitlab :: "GitLabWebhookDeps \<Rightarrow> HttpRequest \<Rightarrow> gitlabPushEvent \<Rightarrow> bytes \<Rightarrow> bool" where
  "accepted_gitlab D req evt body \<longleftrightarrow>
     ld_Secret D \<noteq> [] \<and> param_get (hr_Header req) ''X-Gitlab-Token'' = ld_Secret D \<and>
     read_cut gitlabMaxBodyBytes req = Some body \<and>
     Unmarshal decode_gitlab_push zero_gitlab_push body = Some evt \<and>
     ge_ObjectKind evt = ''push'' \<and> ld_AllowProject D \<noteq> [] \<and>
     gpp_PathWithNamespace (ge_Project evt) = ld_AllowProject D \<and> ge_CheckoutSHA evt \<noteq> [] \<and> ge_Ref evt \<noteq> []"

lemma gitlab_handler_cases:
  obtains (rejected) reply where "gitlabWebhookHandler D req = ret reply"
    | (planned) evt body yaml where "accepted_gitlab D req evt body"
      "gitlab_workflow D (ld_AllowProject D) (ge_CheckoutSHA evt) = Inr yaml"
      "gitlabWebhookHandler D req = do {
         r \<leftarrow> Plan (ld_act D) (ld_env D) (gitlab_input evt body yaml);
         case r of
           Inl e \<Rightarrow>
             if e = ErrInvalidWorkflow then ret (gitlabWriteError 400 (ld_invalid_text D (gitlab_input evt body yaml)))
             else ret gitlabInternalError
         | Inr result \<Rightarrow> do {
             (if ld_Notifier D then Notify else ret ());
             ret (gitlabWriteJSON 202 (gitlabWebhookResponse ''accepted'' (ld_uuid_string D (pr_RunID result))))
           }
       }"
proof (cases "\<exists>evt body yaml. accepted_gitlab D req evt body \<and> gitlab_workflow D (ld_AllowProject D) (ge_CheckoutSHA evt) = Inr yaml")
  case True
  then obtain evt body yaml where a: "accepted_gitlab D req evt body"
    "gitlab_workflow D (ld_AllowProject D) (ge_CheckoutSHA evt) = Inr yaml" by blast
  then show thesis
    by (intro planned [OF a]) (simp add: gitlabWebhookHandler_def accepted_gitlab_def)
next
  case False
  show thesis
  proof (cases "\<exists>evt body. accepted_gitlab D req evt body")
    case True
    then obtain evt body where a: "accepted_gitlab D req evt body" by blast
    with False obtain reply where "gitlab_workflow D (ld_AllowProject D) (ge_CheckoutSHA evt) = Inl reply"
      by (cases "gitlab_workflow D (ld_AllowProject D) (ge_CheckoutSHA evt)") auto
    with a show thesis by (intro rejected) (simp add: gitlabWebhookHandler_def accepted_gitlab_def)
  next
    case no: False
    have "\<exists>reply. gitlabWebhookHandler D req = ret reply"
    proof (cases "ld_Secret D = [] \<or> param_get (hr_Header req) ''X-Gitlab-Token'' \<noteq> ld_Secret D")
      case True
      then show ?thesis by (auto simp: gitlabWebhookHandler_def Let_def)
    next
      case secret: False
      show ?thesis
      proof (cases "read_cut gitlabMaxBodyBytes req")
        case None
        with secret show ?thesis by (auto simp: gitlabWebhookHandler_def Let_def)
      next
        case body: (Some body)
        show ?thesis
        proof (cases "Unmarshal decode_gitlab_push zero_gitlab_push body")
          case None
          with secret body show ?thesis by (auto simp: gitlabWebhookHandler_def Let_def)
        next
          case (Some evt)
          with secret body no show ?thesis by (auto simp: gitlabWebhookHandler_def accepted_gitlab_def Let_def)
        qed
      qed
    qed
    then show thesis using rejected by blast
  qed
qed

text \<open>
  C21: the GitLab endpoint acts only for its project. A delivery changes the state of the
  process or the database only when a secret is configured, the delivery carries it, and it
  is a push of the allow-listed project with a ref and a commit; what it then adds, alone on
  the database, is at most one run, of that project and commit, with the verbatim text of a
  workflow fetched from that commit.
\<close>

theorem gitlab_delivery_effect:
  assumes "solo (ld_env D)" and "run_state (gitlabWebhookHandler D req) w = (reply, w')" and "w' \<noteq> w"
  shows "\<exists>evt body yaml. accepted_gitlab D req evt body \<and>
    gitlab_workflow D (ld_AllowProject D) (ge_CheckoutSHA evt) = Inr yaml \<and>
    origins w' \<in> {origins w, origins w @
      [(ld_AllowProject D, ge_Ref evt, ge_CheckoutSHA evt, ''push'', ge_UserUsername evt, yaml)]}"
proof (rule gitlab_handler_cases [of D req])
  fix evt body yaml
  assume a: "accepted_gitlab D req evt body" "gitlab_workflow D (ld_AllowProject D) (ge_CheckoutSHA evt) = Inr yaml"
    and h: "gitlabWebhookHandler D req = do {
         r \<leftarrow> Plan (ld_act D) (ld_env D) (gitlab_input evt body yaml);
         case r of
           Inl e \<Rightarrow>
             if e = ErrInvalidWorkflow then ret (gitlabWriteError 400 (ld_invalid_text D (gitlab_input evt body yaml)))
             else ret gitlabInternalError
         | Inr result \<Rightarrow> do {
             (if ld_Notifier D then Notify else ret ());
             ret (gitlabWriteJSON 202 (gitlabWebhookResponse ''accepted'' (ld_uuid_string D (pr_RunID result))))
           }
       }"
  obtain r w1 where r: "run_state (Plan (ld_act D) (ld_env D) (gitlab_input evt body yaml)) w = (r, w1)" by fastforce
  have "origins w' = origins w1"
    using assms(2) h r by (cases r) (auto simp: split_beta split: if_splits)
  with a Plan_origins [OF assms(1), of "ld_act D" "gitlab_input evt body yaml" w] r show ?thesis
    by (auto simp: input_origin_def gitlab_input_def accepted_gitlab_def)
qed (use assms in auto)

subsection \<open>A concrete delivery\<close>

definition sample_gitlab_body :: bytes where
  "sample_gitlab_body = Marshal (JObject
     [(''object_kind'', JString ''push''), (''ref'', JString ''refs/heads/main''), (''checkout_sha'', JString ''abc''),
      (''project'', JObject [(''path_with_namespace'', JString ''acme/app'')])])"

definition sample_gitlab :: GitLabWebhookDeps where
  "sample_gitlab =
     \<lparr>ld_Secret = ''k'', ld_AllowProject = ''acme/app'', ld_ListWorkflows = \<lambda>_ _. Inr [''ci.yml''],
      ld_FetchWorkflow = \<lambda>_ _ _. Inr ''on: push'', ld_act = sample_act, ld_env = sample_env,
      ld_Notifier = True, ld_WorkflowPath = '''', ld_uuid_string = \<lambda>_. ''id'', ld_invalid_text = \<lambda>_. ''invalid''\<rparr>"

definition sample_gitlab_delivery :: HttpRequest where
  "sample_gitlab_delivery =
     \<lparr>hr_Header = [(''X-Gitlab-Token'', ''k'')], hr_Query = [], hr_Param = [],
      hr_Body = sample_gitlab_body, hr_BodyBroken = False\<rparr>"

definition sample_gitlab_event :: gitlabPushEvent where
  "sample_gitlab_event = zero_gitlab_push\<lparr>ge_ObjectKind := ''push'', ge_Ref := ''refs/heads/main'',
     ge_CheckoutSHA := ''abc'', ge_Project := \<lparr>gpp_PathWithNamespace = ''acme/app''\<rparr>\<rparr>"

lemma sample_gitlab_decoded:
  "Unmarshal decode_gitlab_push zero_gitlab_push sample_gitlab_body = Some sample_gitlab_event"
proof -
  have c: "coerce_utf8 ''object_kind'' = ''object_kind''" "coerce_utf8 ''push'' = ''push''"
    "coerce_utf8 ''checkout_sha'' = ''checkout_sha''" "coerce_utf8 ''project'' = ''project''"
    "coerce_utf8 ''path_with_namespace'' = ''path_with_namespace''"
    by (rule coerce_ascii, simp add: char_code_def)+
  have "json_parse sample_gitlab_body = Some (JObject
     [(''object_kind'', JString ''push''), (''ref'', JString ''refs/heads/main''), (''checkout_sha'', JString ''abc''),
      (''project'', JObject [(''path_with_namespace'', JString ''acme/app'')])])"
    unfolding sample_gitlab_body_def
    by (subst json_parse_Marshal) (simp_all add: maxNestingDepth_def coerce_sample c)
  then show ?thesis
    by (simp add: Unmarshal_def decode_gitlab_push_def decode_gitlab_project_def decode_struct_def find_field_def
        decode_string_def sample_gitlab_event_def zero_gitlab_push_def)
qed

lemma sample_gitlab_accepted: "accepted_gitlab sample_gitlab sample_gitlab_delivery sample_gitlab_event sample_gitlab_body"
proof -
  have "length sample_gitlab_body < gitlabMaxBodyBytes"
    by (simp add: sample_gitlab_body_def quote_plain plain_text_def char_code_def gitlabMaxBodyBytes_def)
  with sample_gitlab_decoded show ?thesis
    by (simp add: accepted_gitlab_def sample_gitlab_def sample_gitlab_delivery_def read_cut_def param_get_def)
      (simp add: sample_gitlab_event_def)
qed

lemma sample_gitlab_effect:
  "case run_state (gitlabWebhookHandler sample_gitlab sample_gitlab_delivery) (world_with (db_with [])) of
     (reply, w') \<Rightarrow> origins w' = [run_origin sample_run, (''acme/app'', ''refs/heads/main'', ''abc'', ''push'', '''', ''on: push'')]"
proof -
  have inp: "gitlab_input sample_gitlab_event body yaml =
      \<lparr>pi_Repo = ''acme/app'', pi_Ref = ''refs/heads/main'', pi_SHA = ''abc'', pi_EventName = ''push'',
       pi_EventPayload = Some body, pi_TriggeredBy = '''', pi_WorkflowYAML = yaml\<rparr>" for body yaml
    by (simp add: gitlab_input_def sample_gitlab_event_def zero_gitlab_push_def)
  obtain r w1 where r: "run_state (Plan sample_act sample_env
      \<lparr>pi_Repo = ''acme/app'', pi_Ref = ''refs/heads/main'', pi_SHA = ''abc'', pi_EventName = ''push'',
       pi_EventPayload = Some sample_gitlab_body, pi_TriggeredBy = '''', pi_WorkflowYAML = ''on: push''\<rparr>)
      (world_with (db_with [])) = (r, w1)" by fastforce
  then have "origins w1 = [run_origin sample_run, (''acme/app'', ''refs/heads/main'', ''abc'', ''push'', '''', ''on: push'')]"
    using sample_planned [of sample_gitlab_body] by simp
  moreover have "gitlab_workflow sample_gitlab ''acme/app'' ''abc'' = Inr ''on: push''"
    by (simp add: gitlab_workflow_def sample_gitlab_def)
  ultimately show ?thesis
    using sample_gitlab_accepted r inp
    by (cases r) (auto simp: gitlabWebhookHandler_def accepted_gitlab_def split_beta sample_gitlab_def sample_gitlab_event_def)
qed

theorem gitlab_delivery_effect_witness:
  "\<exists>reply w'. run_state (gitlabWebhookHandler sample_gitlab sample_gitlab_delivery) (world_with (db_with [])) = (reply, w') \<and>
     (\<exists>evt body. accepted_gitlab sample_gitlab sample_gitlab_delivery evt body) \<and>
     (''acme/app'', ''refs/heads/main'', ''abc'', ''push'', '''', ''on: push'') \<in> set (origins w')"
proof -
  let ?w = "world_with (db_with [])"
  obtain reply w' where run: "run_state (gitlabWebhookHandler sample_gitlab sample_gitlab_delivery) ?w = (reply, w')" by fastforce
  have w': "origins w' = [run_origin sample_run, (''acme/app'', ''refs/heads/main'', ''abc'', ''push'', '''', ''on: push'')]"
    using sample_gitlab_effect run by simp
  have "origins ?w = [run_origin sample_run]" by (simp add: origins_def world_with_def db_with_def)
  with w' have "w' \<noteq> ?w" by auto
  moreover have "solo (ld_env sample_gitlab)" by (simp add: sample_gitlab_def)
  ultimately show ?thesis using gitlab_delivery_effect [OF _ run] run w' by fastforce
qed

end
