(* ===== verification/Go_Time.thy ===== *)
theory Go_Time
  imports Go_Strings
begin

text \<open>
  \<open>t.UTC().Format(time.RFC3339)\<close> for a time in microseconds since the Unix epoch: the
  proleptic Gregorian calendar, with the fraction of a second left out.
\<close>

text \<open>Days since the epoch to year, month and day; years start in March while counting.\<close>

definition civil :: "int \<Rightarrow> int \<times> int \<times> int" where
  "civil days =
     (let z = days + 719468;
          era = z div 146097;
          doe = z mod 146097;
          yoe = (doe - doe div 1460 + doe div 36524 - doe div 146096) div 365;
          doy = doe - (365 * yoe + yoe div 4 - yoe div 100);
          mp = (5 * doy + 2) div 153;
          d = doy - (153 * mp + 2) div 5 + 1;
          m = (if mp < 10 then mp + 3 else mp - 9)
      in (yoe + era * 400 + (if m \<le> 2 then 1 else 0), m, d))"

text \<open>A number with leading zeros up to a width.\<close>

definition pad :: "nat \<Rightarrow> int \<Rightarrow> string" where
  "pad width n =
     (let ds = nat_digits (nat \<bar>n\<bar>) in
      (if n < 0 then ''-'' else []) @ replicate (width - length ds) (CHR ''0'') @ ds)"

definition format_RFC3339 :: "time \<Rightarrow> string" where
  "format_RFC3339 t =
     (let secs = t div 1000000; days = secs div 86400; r = secs mod 86400 in
      case civil days of (y, m, d) \<Rightarrow>
        pad 4 y @ ''-'' @ pad 2 m @ ''-'' @ pad 2 d @ ''T'' @
        pad 2 (r div 3600) @ '':'' @ pad 2 (r mod 3600 div 60) @ '':'' @ pad 2 (r mod 60) @ ''Z'')"

lemma format_RFC3339_epoch: "format_RFC3339 0 = ''1970-01-01T00:00:00Z''"
  by code_simp

lemma format_RFC3339_leap_day: "format_RFC3339 1709210096789012 = ''2024-02-29T12:34:56Z''"
  by code_simp

end
