(* ===== verification/Api_Runs.thy ===== *)
theory Api_Runs
  imports Http_Server Go_Time Json_Roundtrip Planner Github_Api
begin

text \<open>
  \<open>internal/api/runs.go\<close> and \<open>internal/api/runners.go\<close>: the REST endpoints that create
  and show runs, jobs and runners. The DTO structs are records, with the builders that fill them
  from store rows and the documents \<open>encoding/json\<close> writes for them by their tags.
\<close>

record RunsDeps =
  rd_ResolveRef :: "string \<Rightarrow> string \<Rightarrow> (client_error + string)"
  rd_FetchWorkflow :: "string \<Rightarrow> string \<Rightarrow> string \<Rightarrow> (client_error + bytes)"
  rd_act :: act
  rd_env :: env
  rd_Notifier :: bool
  rd_TriggeredBy :: string
  rd_uuid_string :: "uuid \<Rightarrow> string"
  rd_uuid_parse :: "string \<Rightarrow> uuid option"
  rd_invalid_text :: "PlanInput \<Rightarrow> string"

text \<open>The last field is the text of the error \<open>Plan\<close> returns for an invalid workflow.\<close>

definition triggeredBy :: "RunsDeps \<Rightarrow> string" where
  "triggeredBy D = (if rd_TriggeredBy D = '''' then ''manual'' else rd_TriggeredBy D)"

text \<open>The regular expression \<open>^[^/]+/[^/]+$\<close>.\<close>

definition runsRepoPattern :: "string \<Rightarrow> bool" where
  "runsRepoPattern repo = (case Split (CHR ''/'') repo of [a, b] \<Rightarrow> a \<noteq> '''' \<and> b \<noteq> '''' | _ \<Rightarrow> False)"

subsection \<open>Documents\<close>

record runsCreateRequest =
  rc_Repo :: string
  rc_Ref :: string
  rc_WorkflowPath :: string

definition zero_create :: runsCreateRequest where
  "zero_create = \<lparr>rc_Repo = '''', rc_Ref = '''', rc_WorkflowPath = ''''\<rparr>"

definition decode_create :: "runsCreateRequest decoder" where
  "decode_create = decode_struct
     [(''repo'', \<lambda>v r. case decode_string v (rc_Repo r) of (s, ok) \<Rightarrow> (r\<lparr>rc_Repo := s\<rparr>, ok)),
      (''ref'', \<lambda>v r. case decode_string v (rc_Ref r) of (s, ok) \<Rightarrow> (r\<lparr>rc_Ref := s\<rparr>, ok)),
      (''workflow_path'', \<lambda>v r. case decode_string v (rc_WorkflowPath r) of (s, ok) \<Rightarrow> (r\<lparr>rc_WorkflowPath := s\<rparr>, ok))]"

definition runsFormatTime :: "time \<Rightarrow> string" where
  "runsFormatTime t = format_RFC3339 t"

definition json_option :: "string option \<Rightarrow> json" where
  "json_option x = (case x of None \<Rightarrow> JNull | Some s \<Rightarrow> JString s)"

definition runsFormatTimePtr :: "time option \<Rightarrow> string option" where
  "runsFormatTimePtr t = (case t of None \<Rightarrow> None | Some x \<Rightarrow> Some (runsFormatTime x))"

record runsCreateResponse =
  cr_RunID :: string

record runsErrorResponse =
  er_Error :: string

record runSummary =
  rs_ID :: string
  rs_Repo :: string
  rs_Ref :: string
  rs_SHA :: string
  rs_Event :: string
  rs_Status :: string
  rs_CreatedAt :: string

record runsListResponse =
  rl_Runs :: "runSummary list"

text \<open>A raw message is \<open>None\<close> when it is nil.\<close>

record runDetailJob =
  dj_ID :: string
  dj_JobIDYAML :: string
  dj_Name :: string
  dj_Status :: string
  dj_Needs :: "string list"
  dj_Matrix :: "bytes option"

record runDetailResponse =
  dr_ID :: string
  dr_Repo :: string
  dr_Ref :: string
  dr_SHA :: string
  dr_Event :: string
  dr_TriggeredBy :: string
  dr_Status :: string
  dr_CreatedAt :: string
  dr_Jobs :: "runDetailJob list"

record jobDetailStep =
  ds_StepIndex :: int
  ds_Name :: string
  ds_Status :: string
  ds_StartedAt :: "string option"
  ds_FinishedAt :: "string option"

record jobDetailResponse =
  jd_ID :: string
  jd_RunID :: string
  jd_JobIDYAML :: string
  jd_Name :: string
  jd_Status :: string
  jd_Result :: "string option"
  jd_Needs :: "string list"
  jd_Matrix :: "bytes option"
  jd_StartedAt :: "string option"
  jd_FinishedAt :: "string option"
  jd_Steps :: "jobDetailStep list"

subsubsection \<open>Builders\<close>

definition runsToSummary :: "RunsDeps \<Rightarrow> Run \<Rightarrow> runSummary" where
  "runsToSummary D r =
     \<lparr>rs_ID = rd_uuid_string D (run_ID r), rs_Repo = run_Repo r, rs_Ref = run_Ref r, rs_SHA = run_SHA r,
      rs_Event = run_Event r, rs_Status = run_Status r, rs_CreatedAt = runsFormatTime (run_CreatedAt r)\<rparr>"

definition runsMatrixField :: "Job \<Rightarrow> bytes option" where
  "runsMatrixField j = (if length (elems (j_MatrixCellJSON j)) = 0 then None else Some (elems (j_MatrixCellJSON j)))"

definition runsToDetailJob :: "RunsDeps \<Rightarrow> Job \<Rightarrow> runDetailJob" where
  "runsToDetailJob D j =
     \<lparr>dj_ID = rd_uuid_string D (j_ID j), dj_JobIDYAML = j_JobIDYAML j, dj_Name = j_Name j, dj_Status = j_Status j,
      dj_Needs = elems (j_Needs j), dj_Matrix = runsMatrixField j\<rparr>"

definition runsToDetail :: "RunsDeps \<Rightarrow> Run \<Rightarrow> Job list \<Rightarrow> runDetailResponse" where
  "runsToDetail D r js =
     \<lparr>dr_ID = rd_uuid_string D (run_ID r), dr_Repo = run_Repo r, dr_Ref = run_Ref r, dr_SHA = run_SHA r,
      dr_Event = run_Event r, dr_TriggeredBy = run_TriggeredBy r, dr_Status = run_Status r,
      dr_CreatedAt = runsFormatTime (run_CreatedAt r), dr_Jobs = map (runsToDetailJob D) js\<rparr>"

definition runsToStep :: "Step \<Rightarrow> jobDetailStep" where
  "runsToStep s =
     \<lparr>ds_StepIndex = st_StepIndex s, ds_Name = st_Name s, ds_Status = st_Status s,
      ds_StartedAt = runsFormatTimePtr (st_StartedAt s), ds_FinishedAt = runsFormatTimePtr (st_FinishedAt s)\<rparr>"

definition runsToJobDetail :: "RunsDeps \<Rightarrow> Job \<Rightarrow> Step list \<Rightarrow> jobDetailResponse" where
  "runsToJobDetail D j sts =
     \<lparr>jd_ID = rd_uuid_string D (j_ID j), jd_RunID = rd_uuid_string D (j_RunID j), jd_JobIDYAML = j_JobIDYAML j,
      jd_Name = j_Name j, jd_Status = j_Status j, jd_Result = j_Result j, jd_Needs = elems (j_Needs j),
      jd_Matrix = runsMatrixField j, jd_StartedAt = runsFormatTimePtr (j_StartedAt j),
      jd_FinishedAt = runsFormatTimePtr (j_FinishedAt j), jd_Steps = map runsToStep sts\<rparr>"

subsubsection \<open>What the encoder writes for them\<close>

text \<open>
  The JSON document of a value, by its struct tags; \<open>None\<close> where the encoder fails, which is
  on a raw message that is not JSON.
\<close>

definition encode_create :: "runsCreateResponse \<Rightarrow> json" where
  "encode_create v = JObject [(''run_id'', JString (cr_RunID v))]"

definition encode_error :: "runsErrorResponse \<Rightarrow> json" where
  "encode_error v = JObject [(''error'', JString (er_Error v))]"

definition encode_summary :: "runSummary \<Rightarrow> json" where
  "encode_summary v = JObject
     [(''id'', JString (rs_ID v)), (''repo'', JString (rs_Repo v)), (''ref'', JString (rs_Ref v)),
      (''sha'', JString (rs_SHA v)), (''event'', JString (rs_Event v)), (''status'', JString (rs_Status v)),
      (''created_at'', JString (rs_CreatedAt v))]"

definition encode_list :: "runsListResponse \<Rightarrow> json" where
  "encode_list v = JObject [(''runs'', JArray (map encode_summary (rl_Runs v)))]"

definition encode_raw :: "bytes option \<Rightarrow> json option" where
  "encode_raw m = (case m of None \<Rightarrow> Some JNull | Some b \<Rightarrow> json_parse b)"

definition encode_detail_job :: "runDetailJob \<Rightarrow> json option" where
  "encode_detail_job v =
     map_option (\<lambda>matrix. JObject
       [(''id'', JString (dj_ID v)), (''job_id_yaml'', JString (dj_JobIDYAML v)), (''name'', JString (dj_Name v)),
        (''status'', JString (dj_Status v)), (''needs'', JArray (map JString (dj_Needs v))), (''matrix'', matrix)])
       (encode_raw (dj_Matrix v))"

text \<open>All or none of a list of documents.\<close>

fun all_some :: "'a option list \<Rightarrow> 'a list option" where
  "all_some [] = Some []"
| "all_some (x # xs) = (case x of None \<Rightarrow> None | Some y \<Rightarrow> map_option ((#) y) (all_some xs))"

definition encode_detail :: "runDetailResponse \<Rightarrow> json option" where
  "encode_detail v =
     map_option (\<lambda>js. JObject
       [(''id'', JString (dr_ID v)), (''repo'', JString (dr_Repo v)), (''ref'', JString (dr_Ref v)),
        (''sha'', JString (dr_SHA v)), (''event'', JString (dr_Event v)), (''triggered_by'', JString (dr_TriggeredBy v)),
        (''status'', JString (dr_Status v)), (''created_at'', JString (dr_CreatedAt v)), (''jobs'', JArray js)])
       (all_some (map encode_detail_job (dr_Jobs v)))"

definition encode_step :: "jobDetailStep \<Rightarrow> json" where
  "encode_step v = JObject
     [(''step_index'', JNumber (Itoa (ds_StepIndex v))), (''name'', JString (ds_Name v)), (''status'', JString (ds_Status v)),
      (''started_at'', json_option (ds_StartedAt v)), (''finished_at'', json_option (ds_FinishedAt v))]"

definition encode_job_detail :: "jobDetailResponse \<Rightarrow> json option" where
  "encode_job_detail v =
     map_option (\<lambda>matrix. JObject
       [(''id'', JString (jd_ID v)), (''run_id'', JString (jd_RunID v)), (''job_id_yaml'', JString (jd_JobIDYAML v)),
        (''name'', JString (jd_Name v)), (''status'', JString (jd_Status v)), (''result'', json_option (jd_Result v)),
        (''needs'', JArray (map JString (jd_Needs v))), (''matrix'', matrix), (''started_at'', json_option (jd_StartedAt v)),
        (''finished_at'', json_option (jd_FinishedAt v)), (''steps'', JArray (map encode_step (jd_Steps v)))])
       (encode_raw (jd_Matrix v))"

subsection \<open>Replies\<close>

text \<open>The status is written before the document: when the encoder fails, the body stays empty.\<close>

definition runsWriteJSON :: "int \<Rightarrow> json option \<Rightarrow> Reply" where
  "runsWriteJSON status v =
     (case v of
        None \<Rightarrow> \<lparr>rp_Status = status, rp_Type = ''application/json'', rp_Body = []\<rparr>
      | Some d \<Rightarrow> write_json status d)"

definition runsWriteError :: "int \<Rightarrow> string \<Rightarrow> Reply" where
  "runsWriteError status msg = runsWriteJSON status (Some (encode_error \<lparr>er_Error = msg\<rparr>))"

definition runsInternalError :: Reply where
  "runsInternalError = runsWriteError 500 ''internal error''"

text \<open>The error of a step of the creation: of the client or of the planner.\<close>

definition runsHandleUpstreamError :: "RunsDeps \<Rightarrow> PlanInput \<Rightarrow> client_error + plan_error \<Rightarrow> Reply" where
  "runsHandleUpstreamError D inp err =
     (if err = Inl ErrNotFound then runsWriteError 400 ''repo, ref, or workflow_path not found''
      else if err = Inr ErrInvalidWorkflow then runsWriteError 400 (rd_invalid_text D inp)
      else runsInternalError)"

subsection \<open>Handlers\<close>

definition create_input :: "RunsDeps \<Rightarrow> runsCreateRequest \<Rightarrow> string \<Rightarrow> bytes \<Rightarrow> PlanInput" where
  "create_input D body sha workflowYAML =
     \<lparr>pi_Repo = rc_Repo body, pi_Ref = rc_Ref body, pi_SHA = sha, pi_EventName = ''manual'',
      pi_EventPayload = Some ''{}'', pi_TriggeredBy = triggeredBy D, pi_WorkflowYAML = workflowYAML\<rparr>"

definition runsCreateHandler :: "RunsDeps \<Rightarrow> HttpRequest \<Rightarrow> (world, Reply) state" where
  "runsCreateHandler D req =
     (case decode_first decode_create zero_create (hr_Body req) of
        None \<Rightarrow> ret (runsWriteError 400 ''invalid JSON body'')
      | Some body \<Rightarrow>
          if rc_Repo body = '''' \<or> rc_Ref body = '''' \<or> rc_WorkflowPath body = ''''
          then ret (runsWriteError 400 ''repo, ref, and workflow_path are required'')
          else if \<not> runsRepoPattern (rc_Repo body)
          then ret (runsWriteError 400 (''repo must look like '' @ [CHR 0x22] @ ''owner/name'' @ [CHR 0x22]))
          else case rd_ResolveRef D (rc_Repo body) (rc_Ref body) of
            Inl e \<Rightarrow> ret (runsHandleUpstreamError D (create_input D body '''' []) (Inl e))
          | Inr sha \<Rightarrow>
         (case rd_FetchWorkflow D (rc_Repo body) sha (rc_WorkflowPath body) of
            Inl e \<Rightarrow> ret (runsHandleUpstreamError D (create_input D body sha []) (Inl e))
          | Inr workflowYAML \<Rightarrow> do {
              r \<leftarrow> Plan (rd_act D) (rd_env D) (create_input D body sha workflowYAML);
              case r of
                Inl e \<Rightarrow> ret (runsHandleUpstreamError D (create_input D body sha workflowYAML) (Inr e))
              | Inr result \<Rightarrow> do {
                  (if rd_Notifier D then Notify else ret ());
                  ret (runsWriteJSON 201 (Some (encode_create \<lparr>cr_RunID = rd_uuid_string D (pr_RunID result)\<rparr>)))
                }
            }))"

definition runsParseIntParam :: "HttpRequest \<Rightarrow> string \<Rightarrow> int \<Rightarrow> int" where
  "runsParseIntParam req name dflt =
     (let raw = param_get (hr_Query req) name in
      if raw = '''' then dflt
      else case ParseInt raw of None \<Rightarrow> dflt | Some v \<Rightarrow> if v < 0 then dflt else v)"

definition runsListHandler :: "RunsDeps \<Rightarrow> HttpRequest \<Rightarrow> (world, Reply) state" where
  "runsListHandler D req =
     (let limit = runsParseIntParam req ''limit'' 50; offset = runsParseIntParam req ''offset'' 0 in do {
        r \<leftarrow> ListRuns (rd_env D) limit offset;
        case r of
          Inl e \<Rightarrow> ret runsInternalError
        | Inr rs \<Rightarrow> ret (runsWriteJSON 200 (Some (encode_list \<lparr>rl_Runs = map (runsToSummary D) rs\<rparr>)))
      })"

definition runsGetHandler :: "RunsDeps \<Rightarrow> HttpRequest \<Rightarrow> (world, Reply) state" where
  "runsGetHandler D req =
     (case rd_uuid_parse D (param_get (hr_Param req) ''id'') of
        None \<Rightarrow> ret (runsWriteError 400 ''invalid run id'')
      | Some rid \<Rightarrow> do {
          r \<leftarrow> GetRun (rd_env D) rid;
          case r of
            Inl e \<Rightarrow> if e = ErrNoRows then ret (runsWriteError 404 ''run not found'') else ret runsInternalError
          | Inr run \<Rightarrow> do {
              l \<leftarrow> ListJobsForRun (rd_env D) rid;
              case l of
                Inl e \<Rightarrow> ret runsInternalError
              | Inr js \<Rightarrow> ret (runsWriteJSON 200 (encode_detail (runsToDetail D run js)))
            }
        })"

definition runsGetJobHandler :: "RunsDeps \<Rightarrow> HttpRequest \<Rightarrow> (world, Reply) state" where
  "runsGetJobHandler D req =
     (case rd_uuid_parse D (param_get (hr_Param req) ''id'') of
        None \<Rightarrow> ret (runsWriteError 400 ''invalid job id'')
      | Some jid \<Rightarrow> do {
          r \<leftarrow> GetJob (rd_env D) jid;
          case r of
            Inl e \<Rightarrow> if e = ErrNoRows then ret (runsWriteError 404 ''job not found'') else ret runsInternalError
          | Inr job \<Rightarrow> do {
              l \<leftarrow> ListStepsForJob (rd_env D) jid;
              case l of
                Inl e \<Rightarrow> ret runsInternalError
              | Inr sts \<Rightarrow> ret (runsWriteJSON 200 (encode_job_detail (runsToJobDetail D job sts)))
            }
        })"

subsection \<open>Runners\<close>

record runnerResponse =
  rr_ID :: string
  rr_Name :: string
  rr_Labels :: "string list"
  rr_Mode :: string
  rr_Status :: string
  rr_LastHeartbeat :: "string option"

definition toRunnerResponse :: "RunsDeps \<Rightarrow> Runner \<Rightarrow> runnerResponse" where
  "toRunnerResponse D r =
     \<lparr>rr_ID = rd_uuid_string D (rn_ID r), rr_Name = rn_Name r, rr_Labels = elems (rn_Labels r), rr_Mode = rn_Mode r,
      rr_Status = rn_Status r, rr_LastHeartbeat = map_option format_RFC3339 (rn_LastHeartbeat r)\<rparr>"

definition encode_runner :: "runnerResponse \<Rightarrow> json" where
  "encode_runner v = JObject
     [(''id'', JString (rr_ID v)), (''name'', JString (rr_Name v)), (''labels'', JArray (map JString (rr_Labels v))),
      (''mode'', JString (rr_Mode v)), (''status'', JString (rr_Status v)), (''last_heartbeat'', json_option (rr_LastHeartbeat v))]"

definition listRunnersHandler :: "RunsDeps \<Rightarrow> (world, Reply) state" where
  "listRunnersHandler D = do {
     r \<leftarrow> ListRunners (rd_env D);
     case r of
       Inl e \<Rightarrow> ret \<lparr>rp_Status = 500, rp_Type = ''application/json'',
                     rp_Body = Marshal (string_object [(''error'', ''internal error'')])\<rparr>
     | Inr rs \<Rightarrow> ret (write_json 200 (JArray (map (encode_runner \<circ> toRunnerResponse D) rs)))
   }"

subsection \<open>What every relation of the stores gives\<close>

context store_rel
begin

lemma guar_runsCreateHandler: "rely (rd_env D) \<Longrightarrow> guar (runsCreateHandler D req)"
  unfolding runsCreateHandler_def by (intro guar_rules guar_Plan guar_Notify)

lemma guar_runs_reads:
  assumes "rely (rd_env D)"
  shows "guar (runsListHandler D req)" "guar (runsGetHandler D req)" "guar (runsGetJobHandler D req)" "guar (listRunnersHandler D)"
  using assms unfolding runsListHandler_def runsGetHandler_def runsGetJobHandler_def listRunnersHandler_def
  by (intro guar_rules guar_store; assumption)+

end

subsection \<open>Creating a run\<close>

lemma Marshal_reply_parses:
  assumes "wf_json v" and "depth v \<le> maxNestingDepth"
  shows "json_parse (butlast (rp_Body (write_json st v))) = Some (coerce_json v)"
  using json_parse_Marshal [OF assms] by (simp add: write_json_def)

text \<open>A creation that answers 201 has planned the run.\<close>

lemma created_by_plan:
  assumes "run_state (runsCreateHandler D req) w = (reply, w')" and "rp_Status reply = 201"
  shows "\<exists>body sha yaml res w1. decode_first decode_create zero_create (hr_Body req) = Some body \<and>
    runsRepoPattern (rc_Repo body) \<and> rc_Ref body \<noteq> [] \<and> rc_WorkflowPath body \<noteq> [] \<and>
    rd_ResolveRef D (rc_Repo body) (rc_Ref body) = Inr sha \<and>
    rd_FetchWorkflow D (rc_Repo body) sha (rc_WorkflowPath body) = Inr yaml \<and>
    run_state (Plan (rd_act D) (rd_env D) (create_input D body sha yaml)) w = (Inr res, w1) \<and> db w' = db w1 \<and>
    reply = write_json 201 (encode_create \<lparr>cr_RunID = rd_uuid_string D (pr_RunID res)\<rparr>)"
proof -
  note errs = runsWriteJSON_def runsWriteError_def runsInternalError_def runsHandleUpstreamError_def
  obtain body where body: "decode_first decode_create zero_create (hr_Body req) = Some body"
    using assms by (auto simp: runsCreateHandler_def errs split: option.splits)
  have ok: "rc_Repo body \<noteq> []" "rc_Ref body \<noteq> []" "rc_WorkflowPath body \<noteq> []" "runsRepoPattern (rc_Repo body)"
    using assms body by (auto simp: runsCreateHandler_def errs split: if_splits)
  obtain sha where sha: "rd_ResolveRef D (rc_Repo body) (rc_Ref body) = Inr sha"
    using assms body ok by (cases "rd_ResolveRef D (rc_Repo body) (rc_Ref body)") (auto simp: runsCreateHandler_def errs split: if_splits)
  obtain yaml where yaml: "rd_FetchWorkflow D (rc_Repo body) sha (rc_WorkflowPath body) = Inr yaml"
    using assms body ok sha
    by (cases "rd_FetchWorkflow D (rc_Repo body) sha (rc_WorkflowPath body)") (auto simp: runsCreateHandler_def errs split: if_splits)
  let ?inp = "create_input D body sha yaml"
  obtain r w1 where r: "run_state (Plan (rd_act D) (rd_env D) ?inp) w = (r, w1)" by fastforce
  have h: "runsCreateHandler D req = do {
      r \<leftarrow> Plan (rd_act D) (rd_env D) ?inp;
      case r of
        Inl e \<Rightarrow> ret (runsHandleUpstreamError D ?inp (Inr e))
      | Inr result \<Rightarrow> do {
          (if rd_Notifier D then Notify else ret ());
          ret (runsWriteJSON 201 (Some (encode_create \<lparr>cr_RunID = rd_uuid_string D (pr_RunID result)\<rparr>)))
        }
    }"
    using body ok sha yaml by (simp add: runsCreateHandler_def)
  obtain res where res: "r = Inr res"
    using assms h r by (cases r) (auto simp: errs split: if_splits)
  have "reply = write_json 201 (encode_create \<lparr>cr_RunID = rd_uuid_string D (pr_RunID res)\<rparr>)" "db w' = db w1"
    using assms(1) h r res by (auto simp: Notify_def runsWriteJSON_def split: if_splits)
  with body ok sha yaml r res show ?thesis by auto
qed

text \<open>
  C29: a run asked for is a run created. When POST /runs answers 201, alone on the database,
  the body named a repository \<open>owner/name\<close>, a ref and a path, the ref was resolved and the
  file fetched at the commit it resolved to, and exactly one run was added: queued, manual,
  at that commit, with that file; the reply is a JSON document with the run's id.
\<close>

theorem runsCreateHandler_created:
  assumes "solo (rd_env D)" and "run_state (runsCreateHandler D req) w = (reply, w')" and "rp_Status reply = 201"
  shows "\<exists>body sha yaml run. decode_first decode_create zero_create (hr_Body req) = Some body \<and>
    runsRepoPattern (rc_Repo body) \<and> rc_Ref body \<noteq> [] \<and> rc_WorkflowPath body \<noteq> [] \<and>
    rd_ResolveRef D (rc_Repo body) (rc_Ref body) = Inr sha \<and>
    rd_FetchWorkflow D (rc_Repo body) sha (rc_WorkflowPath body) = Inr yaml \<and>
    workflow_runs (db w') = workflow_runs (db w) @ [run] \<and> run_Status run = ''queued'' \<and> run_Event run = ''manual'' \<and>
    run_Repo run = rc_Repo body \<and> run_Ref run = rc_Ref body \<and> run_SHA run = sha \<and> run_WorkflowYAML run = yaml \<and>
    json_parse (butlast (rp_Body reply)) =
      Some (string_object [(''run_id'', coerce_utf8 (rd_uuid_string D (run_ID run)))])"
proof -
  obtain body sha yaml res w1 where
    body: "decode_first decode_create zero_create (hr_Body req) = Some body"
      "runsRepoPattern (rc_Repo body)" "rc_Ref body \<noteq> []" "rc_WorkflowPath body \<noteq> []"
      "rd_ResolveRef D (rc_Repo body) (rc_Ref body) = Inr sha" "rd_FetchWorkflow D (rc_Repo body) sha (rc_WorkflowPath body) = Inr yaml"
    and plan: "run_state (Plan (rd_act D) (rd_env D) (create_input D body sha yaml)) w = (Inr res, w1)" "db w' = db w1"
    and reply: "reply = write_json 201 (encode_create \<lparr>cr_RunID = rd_uuid_string D (pr_RunID res)\<rparr>)"
    using created_by_plan [OF assms(2,3)] by blast
  obtain run where run: "workflow_runs (db w1) = workflow_runs (db w) @ [run]" "run_ID run = pr_RunID res" "run_Status run = ''queued''"
    "run_Repo run = rc_Repo body" "run_Ref run = rc_Ref body" "run_SHA run = sha" "run_Event run = ''manual''" "run_WorkflowYAML run = yaml"
    using Plan_success [OF assms(1) plan(1)] by (auto simp: create_input_def)
  have "coerce_utf8 ''run_id'' = ''run_id''" by (rule coerce_ascii) (simp add: char_code_def)
  then have "json_parse (butlast (rp_Body reply)) = Some (string_object [(''run_id'', coerce_utf8 (rd_uuid_string D (run_ID run)))])"
    using run(2) unfolding reply encode_create_def
    by (subst Marshal_reply_parses) (simp_all add: string_object_def maxNestingDepth_def)
  with body run plan(2) show ?thesis by auto
qed

subsection \<open>Listing runs\<close>

lemma runsParseIntParam_range:
  "0 \<le> dflt \<Longrightarrow> dflt \<le> int64_max \<Longrightarrow> 0 \<le> runsParseIntParam req name dflt \<and> runsParseIntParam req name dflt \<le> int64_max"
  by (auto simp: runsParseIntParam_def Let_def ParseInt_def range64_def in_int64_def split: option.splits if_splits)

text \<open>
  GET /runs never fails on its parameters. Whatever the query holds, alone on the
  database the answer is 200 with the page of the runs asked for (fifty from the first one when
  the parameters are missing or no non-negative numbers), newest first, and nothing changes.
\<close>

lemma runs_listed_laws:
  "mset (runs_listed d) = mset (workflow_runs d)" "sorted_wrt (\<lambda>a b. run_CreatedAt b \<le> run_CreatedAt a) (runs_listed d)"
  using sorted_sort_key [of "\<lambda>r. - run_CreatedAt r"] by (simp_all add: runs_listed_def sorted_map)

lemma runners_listed_laws:
  "mset (runners_listed d) = mset (runners d)" "sorted (map rn_CreatedAt (runners_listed d))"
  by (simp_all add: runners_listed_def)

theorem runsListHandler_page:
  assumes "solo (rd_env D)"
  shows "run_state (runsListHandler D req) w =
    (write_json 200 (encode_list \<lparr>rl_Runs = map (runsToSummary D)
       (take (nat (runsParseIntParam req ''limit'' 50)) (drop (nat (runsParseIntParam req ''offset'' 0)) (runs_listed (db w))))\<rparr>),
     w\<lparr>tick := Suc (tick w)\<rparr>)"
proof -
  have "0 \<le> runsParseIntParam req ''limit'' 50" "0 \<le> runsParseIntParam req ''offset'' 0"
    using runsParseIntParam_range [of 50] runsParseIntParam_range [of 0] by (simp_all add: int64_max_def)
  with assms show ?thesis
    by (simp add: runsListHandler_def ListRuns_def run_query_solo runs_page_def runsWriteJSON_def)
qed

definition sample_api :: RunsDeps where
  "sample_api =
     \<lparr>rd_ResolveRef = \<lambda>_ _. Inr ''abc'', rd_FetchWorkflow = \<lambda>_ _ _. Inr ''on: push'', rd_act = sample_act,
      rd_env = sample_env, rd_Notifier = True, rd_TriggeredBy = '''', rd_uuid_string = \<lambda>_. ''id'',
      rd_uuid_parse = \<lambda>_. Some 1, rd_invalid_text = \<lambda>_. ''invalid''\<rparr>"

definition no_request :: HttpRequest where
  "no_request = \<lparr>hr_Header = [], hr_Query = [], hr_Param = [], hr_Body = [], hr_BodyBroken = False\<rparr>"

subsection \<open>Runners\<close>

lemma insort_key_map:
  "(\<And>x. k (g x) = k x) \<Longrightarrow> insort_key k (g x) (map g xs) = map g (insort_key k x xs)"
  by (induction xs) auto

lemma sort_key_map: "(\<And>x. k (g x) = k x) \<Longrightarrow> sort_key k (map g xs) = map g (sort_key k xs)"
  by (induction xs) (auto simp: insort_key_map)

text \<open>
  Tokens stay in the database. GET /runners answers the same for any two databases whose
  runners differ in their auth tokens only, and that list rows of one time in the same order.
\<close>

theorem listRunners_hides_tokens:
  assumes "solo (rd_env D)" and "runners (db w') = map (\<lambda>r. r\<lparr>rn_AuthToken := tok r\<rparr>) (runners (db w))"
    and "row_order (db w') = row_order (db w)"
  shows "fst (run_state (listRunnersHandler D) w') = fst (run_state (listRunnersHandler D) w)"
proof -
  have "runners_listed (db w') = map (\<lambda>r. r\<lparr>rn_AuthToken := tok r\<rparr>) (runners_listed (db w))"
    unfolding runners_listed_def assms(2,3) by (subst sort_key_map, simp, rule sort_key_map) simp
  with assms(1) show ?thesis
    by (simp add: listRunnersHandler_def ListRunners_def run_query_solo comp_def toRunnerResponse_def)
qed

subsection \<open>A concrete request\<close>

definition sample_create :: HttpRequest where
  "sample_create = no_request\<lparr>hr_Body := Marshal (string_object
     [(''repo'', ''acme/app''), (''ref'', ''main''), (''workflow_path'', ''ci.yml'')])\<rparr>"

lemma sample_create_decoded:
  "decode_first decode_create zero_create (hr_Body sample_create) =
     Some \<lparr>rc_Repo = ''acme/app'', rc_Ref = ''main'', rc_WorkflowPath = ''ci.yml''\<rparr>"
proof -
  have c: "coerce_utf8 ''repo'' = ''repo''" "coerce_utf8 ''ref'' = ''ref''" "coerce_utf8 ''workflow_path'' = ''workflow_path''"
    "coerce_utf8 ''acme/app'' = ''acme/app''" "coerce_utf8 ''main'' = ''main''" "coerce_utf8 ''ci.yml'' = ''ci.yml''"
    by (rule coerce_ascii, simp add: char_code_def)+
  have "json_parse (hr_Body sample_create) = Some (JObject
      [(''repo'', JString ''acme/app''), (''ref'', JString ''main''), (''workflow_path'', JString ''ci.yml'')])"
    by (simp add: sample_create_def json_parse_string_object c del: Marshal.simps) (simp add: string_object_def)
  then show ?thesis
    by (simp add: decode_first_object Unmarshal_def decode_create_def decode_struct_def find_field_def decode_string_def zero_create_def)
qed

lemma sample_create_planned:
  "case run_state (Plan sample_act sample_env
      \<lparr>pi_Repo = ''acme/app'', pi_Ref = ''main'', pi_SHA = ''abc'', pi_EventName = ''manual'',
       pi_EventPayload = Some ''{}'', pi_TriggeredBy = ''manual'', pi_WorkflowYAML = ''on: push''\<rparr>) (world_with (db_with [])) of
      (Inr r, w') \<Rightarrow> True | _ \<Rightarrow> False"
  by code_simp

lemma sample_created: "rp_Status (fst (run_state (runsCreateHandler sample_api sample_create) (world_with (db_with [])))) = 201"
proof -
  obtain res w' where "run_state (Plan sample_act sample_env
      \<lparr>pi_Repo = ''acme/app'', pi_Ref = ''main'', pi_SHA = ''abc'', pi_EventName = ''manual'',
       pi_EventPayload = Some ''{}'', pi_TriggeredBy = ''manual'', pi_WorkflowYAML = ''on: push''\<rparr>)
      (world_with (db_with [])) = (Inr res, w')"
    using sample_create_planned by (auto split: prod.splits sum.splits)
  with sample_create_decoded show ?thesis
    by (simp add: runsCreateHandler_def sample_api_def runsRepoPattern_def create_input_def triggeredBy_def runsWriteJSON_def split_beta)
qed

theorem runsCreateHandler_created_witness:
  "\<exists>reply w' run. run_state (runsCreateHandler sample_api sample_create) (world_with (db_with [])) = (reply, w') \<and>
     workflow_runs (db w') = [sample_run, run] \<and> run_SHA run = ''abc'' \<and> run_Repo run = ''acme/app''"
proof -
  let ?w = "world_with (db_with [])"
  obtain reply w' where run: "run_state (runsCreateHandler sample_api sample_create) ?w = (reply, w')" by fastforce
  then have "rp_Status reply = 201" using sample_created by simp
  from runsCreateHandler_created [OF _ run this] sample_create_decoded run show ?thesis
    by (auto simp: sample_api_def world_with_def db_with_def)
qed

end
