(* ===== verification/Api_Logs.thy ===== *)
theory Api_Logs
  imports Http_Server Stores Sample Github_Client
begin

text \<open>
  \<open>internal/api/logs.go\<close>: the live log stream of a job (server-sent events) and the whole
  log as text.

  What happens while a stream is open is a list of events: a chunk published by another
  handler of the process, the handler taking what its channel holds, a tick of its ticker,
  the end of the request. What is written is a list of messages; \<open>wr n\<close> says whether the
  \<open>n\<close>-th message can be written. A message that fails is taken to be lost whole.
\<close>

record LogsDeps =
  lg_env :: env
  lg_uuid_parse :: "string \<Rightarrow> uuid option"
  lg_flusher :: bool

definition logsTerminalJobStatuses :: "string list" where
  "logsTerminalJobStatuses = [''success'', ''failure'', ''skipped'', ''cancelled'']"

subsection \<open>Request\<close>

definition logsParseJobID :: "LogsDeps \<Rightarrow> HttpRequest \<Rightarrow> (Reply + uuid)" where
  "logsParseJobID D req =
     (case lg_uuid_parse D (param_get (hr_Param req) ''id'') of
        None \<Rightarrow> Inl (http_Error ''invalid job id'' 400)
      | Some jid \<Rightarrow> Inr jid)"

definition logsGetJob :: "LogsDeps \<Rightarrow> uuid \<Rightarrow> (world, Reply + Job) state" where
  "logsGetJob D jid = do {
     r \<leftarrow> GetJob (lg_env D) jid;
     case r of
       Inl e \<Rightarrow> if e = ErrNoRows then ret (Inl (http_Error ''job not found'' 404))
                else ret (Inl (http_Error ''internal error'' 500))
     | Inr job \<Rightarrow> ret (Inr job)
   }"

definition logsEffectiveStartSeq :: "HttpRequest \<Rightarrow> (Reply + int)" where
  "logsEffectiveStartSeq req =
     (let lastEventID = param_get (hr_Header req) ''Last-Event-ID'' in
      if lastEventID \<noteq> '''' then
        (case ParseInt (TrimSpace lastEventID) of
           None \<Rightarrow> Inl (http_Error ''invalid Last-Event-ID'' 400)
         | Some seq \<Rightarrow> Inr (wrap64 (seq + 1)))
      else
        let fromSeq = param_get (hr_Query req) ''from_seq'' in
        if fromSeq \<noteq> '''' then
          (case ParseInt (TrimSpace fromSeq) of
             None \<Rightarrow> Inl (http_Error ''invalid from_seq'' 400)
           | Some seq \<Rightarrow> Inr seq)
        else Inr 0)"

subsection \<open>Messages\<close>

datatype message = Comment string | LogEvent Chunk | EndEvent string

definition newline :: char where
  "newline = CHR 0x0A"

text \<open>The lines of a chunk, without the empty one behind a final newline.\<close>

definition chunk_lines :: "bytes \<Rightarrow> string list" where
  "chunk_lines dat =
     (let lines = Split newline dat in
      if length lines > 1 \<and> last lines = '''' then butlast lines else lines)"

definition logsWriteChunkEvent :: "Chunk \<Rightarrow> bytes" where
  "logsWriteChunkEvent c =
     ''id: '' @ Itoa (c_Seq c) @ [newline] @ ''event: log'' @ [newline] @
     concat (map (\<lambda>line. ''data: '' @ line @ [newline]) (chunk_lines (elems (c_Data c)))) @ [newline]"

definition logsWriteComment :: "string \<Rightarrow> bytes" where
  "logsWriteComment t = '': '' @ t @ [newline, newline]"

definition logsWriteEnd :: "string \<Rightarrow> bytes" where
  "logsWriteEnd status =
     ''event: end'' @ [newline] @ ''data: '' @ Marshal (string_object [(''status'', status)]) @ [newline, newline]"

fun render :: "message \<Rightarrow> bytes" where
  "render (Comment t) = logsWriteComment t"
| "render (LogEvent c) = logsWriteChunkEvent c"
| "render (EndEvent st) = logsWriteEnd st"

text \<open>The state of a stream: the sequence number delivered last and the messages written.\<close>

type_synonym stream = "int \<times> message list"

definition write_msg :: "(nat \<Rightarrow> bool) \<Rightarrow> message \<Rightarrow> message list \<Rightarrow> message list option" where
  "write_msg wr m out = (if wr (length out) then Some (out @ [m]) else None)"

text \<open>The loop over replayed chunks; the flag tells that every write went through.\<close>

fun send_chunks :: "(nat \<Rightarrow> bool) \<Rightarrow> Chunk list \<Rightarrow> stream \<Rightarrow> bool \<times> stream" where
  "send_chunks wr [] s = (True, s)"
| "send_chunks wr (c # cs) (lastSeq, out) =
     (case write_msg wr (LogEvent c) out of
        None \<Rightarrow> (False, (lastSeq, out))
      | Some out' \<Rightarrow> send_chunks wr cs (c_Seq c, out'))"

text \<open>The loop over chunks from the channel: what was delivered already is dropped.\<close>

fun send_newer :: "(nat \<Rightarrow> bool) \<Rightarrow> Chunk list \<Rightarrow> stream \<Rightarrow> bool \<times> stream" where
  "send_newer wr [] s = (True, s)"
| "send_newer wr (c # cs) (lastSeq, out) =
     (if c_Seq c > lastSeq then
        (case write_msg wr (LogEvent c) out of
           None \<Rightarrow> (False, (lastSeq, out))
         | Some out' \<Rightarrow> send_newer wr cs (c_Seq c, out'))
      else send_newer wr cs (lastSeq, out))"

subsection \<open>The channel\<close>

datatype received = Received Chunk | Closed | Blocked

text \<open>A receive: from an open channel, or what a closed one still holds.\<close>

definition open_buffer :: "uuid \<Rightarrow> nat \<Rightarrow> world \<Rightarrow> Chunk list option" where
  "open_buffer jid ch w = map_option sub_buffer (find (\<lambda>s. sub_chan s = ch) (subs_of jid (log_subs w)))"

definition closed_buffer :: "nat \<Rightarrow> world \<Rightarrow> Chunk list" where
  "closed_buffer ch w = (case find (\<lambda>s. sub_chan s = ch) (closed_subs w) of None \<Rightarrow> [] | Some s \<Rightarrow> sub_buffer s)"

definition set_buffer :: "nat \<Rightarrow> Chunk list \<Rightarrow> subscriber \<Rightarrow> subscriber" where
  "set_buffer ch b s = (if sub_chan s = ch then s\<lparr>sub_buffer := b\<rparr> else s)"

definition take_from :: "uuid \<Rightarrow> nat \<Rightarrow> Chunk list \<Rightarrow> world \<Rightarrow> world" where
  "take_from jid ch b w =
     w\<lparr>log_subs := map (\<lambda>e. if fst e = jid then (jid, map (set_buffer ch b) (snd e)) else e) (log_subs w),
       closed_subs := map (set_buffer ch b) (closed_subs w)\<rparr>"

definition receive :: "uuid \<Rightarrow> nat \<Rightarrow> (world, received) state" where
  "receive jid ch = State (\<lambda>w.
     case open_buffer jid ch w of
       Some (c # b) \<Rightarrow> (Received c, take_from jid ch b w)
     | Some [] \<Rightarrow> (Blocked, w)
     | None \<Rightarrow> (case closed_buffer ch w of
                  c # b \<Rightarrow> (Received c, take_from jid ch b w)
                | [] \<Rightarrow> (Closed, w)))"

text \<open>The drain loop: everything the channel holds at once.\<close>

definition receive_all :: "uuid \<Rightarrow> nat \<Rightarrow> (world, Chunk list) state" where
  "receive_all jid ch = State (\<lambda>w.
     (case open_buffer jid ch w of Some b \<Rightarrow> b | None \<Rightarrow> closed_buffer ch w, take_from jid ch [] w))"

subsection \<open>The stream\<close>

text \<open>\<open>done\<close> of the result is also set when a write failed: the caller returns in both cases.\<close>

definition logsMaybeFinish ::
    "LogsDeps \<Rightarrow> (nat \<Rightarrow> bool) \<Rightarrow> uuid \<Rightarrow> string \<Rightarrow> nat \<Rightarrow> stream \<Rightarrow> (world, bool \<times> stream) state" where
  "logsMaybeFinish D wr jobID status ch s =
     (if status \<notin> set logsTerminalJobStatuses then ret (False, s)
      else do {
        buffered \<leftarrow> receive_all jobID ch;
        case send_newer wr buffered s of
          (False, s1) \<Rightarrow> ret (True, s1)
        | (True, s1) \<Rightarrow> do {
            stragglers \<leftarrow> ReplayFrom (lg_env D) jobID (wrap64 (fst s1 + 1));
            case (case stragglers of Inl e \<Rightarrow> (True, s1) | Inr cs \<Rightarrow> send_chunks wr cs s1) of
              (False, s2) \<Rightarrow> ret (True, s2)
            | (True, s2) \<Rightarrow>
                (case write_msg wr (EndEvent status) (snd s2) of
                   None \<Rightarrow> ret (True, s2)
                 | Some out \<Rightarrow> ret (True, (fst s2, out)))
          }
      })"

definition logsCurrentJobStatus :: "LogsDeps \<Rightarrow> uuid \<Rightarrow> (world, store_error + string) state" where
  "logsCurrentJobStatus D jobID = do {
     r \<leftarrow> GetJob (lg_env D) jobID;
     case r of Inl e \<Rightarrow> ret (Inl e) | Inr job \<Rightarrow> ret (Inr (j_Status job))
   }"

datatype happening = Published Chunk | Receive | Tick | Gone

text \<open>The body of the loop for one event; the flag tells that the handler returns.\<close>

fun sse_step :: "LogsDeps \<Rightarrow> (nat \<Rightarrow> bool) \<Rightarrow> uuid \<Rightarrow> nat \<Rightarrow> happening \<Rightarrow> stream \<Rightarrow> (world, bool \<times> stream) state" where
  "sse_step D wr jobID ch (Published c) s = do { Publish c; ret (False, s) }"
| "sse_step D wr jobID ch Receive s = do {
     r \<leftarrow> receive jobID ch;
     case r of
       Blocked \<Rightarrow> ret (False, s)
     | Closed \<Rightarrow> do {
         resynced \<leftarrow> ReplayFrom (lg_env D) jobID (wrap64 (fst s + 1));
         case resynced of
           Inl e \<Rightarrow> ret (True, s)
         | Inr cs \<Rightarrow> ret (True, snd (send_chunks wr cs s))
       }
     | Received c \<Rightarrow>
         if c_Seq c \<le> fst s then ret (False, s)
         else (case write_msg wr (LogEvent c) (snd s) of
                 None \<Rightarrow> ret (True, s)
               | Some out \<Rightarrow> ret (False, (c_Seq c, out)))
   }"
| "sse_step D wr jobID ch Tick s =
     (case write_msg wr (Comment ''keep-alive'') (snd s) of
        None \<Rightarrow> ret (True, s)
      | Some out \<Rightarrow> do {
          st \<leftarrow> logsCurrentJobStatus D jobID;
          case st of
            Inl e \<Rightarrow> ret (False, (fst s, out))
          | Inr status \<Rightarrow> logsMaybeFinish D wr jobID status ch (fst s, out)
        })"
| "sse_step D wr jobID ch Gone s = ret (True, s)"

fun sse_loop :: "LogsDeps \<Rightarrow> (nat \<Rightarrow> bool) \<Rightarrow> uuid \<Rightarrow> nat \<Rightarrow> happening list \<Rightarrow> stream \<Rightarrow> (world, bool \<times> stream) state" where
  "sse_loop D wr jobID ch [] s = ret (False, s)"
| "sse_loop D wr jobID ch (e # es) s = do {
     r \<leftarrow> sse_step D wr jobID ch e s;
     case r of (True, s') \<Rightarrow> ret (True, s') | (False, s') \<Rightarrow> sse_loop D wr jobID ch es s'
   }"

text \<open>Chunks another handler publishes between two steps of this one.\<close>

fun publish_all :: "Chunk list \<Rightarrow> (world, unit) state" where
  "publish_all [] = ret ()"
| "publish_all (c # cs) = do { Publish c; publish_all cs }"

text \<open>The replay of the log and the loop behind it; the flag tells that the handler returns.\<close>

definition sse_body ::
    "LogsDeps \<Rightarrow> (nat \<Rightarrow> bool) \<Rightarrow> uuid \<Rightarrow> string \<Rightarrow> int \<Rightarrow> nat \<Rightarrow> happening list \<Rightarrow> message list \<Rightarrow> (world, bool \<times> stream) state" where
  "sse_body D wr jobID status startSeq ch es out = do {
     chunks \<leftarrow> ReplayFrom (lg_env D) jobID startSeq;
     case chunks of
       Inl e \<Rightarrow> ret (True, (wrap64 (startSeq - 1), out))
     | Inr cs \<Rightarrow>
         (case send_chunks wr cs (wrap64 (startSeq - 1), out) of
            (False, s) \<Rightarrow> ret (True, s)
          | (True, s) \<Rightarrow> do {
              m \<leftarrow> logsMaybeFinish D wr jobID status ch s;
              case m of (True, s') \<Rightarrow> ret (True, s') | (False, s') \<Rightarrow> sse_loop D wr jobID ch es s'
            })
   }"

text \<open>
  From the subscription on. \<open>mid\<close> is what is published before the log is replayed. The flag
  of the result tells whether the handler has returned; then the subscription is cancelled.
\<close>

definition sse_stream ::
    "LogsDeps \<Rightarrow> (nat \<Rightarrow> bool) \<Rightarrow> uuid \<Rightarrow> string \<Rightarrow> int \<Rightarrow> Chunk list \<Rightarrow> happening list \<Rightarrow> (world, bool \<times> message list) state" where
  "sse_stream D wr jobID status startSeq mid es =
     (case write_msg wr (Comment ''connected'') [] of
        None \<Rightarrow> ret (True, [])
      | Some out \<Rightarrow> do {
          ch \<leftarrow> Subscribe jobID;
          publish_all mid;
          r \<leftarrow> sse_body D wr jobID status startSeq ch es out;
          (if fst r then cancel_sub jobID ch else ret ());
          ret (fst r, snd (snd r))
        })"

definition logsSSEHandler ::
    "LogsDeps \<Rightarrow> (nat \<Rightarrow> bool) \<Rightarrow> HttpRequest \<Rightarrow> Chunk list \<Rightarrow> happening list \<Rightarrow> (world, Reply + bool \<times> message list) state" where
  "logsSSEHandler D wr req mid es =
     (case logsParseJobID D req of
        Inl reply \<Rightarrow> ret (Inl reply)
      | Inr jobID \<Rightarrow> do {
          g \<leftarrow> logsGetJob D jobID;
          case g of
            Inl reply \<Rightarrow> ret (Inl reply)
          | Inr job \<Rightarrow>
              (case logsEffectiveStartSeq req of
                 Inl reply \<Rightarrow> ret (Inl reply)
               | Inr startSeq \<Rightarrow>
                   if \<not> lg_flusher D then ret (Inl (http_Error ''streaming unsupported'' 500))
                   else do { r \<leftarrow> sse_stream D wr jobID (j_Status job) startSeq mid es; ret (Inr r) })
        })"

subsection \<open>The whole log\<close>

definition logsTxtHandler :: "LogsDeps \<Rightarrow> HttpRequest \<Rightarrow> (world, Reply) state" where
  "logsTxtHandler D req =
     (case logsParseJobID D req of
        Inl reply \<Rightarrow> ret reply
      | Inr jobID \<Rightarrow> do {
          g \<leftarrow> logsGetJob D jobID;
          case g of
            Inl reply \<Rightarrow> ret reply
          | Inr job \<Rightarrow> do {
              chunks \<leftarrow> ReplayFrom (lg_env D) jobID 0;
              case chunks of
                Inl e \<Rightarrow> ret (http_Error ''internal error'' 500)
              | Inr cs \<Rightarrow> ret \<lparr>rp_Status = 200, rp_Type = ''text/plain; charset=utf-8'',
                               rp_Body = concat (map (\<lambda>c. elems (c_Data c)) cs)\<rparr>
            }
        })"

subsection \<open>What every relation of the stores gives\<close>

lemma db_receive:
  "db (snd (run_state (receive jid ch) w)) = db w" "db (snd (run_state (receive_all jid ch) w)) = db w"
  by (auto simp: receive_def receive_all_def take_from_def split: option.splits list.splits)

context dispatch_rel
begin

lemma guar_receive: "guar (receive jid ch)" "guar (receive_all jid ch)"
  by (simp_all add: guar_def state_io_rel_def db_receive R_refl)

lemma guar_logsMaybeFinish: "rely (lg_env D) \<Longrightarrow> guar (logsMaybeFinish D wr jobID status ch s)"
  unfolding logsMaybeFinish_def
  by (auto intro!: guar_rules guar_store guar_receive split: prod.split bool.split option.split)

lemma guar_sse_step: "rely (lg_env D) \<Longrightarrow> guar (sse_step D wr jobID ch e s)"
  by (cases e) (auto simp: logsCurrentJobStatus_def intro!: guar_rules guar_store guar_receive guar_logsMaybeFinish
      split: option.split received.split sum.split)

lemma guar_sse_loop: "rely (lg_env D) \<Longrightarrow> guar (sse_loop D wr jobID ch es s)"
  by (induction es arbitrary: s) (auto intro!: guar_rules guar_sse_step split: prod.split bool.split)

lemma guar_publish_all: "guar (publish_all cs)"
  by (induction cs) (auto intro!: guar_rules guar_store)

lemma guar_sse_stream: "rely (lg_env D) \<Longrightarrow> guar (sse_stream D wr jobID status startSeq mid es)"
  unfolding sse_stream_def sse_body_def
  by (auto intro!: guar_rules guar_store guar_publish_all guar_logsMaybeFinish guar_sse_loop
      split: option.split prod.split bool.split sum.split)

lemma guar_logs_handlers:
  assumes "rely (lg_env D)"
  shows "guar (logsSSEHandler D wr req mid es)" "guar (logsTxtHandler D req)"
  unfolding logsSSEHandler_def logsTxtHandler_def logsGetJob_def
  by (intro guar_rules guar_store guar_sse_stream assms)+

end

subsection \<open>Order of the chunks sent\<close>

fun logged :: "message list \<Rightarrow> Chunk list" where
  "logged [] = []"
| "logged (LogEvent c # ms) = c # logged ms"
| "logged (_ # ms) = logged ms"

lemma logged_append [simp]: "logged (ms @ ms') = logged ms @ logged ms'"
  by (induction ms rule: logged.induct) auto

text \<open>
  The keys of the tables are unique and no sequence number is the largest of int64, in the
  table and in the buffers: the number behind the last one delivered does not wrap around.
\<close>

definition logs_ok :: "database \<Rightarrow> bool" where
  "logs_ok d \<longleftrightarrow> distinct (map (\<lambda>r. (lc_LeaseID r, lc_Seq r)) (log_chunks d)) \<and> distinct (map j_ID (jobs d)) \<and>
     (\<forall>r\<in>set (log_chunks d). lc_Seq r < int64_max)"

definition buffers_ok :: "world \<Rightarrow> bool" where
  "buffers_ok w \<longleftrightarrow>
     (\<forall>e\<in>set (log_subs w). \<forall>s\<in>set (snd e). \<forall>c\<in>set (sub_buffer s). c_Seq c < int64_max) \<and>
     (\<forall>s\<in>set (closed_subs w). \<forall>c\<in>set (sub_buffer s). c_Seq c < int64_max)"

definition in_order :: "int \<Rightarrow> stream \<Rightarrow> bool" where
  "in_order start s \<longleftrightarrow>
     sorted_wrt (<) (map c_Seq (logged (snd s))) \<and> (\<forall>c\<in>set (logged (snd s)). start \<le> c_Seq c \<and> c_Seq c \<le> fst s) \<and>
     start - 1 \<le> fst s \<and> fst s < int64_max \<and> int64_min \<le> fst s"

lemma in_order_log:
  assumes "in_order start (lastSeq, out)" and "lastSeq < c_Seq c" and "c_Seq c < int64_max"
  shows "in_order start (c_Seq c, out @ [LogEvent c])"
  using assms by (fastforce simp: in_order_def sorted_wrt_append)

lemma in_order_other: "in_order start (lastSeq, out) \<Longrightarrow> logged [m] = [] \<Longrightarrow> in_order start (lastSeq, out @ [m])"
  by (simp add: in_order_def)

lemma in_order_next: "in_order start s \<Longrightarrow> wrap64 (fst s + 1) = fst s + 1"
  by (rule wrap64_id) (simp add: in_order_def in_int64_def)

lemma send_newer_order:
  "in_order start s \<Longrightarrow> \<forall>c\<in>set cs. c_Seq c < int64_max \<Longrightarrow> in_order start (snd (send_newer wr cs s))"
  by (induction wr cs s rule: send_newer.induct) (auto simp: write_msg_def in_order_log)

lemma send_chunks_order:
  assumes "in_order start s" and "sorted_wrt (<) (map c_Seq cs)" and "\<forall>c\<in>set cs. fst s < c_Seq c \<and> c_Seq c < int64_max"
  shows "in_order start (snd (send_chunks wr cs s))"
  using assms by (induction wr cs s rule: send_chunks.induct) (auto simp: write_msg_def in_order_log)

lemma strict_sort_key: "distinct (map k xs) \<Longrightarrow> sorted_wrt (<) (map k (sort_key k xs))"
  by (metis distinct_map distinct_sort set_sort sorted_sort_key strict_sorted_iff)

lemma replay_single:
  assumes "distinct (map j_ID (jobs d))"
  shows "concat (map f (filter (\<lambda>j. j_ID j = jid) (jobs d))) =
    (case find (\<lambda>j. j_ID j = jid) (jobs d) of None \<Rightarrow> [] | Some j \<Rightarrow> f j)"
proof -
  have "distinct (map j_ID js) \<Longrightarrow>
      filter (\<lambda>j. j_ID j = jid) js = (case find (\<lambda>j. j_ID j = jid) js of None \<Rightarrow> [] | Some j \<Rightarrow> [j])" for js
    by (induction js) (auto simp: filter_empty_conv rev_image_eqI split: option.splits dest!: find_Some_set)
  from this [OF assms] show ?thesis by (auto split: option.splits)
qed

lemma replay_order:
  assumes "logs_ok d"
  shows "sorted_wrt (<) (map c_Seq (replay jid start d))"
    and "\<forall>c\<in>set (replay jid start d). start \<le> c_Seq c \<and> c_Seq c < int64_max"
proof -
  let ?rows = "concat (map (\<lambda>j. filter (\<lambda>lc. j_LeaseID j = Some (lc_LeaseID lc) \<and> start \<le> lc_Seq lc) (log_chunks d))
         (filter (\<lambda>j. j_ID j = jid) (jobs d)))"
  have inj: "inj_on lc_Seq {r \<in> set (log_chunks d). j_LeaseID j = Some (lc_LeaseID r) \<and> start \<le> lc_Seq r}" for j
    using assms by (auto simp: logs_ok_def distinct_map inj_on_def)
  have "distinct (log_chunks d)" using assms by (auto simp: logs_ok_def distinct_map)
  with inj have "distinct (map lc_Seq ?rows)"
    using assms by (subst replay_single) (auto simp: logs_ok_def distinct_map split: option.splits)
  from strict_sort_key [OF this] show "sorted_wrt (<) (map c_Seq (replay jid start d))"
    by (simp add: replay_def scan_chunk_def comp_def)
  show "\<forall>c\<in>set (replay jid start d). start \<le> c_Seq c \<and> c_Seq c < int64_max"
    using assms by (auto simp: replay_def scan_chunk_def logs_ok_def)
qed

text \<open>What the other sessions keep, and with them every step of the handler.\<close>

definition keeps_logs :: "env \<Rightarrow> bool" where
  "keeps_logs E \<longleftrightarrow> (\<forall>n d. logs_ok d \<longrightarrow> logs_ok (other E n d))"

definition logs_world :: "world \<Rightarrow> bool" where
  "logs_world w \<longleftrightarrow> logs_ok (db w) \<and> buffers_ok w"

lemma run_ReplayFrom:
  assumes "keeps_logs E" and "logs_world w" and "run_state (ReplayFrom E jid start) w = (r, w')"
  shows "logs_world w' \<and> (\<forall>cs. r = Inr cs \<longrightarrow> sorted_wrt (<) (map c_Seq cs) \<and>
    (\<forall>c\<in>set cs. start \<le> c_Seq c \<and> c_Seq c < int64_max))"
proof -
  let ?d = "other E (tick w) (db w)"
  have d: "logs_ok ?d" using assms(1,2) by (simp add: keeps_logs_def logs_world_def)
  have "w' = w\<lparr>db := ?d, tick := Suc (tick w)\<rparr>" "\<forall>cs. r = Inr cs \<longrightarrow> cs = replay jid start ?d"
    using assms(3) by (auto simp: ReplayFrom_def query_def statement_def Let_def split: if_splits)
  with d replay_order [OF d, of jid start] assms(2) show ?thesis by (auto simp: logs_world_def buffers_ok_def)
qed

lemma run_GetJob_logs:
  assumes "keeps_logs E" and "logs_world w" and "run_state (GetJob E jid) w = (r, w')"
  shows "logs_world w'"
  using assms by (auto simp: GetJob_def query_def statement_def Let_def logs_world_def keeps_logs_def buffers_ok_def split: if_splits)

lemma buffers_ok_take: "buffers_ok w \<Longrightarrow> \<forall>c\<in>set b. c_Seq c < int64_max \<Longrightarrow> buffers_ok (take_from jid ch b w)"
  by (auto simp: buffers_ok_def take_from_def set_buffer_def)

lemma open_buffer_ok: "buffers_ok w \<Longrightarrow> open_buffer jid ch w = Some b \<Longrightarrow> c \<in> set b \<Longrightarrow> c_Seq c < int64_max"
  by (fastforce simp: buffers_ok_def open_buffer_def subs_of_def map_get_def dest!: find_Some_set map_of_SomeD split: option.splits)

lemma closed_buffer_ok: "buffers_ok w \<Longrightarrow> c \<in> set (closed_buffer ch w) \<Longrightarrow> c_Seq c < int64_max"
  by (cases "find (\<lambda>s. sub_chan s = ch) (closed_subs w)") (auto simp: buffers_ok_def closed_buffer_def dest: find_Some_set)

lemma db_take_from [simp]: "db (take_from jid ch b w) = db w"
  by (simp add: take_from_def)

lemma run_receive:
  assumes "logs_world w" and "run_state (receive jid ch) w = (r, w')"
  shows "logs_world w' \<and> (\<forall>c. r = Received c \<longrightarrow> c_Seq c < int64_max)"
  using assms open_buffer_ok [of w jid ch] closed_buffer_ok [of w _ ch]
  by (auto simp: receive_def logs_world_def intro!: buffers_ok_take split: option.splits list.splits)

lemma run_receive_all:
  assumes "logs_world w" and "run_state (receive_all jid ch) w = (cs, w')"
  shows "logs_world w' \<and> (\<forall>c\<in>set cs. c_Seq c < int64_max)"
  using assms open_buffer_ok [of w jid ch] closed_buffer_ok [of w _ ch]
  by (auto simp: receive_all_def logs_world_def intro!: buffers_ok_take split: option.splits)

lemma logs_world_publish:
  assumes "logs_world w" and "c_Seq c < int64_max"
  shows "logs_world (publish c w)"
proof (cases "map_of (log_subs w) (c_JobRowID c)")
  case (Some ss)
  have "\<forall>s\<in>set ss. \<forall>c\<in>set (sub_buffer s). c_Seq c < int64_max"
    using assms(1) map_of_SomeD [OF Some] by (fastforce simp: logs_world_def buffers_ok_def)
  with Some assms show ?thesis
    by (fastforce simp: logs_world_def buffers_ok_def publish_def deliver_spec dest!: set_subs_elem)
qed (use assms in \<open>simp add: publish_def\<close>)

lemma logs_world_Subscribe:
  assumes "logs_world w"
  shows "logs_world (snd (run_state (Subscribe jid) w))"
proof -
  have "\<forall>s\<in>set (subs_of jid (log_subs w)). \<forall>c\<in>set (sub_buffer s). c_Seq c < int64_max"
  proof (cases "map_of (log_subs w) jid")
    case (Some ss)
    with assms map_of_SomeD [OF Some] show ?thesis
      by (fastforce simp: logs_world_def buffers_ok_def subs_of_def map_get_def)
  qed (simp add: subs_of_def map_get_def)
  with assms show ?thesis
    by (auto simp: logs_world_def buffers_ok_def Subscribe_def dest!: set_subs_elem)
qed

lemma run_logsMaybeFinish:
  assumes "keeps_logs (lg_env D)" and "logs_world w" and "in_order start s"
    and "run_state (logsMaybeFinish D wr jobID status ch s) w = ((fin, s'), w')"
  shows "logs_world w' \<and> in_order start s'"
proof (cases "status \<in> set logsTerminalJobStatuses")
  case False
  with assms show ?thesis by (simp add: logsMaybeFinish_def)
next
  case True
  obtain bs w1 where bs: "run_state (receive_all jobID ch) w = (bs, w1)" by fastforce
  obtain ok s1 where s1: "send_newer wr bs s = (ok, s1)" by (metis surj_pair)
  have w1: "logs_world w1" "in_order start s1"
    using run_receive_all [OF assms(2) bs] send_newer_order [OF assms(3), of bs wr] s1 by auto
  obtain st w2 where st: "run_state (ReplayFrom (lg_env D) jobID (wrap64 (fst s1 + 1))) w1 = (st, w2)" by fastforce
  note rep = run_ReplayFrom [OF assms(1) w1(1) st]
  obtain ok2 s2 where s2: "(case st of Inl e \<Rightarrow> (True, s1) | Inr cs \<Rightarrow> send_chunks wr cs s1) = (ok2, s2)" by (metis surj_pair)
  have "in_order start s2"
  proof (cases st)
    case (Inr cs)
    with rep have "sorted_wrt (<) (map c_Seq cs)" "\<forall>c\<in>set cs. fst s1 < c_Seq c \<and> c_Seq c < int64_max"
      unfolding in_order_next [OF w1(2)] by auto
    from send_chunks_order [OF w1(2) this, of wr] s2 Inr show ?thesis by simp
  qed (use s2 w1 in simp)
  moreover have "in_order start (fst s2, snd s2 @ [EndEvent status])" if "in_order start s2"
    using that by (intro in_order_other) simp_all
  ultimately show ?thesis
    using assms(2-4) True bs s1 w1 st rep s2
    by (auto simp: logsMaybeFinish_def write_msg_def split: bool.splits if_splits)
qed

lemma run_sse_step:
  assumes "keeps_logs (lg_env D)" and "logs_world w" and "in_order start s"
    and "\<forall>c. e = Published c \<longrightarrow> c_Seq c < int64_max"
    and "run_state (sse_step D wr jobID ch e s) w = ((fin, s'), w')"
  shows "logs_world w' \<and> in_order start s'"
proof (cases e)
  case (Published c)
  with assms show ?thesis by (auto simp: Publish_def logs_world_publish)
next
  case Receive
  obtain r w1 where r: "run_state (receive jobID ch) w = (r, w1)" by fastforce
  note w1 = run_receive [OF assms(2) r]
  show ?thesis
  proof (cases r)
    case (Received c)
    with Receive assms(3,5) r w1 in_order_log [of start "fst s" "snd s" c] show ?thesis
      by (auto simp: write_msg_def split: if_splits)
  next
    case Closed
    obtain rs w2 where rs: "run_state (ReplayFrom (lg_env D) jobID (wrap64 (fst s + 1))) w1 = (rs, w2)" by fastforce
    note rep = run_ReplayFrom [OF assms(1) _ rs]
    show ?thesis
    proof (cases rs)
      case (Inr cs)
      with rep w1 have "sorted_wrt (<) (map c_Seq cs)" "\<forall>c\<in>set cs. fst s < c_Seq c \<and> c_Seq c < int64_max"
        unfolding in_order_next [OF assms(3)] by auto
      from send_chunks_order [OF assms(3) this, of wr] Inr Closed Receive assms(5) r w1 rs rep show ?thesis by auto
    qed (use Closed Receive assms r w1 rs rep in auto)
  next
    case Blocked
    with Receive assms r w1 show ?thesis by auto
  qed
next
  case Tick
  show ?thesis
  proof (cases "wr (length (snd s))")
    case True
    have o: "in_order start (fst s, snd s @ [Comment ''keep-alive''])"
      using assms(3) by (intro in_order_other) simp_all
    obtain g w1 where g: "run_state (GetJob (lg_env D) jobID) w = (g, w1)" by fastforce
    note w1 = run_GetJob_logs [OF assms(1,2) g]
    show ?thesis
    proof (cases g)
      case (Inr job)
      have "run_state (logsMaybeFinish D wr jobID (j_Status job) ch (fst s, snd s @ [Comment ''keep-alive''])) w1 = ((fin, s'), w')"
        using Tick True Inr g assms(5) by (simp add: write_msg_def logsCurrentJobStatus_def)
      from run_logsMaybeFinish [OF assms(1) w1 o this] show ?thesis .
    qed (use Tick True g assms(5) o w1 in \<open>auto simp: write_msg_def logsCurrentJobStatus_def\<close>)
  qed (use Tick assms in \<open>auto simp: write_msg_def\<close>)
qed (use assms in auto)

lemma run_sse_loop:
  assumes "keeps_logs (lg_env D)" and "\<forall>c. Published c \<in> set es \<longrightarrow> c_Seq c < int64_max"
    and "logs_world w" and "in_order start s" and "run_state (sse_loop D wr jobID ch es s) w = ((fin, s'), w')"
  shows "in_order start s'"
  using assms(2-5)
proof (induction es arbitrary: s w)
  case (Cons e es)
  obtain f s1 w1 where e: "run_state (sse_step D wr jobID ch e s) w = ((f, s1), w1)" by (metis surj_pair)
  have "logs_world w1 \<and> in_order start s1"
    by (rule run_sse_step [OF assms(1) Cons.prems(2,3) _ e]) (use Cons.prems(1) in auto)
  with Cons.IH [of w1 s1] Cons.prems e show ?case by (cases f) auto
qed simp

lemma run_publish_all:
  "logs_world w \<Longrightarrow> \<forall>c\<in>set cs. c_Seq c < int64_max \<Longrightarrow> logs_world (snd (run_state (publish_all cs) w))"
  by (induction cs arbitrary: w) (auto simp: Publish_def logs_world_publish)

lemma run_sse_body:
  assumes "keeps_logs (lg_env D)" and "logs_world w" and "\<forall>c. Published c \<in> set es \<longrightarrow> c_Seq c < int64_max"
    and "in_order startSeq (wrap64 (startSeq - 1), out)" and "wrap64 (startSeq - 1) = startSeq - 1"
    and "run_state (sse_body D wr jobID status startSeq ch es out) w = ((fin, s'), w')"
  shows "in_order startSeq s'"
proof -
  let ?s0 = "(wrap64 (startSeq - 1), out)"
  obtain cs w1 where cs: "run_state (ReplayFrom (lg_env D) jobID startSeq) w = (cs, w1)" by fastforce
  note rep = run_ReplayFrom [OF assms(1,2) cs]
  show ?thesis
  proof (cases cs)
    case (Inl e)
    with cs assms(4,6) show ?thesis by (auto simp: sse_body_def)
  next
    case (Inr chunks)
    obtain ok s1 where s1: "send_chunks wr chunks ?s0 = (ok, s1)" by (metis surj_pair)
    have "in_order startSeq (snd (send_chunks wr chunks ?s0))"
      by (rule send_chunks_order [OF assms(4)]) (use rep Inr assms(5) in auto)
    with s1 have o1: "in_order startSeq s1" by simp
    obtain f s2 w2 where m: "run_state (logsMaybeFinish D wr jobID status ch s1) w1 = ((f, s2), w2)" by (metis surj_pair)
    have m': "logs_world w2 \<and> in_order startSeq s2" using run_logsMaybeFinish [OF assms(1) _ o1 m] rep by blast
    obtain f' s3 w3 where l: "run_state (sse_loop D wr jobID ch es s2) w2 = ((f', s3), w3)" by (metis surj_pair)
    have o3: "in_order startSeq s3" using run_sse_loop [OF assms(1) assms(3) _ _ l] m' by blast
    show ?thesis
      using assms(6) Inr cs s1 o1 m m' l o3 by (cases ok; cases f) (auto simp: sse_body_def)
  qed
qed

text \<open>
  C24: a log stream never goes back. Whatever chunks are published while it is open, whatever
  the other sessions store, and whenever the client goes away or falls behind: the sequence
  numbers of the chunks it sends are strictly increasing, from the requested start on. So no
  chunk is sent twice, across replay, live delivery, resynchronisation and the final replay.
\<close>

theorem sse_never_goes_back:
  assumes "keeps_logs (lg_env D)" and "logs_world w"
    and "\<forall>c. c \<in> set mid \<or> Published c \<in> set es \<longrightarrow> c_Seq c < int64_max"
    and "int64_min < startSeq" and "startSeq \<le> int64_max"
    and "run_state (sse_stream D wr jobID status startSeq mid es) w = ((fin, out), w')"
  shows "sorted_wrt (<) (map c_Seq (logged out)) \<and> (\<forall>c\<in>set (logged out). startSeq \<le> c_Seq c)"
proof (cases "wr 0")
  case False
  with assms(6) show ?thesis by (simp add: sse_stream_def write_msg_def)
next
  case True
  let ?out0 = "[Comment ''connected'']"
  have wrap: "wrap64 (startSeq - 1) = startSeq - 1" using assms(4,5) by (intro wrap64_id) (simp add: in_int64_def)
  then have s0: "in_order startSeq (wrap64 (startSeq - 1), ?out0)" using assms(4,5) by (simp add: in_order_def)
  obtain ch w1 where ch: "run_state (Subscribe jobID) w = (ch, w1)" by fastforce
  have "logs_world w1" using logs_world_Subscribe [OF assms(2), of jobID] ch by simp
  then have w2: "logs_world (snd (run_state (publish_all mid) w1))" using assms(3) by (intro run_publish_all) auto
  obtain f s3 w3 where body: "run_state (sse_body D wr jobID status startSeq ch es ?out0) (snd (run_state (publish_all mid) w1)) = ((f, s3), w3)"
    by (metis surj_pair)
  have o: "in_order startSeq s3" using run_sse_body [OF assms(1) w2 _ s0 wrap body] assms(3) by blast
  have "out = snd s3"
    using assms(6) True ch body by (cases "run_state (publish_all mid) w1"; cases f) (auto simp: sse_stream_def write_msg_def cancel_sub_def)
  with o show ?thesis by (auto simp: in_order_def)
qed

subsection \<open>A concrete stream\<close>

definition sample_logs :: LogsDeps where
  "sample_logs = \<lparr>lg_env = sample_env, lg_uuid_parse = map_of [(''11'', 11)], lg_flusher = True\<rparr>"

definition sample_row :: "int \<Rightarrow> bytes \<Rightarrow> ChunkRow" where
  "sample_row n dat = \<lparr>lc_LeaseID = 5, lc_StepID = ''0'', lc_Seq = n, lc_Ts = 0, lc_Data = dat\<rparr>"

definition sample_log_world :: world where
  "sample_log_world = world_with
     ((db_with [(sample_job 11 ''build'' [])\<lparr>j_Status := ''success'', j_LeaseID := Some 5\<rparr>])
        \<lparr>log_chunks := [sample_row 2 ''two'', sample_row 1 ''one'']\<rparr>)"

definition sample_live :: Chunk where
  "sample_live = scan_chunk 11 (sample_row 2 ''two'')"

lemma sample_logs_world [simp]: "logs_world sample_log_world" "keeps_logs (lg_env sample_logs)"
  by (simp_all add: logs_world_def logs_ok_def buffers_ok_def keeps_logs_def sample_log_world_def sample_logs_def sample_row_def
      sample_env_def sample_defs int64_max_def)

lemma sample_streamed:
  "run_state (sse_stream sample_logs (\<lambda>_. True) 11 ''success'' 1 [sample_live] []) sample_log_world =
     ((True, [Comment ''connected'', LogEvent (scan_chunk 11 (sample_row 1 ''one'')), LogEvent sample_live, EndEvent ''success'']),
      sample_log_world\<lparr>tick := 3, closed_subs := [\<lparr>sub_chan = 0, sub_buffer = []\<rparr>]\<rparr>)"
  by code_simp

theorem sse_never_goes_back_witness:
  "\<exists>out w'. run_state (sse_stream sample_logs (\<lambda>_. True) 11 ''success'' 1 [sample_live] []) sample_log_world = ((True, out), w') \<and>
     map c_Seq (logged out) = [1, 2] \<and> sorted_wrt (<) (map c_Seq (logged out))"
  using sse_never_goes_back [OF sample_logs_world(2,1) _ _ _ sample_streamed] sample_streamed
  by (simp add: sample_live_def sample_row_def scan_chunk_def int64_max_def int64_min_def)

end
