(* ===== verification/Log_Stream.thy ===== *)
theory Log_Stream
  imports Api_Logs
begin

text \<open>
  What a client of the log stream (\<open>internal/api/logs.go\<close>) gets: the bridge from the replay to
  the live chunks leaves no gap, and the event-stream framing is undone by the interpretation
  the event-stream format prescribes.
\<close>

subsection \<open>What a channel holds\<close>

definition chan_holds :: "(Chunk \<Rightarrow> bool) \<Rightarrow> uuid \<Rightarrow> nat \<Rightarrow> world \<Rightarrow> bool" where
  "chan_holds P jid ch w \<longleftrightarrow>
     (\<forall>e\<in>set (log_subs w). \<forall>s\<in>set (snd e). sub_chan s = ch \<longrightarrow> fst e = jid \<and> (\<forall>c\<in>set (sub_buffer s). P c)) \<and>
     (\<forall>s\<in>set (closed_subs w). sub_chan s = ch \<longrightarrow> (\<forall>c\<in>set (sub_buffer s). P c))"

definition chans_made :: "world \<Rightarrow> bool" where
  "chans_made w \<longleftrightarrow> (\<forall>e\<in>set (log_subs w). \<forall>s\<in>set (snd e). sub_chan s < tick w) \<and> (\<forall>s\<in>set (closed_subs w). sub_chan s < tick w)"

lemma subs_of_elem: "s \<in> set (subs_of k reg) \<Longrightarrow> \<exists>ss. (k, ss) \<in> set reg \<and> s \<in> set ss"
  by (cases "map_of reg k") (auto simp: subs_of_def map_get_def dest: map_of_SomeD)

lemma chan_holds_Subscribe:
  assumes "chans_made w"
  shows "chan_holds P jid (tick w) (snd (run_state (Subscribe jid) w))"
proof -
  have "\<forall>s\<in>set (subs_of jid (log_subs w)). sub_chan s \<noteq> tick w"
    using assms subs_of_elem [of _ jid "log_subs w"] by (fastforce simp: chans_made_def)
  with assms show ?thesis
    by (fastforce simp: chan_holds_def chans_made_def Subscribe_def dest!: set_subs_elem)
qed

lemma chan_holds_publish:
  assumes "chan_holds P jid ch w" and "c_JobRowID c = jid \<longrightarrow> P c"
  shows "chan_holds P jid ch (publish c w)"
proof (cases "map_of (log_subs w) (c_JobRowID c)")
  case (Some ss)
  have ss: "\<forall>s\<in>set ss. sub_chan s = ch \<longrightarrow> c_JobRowID c = jid \<and> (\<forall>c\<in>set (sub_buffer s). P c)"
    using assms(1) map_of_SomeD [OF Some] by (fastforce simp: chan_holds_def)
  then have "\<forall>s\<in>set (fst (deliver c ss)). sub_chan s = ch \<longrightarrow> c_JobRowID c = jid \<and> (\<forall>c\<in>set (sub_buffer s). P c)"
    using assms(2) by (auto simp: deliver_spec)
  moreover have "\<forall>s\<in>set (snd (deliver c ss)). sub_chan s = ch \<longrightarrow> (\<forall>c\<in>set (sub_buffer s). P c)"
    using ss by (auto simp: deliver_spec)
  ultimately show ?thesis
    using Some assms(1) by (fastforce simp: chan_holds_def publish_def split_beta dest!: set_subs_elem)
qed (use assms in \<open>simp add: publish_def\<close>)

lemma db_publish [simp]: "db (publish c w) = db w"
  by (simp add: publish_def split_beta split: option.splits)

lemma chan_holds_publish_all:
  "chan_holds P jid ch w \<Longrightarrow> \<forall>c\<in>set cs. c_JobRowID c = jid \<longrightarrow> P c \<Longrightarrow>
    chan_holds P jid ch (snd (run_state (publish_all cs) w)) \<and> db (snd (run_state (publish_all cs) w)) = db w"
  by (induction cs arbitrary: w) (auto simp: Publish_def chan_holds_publish)

lemma chan_holds_receive_all:
  assumes "chan_holds P jid ch w"
  shows "\<forall>c\<in>set (fst (run_state (receive_all jid ch) w)). P c"
proof (cases "open_buffer jid ch w")
  case None
  have "\<forall>c\<in>set (closed_buffer ch w). P c"
    using assms by (cases "find (\<lambda>s. sub_chan s = ch) (closed_subs w)") (auto simp: chan_holds_def closed_buffer_def dest!: find_Some_set)
  with None show ?thesis by (simp add: receive_all_def)
next
  case (Some b)
  then obtain s where s: "find (\<lambda>s. sub_chan s = ch) (subs_of jid (log_subs w)) = Some s" "b = sub_buffer s"
    by (auto simp: open_buffer_def)
  obtain ss where "(jid, ss) \<in> set (log_subs w)" "s \<in> set ss" "sub_chan s = ch"
    using subs_of_elem find_Some_set [OF s(1)] by blast
  with assms s(2) Some show ?thesis by (fastforce simp: chan_holds_def receive_all_def)
qed

subsection \<open>No gap between replay and live chunks\<close>

lemma send_newer_old: "\<forall>c\<in>set cs. c_Seq c \<le> fst s \<Longrightarrow> send_newer wr cs s = (True, s)"
  by (induction wr cs s rule: send_newer.induct) auto

lemma send_chunks_all:
  "send_chunks (\<lambda>_. True) cs (l, out) = (True, (last (l # map c_Seq cs), out @ map LogEvent cs))"
  by (induction cs arbitrary: l out) (auto simp: write_msg_def)

lemma replay_later:
  assumes "start \<le> start'"
  shows "replay jid start' d = filter (\<lambda>c. start' \<le> c_Seq c) (replay jid start d)"
proof -
  have "(\<lambda>c. start' \<le> c_Seq c) \<circ> scan_chunk jid = (\<lambda>r. start' \<le> lc_Seq r)" by (auto simp: scan_chunk_def)
  moreover have "start \<le> n \<and> start' \<le> n \<longleftrightarrow> start' \<le> n" for n
    using assms by auto
  ultimately show ?thesis by (simp add: replay_def filter_map filter_sort filter_concat comp_def)
qed

lemma last_Cons_greatest:
  fixes xs :: "int list"
  assumes "sorted_wrt (<) xs" and "\<forall>x\<in>set xs. l < x"
  shows "\<forall>x\<in>set xs. x \<le> last (l # xs)"
  using assms by (induction xs rule: rev_induct) (auto simp: sorted_wrt_append less_imp_le)

lemma replay_exhausted:
  assumes "logs_ok d" and "L = last ((start - 1) # map c_Seq (replay jid start d))"
  shows "\<forall>c\<in>set (replay jid start d). c_Seq c \<le> L" and "replay jid (L + 1) d = []" and "start - 1 \<le> L" and "start \<le> int64_max \<Longrightarrow> L < int64_max"
proof -
  note ord = replay_order [OF assms(1), of jid start]
  show le: "\<forall>c\<in>set (replay jid start d). c_Seq c \<le> L"
    using last_Cons_greatest [OF ord(1), of "start - 1"] ord(2) unfolding assms(2) by fastforce
  have "L = start - 1 \<or> (\<exists>c\<in>set (replay jid start d). L = c_Seq c)"
    unfolding assms(2) by (cases "replay jid start d" rule: rev_cases) auto
  with ord(2) show l: "start - 1 \<le> L" and "start \<le> int64_max \<Longrightarrow> L < int64_max" by auto
  show "replay jid (L + 1) d = []"
    using l le by (subst replay_later [of start]) (auto simp: filter_empty_conv)
qed

text \<open>
  The bridge from replay to live delivery has no gap and no duplicate. The stream of a
  job that has finished, while chunks that are stored already are still being published
  (between the subscription and the replay), delivers exactly the log of the job's current
  lease from the requested sequence number on, in order, then the end event.
\<close>

lemma finished_job_streamed_exactly:
  assumes "solo (lg_env D)" and "logs_ok (db w)" and "chans_made w" and "status \<in> set logsTerminalJobStatuses"
    and "\<forall>c\<in>set mid. c_JobRowID c = jobID \<longrightarrow> c \<in> set (replay jobID startSeq (db w)) \<or> c_Seq c < startSeq"
    and "int64_min < startSeq" and "startSeq \<le> int64_max"
  shows "fst (run_state (sse_stream D (\<lambda>_. True) jobID status startSeq mid es) w) =
    (True, Comment ''connected'' # map LogEvent (replay jobID startSeq (db w)) @ [EndEvent status])"
proof -
  let ?log = "replay jobID startSeq (db w)"
  let ?L = "last ((startSeq - 1) # map c_Seq ?log)"
  let ?P = "\<lambda>c. c \<in> set ?log \<or> c_Seq c < startSeq"
  note ex = replay_exhausted [where start = startSeq and jid = jobID, OF assms(2) refl]
  obtain ch w1 where ch: "run_state (Subscribe jobID) w = (ch, w1)" by fastforce
  have w1: "db w1 = db w" "chan_holds ?P jobID ch w1"
    using ch chan_holds_Subscribe [OF assms(3), of ?P jobID] by (auto simp: Subscribe_def)
  obtain w2 where w2: "run_state (publish_all mid) w1 = ((), w2)" by (metis old.unit.exhaust surj_pair)
  have h2: "chan_holds ?P jobID ch w2" "db w2 = db w"
    using chan_holds_publish_all [OF w1(2), of mid] assms(5) w1(1) w2 by auto
  let ?w3 = "w2\<lparr>tick := Suc (tick w2)\<rparr>"
  have r1: "run_state (ReplayFrom (lg_env D) jobID startSeq) w2 = (Inr ?log, ?w3)"
    using assms(1) h2(2) by (simp add: ReplayFrom_def run_query_solo)
  obtain bs w4 where bs: "run_state (receive_all jobID ch) ?w3 = (bs, w4)" by fastforce
  have h3: "chan_holds ?P jobID ch ?w3" using h2 by (simp add: chan_holds_def)
  have "\<forall>c\<in>set bs. c_Seq c \<le> ?L"
    using chan_holds_receive_all [OF h3] bs ex(1,3) by fastforce
  then have sn: "send_newer (\<lambda>_. True) bs (?L, out) = (True, (?L, out))" for out by (simp add: send_newer_old)
  have db4: "db w4 = db w" using bs h2(2) by (auto simp: receive_all_def)
  have wraps: "wrap64 (startSeq - 1) = startSeq - 1" "wrap64 (?L + 1) = ?L + 1"
    using assms(6,7) ex(3,4) by (auto intro!: wrap64_id simp: in_int64_def)
  have r2: "run_state (ReplayFrom (lg_env D) jobID (?L + 1)) w4 = (Inr [], w4\<lparr>tick := Suc (tick w4)\<rparr>)"
    using assms(1) db4 ex(2) by (simp add: ReplayFrom_def run_query_solo)
  have fin: "fst (run_state (logsMaybeFinish D (\<lambda>_. True) jobID status ch (?L, out)) ?w3) = (True, (?L, out @ [EndEvent status]))" for out
    using assms(4) bs sn r2 wraps by (simp add: logsMaybeFinish_def write_msg_def)
  have body: "fst (run_state (sse_body D (\<lambda>_. True) jobID status startSeq ch es out) w2) =
      (True, (?L, out @ map LogEvent ?log @ [EndEvent status]))" for out
    using fin [of "out @ map LogEvent ?log"] r1 by (simp add: sse_body_def wraps send_chunks_all split_beta)
  show ?thesis
    using ch w2 body by (simp add: sse_stream_def write_msg_def split_beta cancel_sub_def)
qed

lemma sample_job_streamed_exactly:
  "fst (run_state (sse_stream sample_logs (\<lambda>_. True) 11 ''success'' 1 [sample_live] []) sample_log_world) =
    (True, [Comment ''connected'', LogEvent (scan_chunk 11 (sample_row 1 ''one'')), LogEvent sample_live, EndEvent ''success''])"
proof -
  have r: "replay 11 1 (db sample_log_world) = [scan_chunk 11 (sample_row 1 ''one''), sample_live]"
    by (simp add: replay_def sample_log_world_def sample_live_def sample_row_def sample_defs)
  have "solo (lg_env sample_logs)" "logs_ok (db sample_log_world)"
    using sample_logs_world by (simp_all add: sample_logs_def logs_world_def)
  moreover have "chans_made sample_log_world" by (simp add: chans_made_def sample_log_world_def world_with_def)
  ultimately show ?thesis
    using finished_job_streamed_exactly [of sample_logs sample_log_world "''success''" "[sample_live]" 11 1 "[]"]
    by (simp add: r logsTerminalJobStatuses_def int64_min_def int64_max_def)
qed

subsection \<open>The event stream as its client reads it\<close>

text \<open>
  The interpretation of an event stream, as its specification prescribes it to a client: lines
  end in LF, CR or both, a line is a field with a value, an empty line dispatches the event
  whose data lines were collected. An unfinished last line is discarded.
\<close>

fun line_ends :: "bytes \<Rightarrow> bytes" where
  "line_ends [] = []"
| "line_ends (c # cs) =
     (if c = CHR 0x0D
      then newline # (case cs of [] \<Rightarrow> [] | c' # cs' \<Rightarrow> if c' = newline then line_ends cs' else line_ends cs)
      else c # line_ends cs)"

record client =
  ev_type :: string
  ev_data :: "string list"
  ev_id :: string

type_synonym event = "string \<times> bytes \<times> string"

definition field_value :: "string \<Rightarrow> string" where
  "field_value line =
     (case dropWhile (\<lambda>c. c \<noteq> CHR '':'') line of
        [] \<Rightarrow> []
      | _ # v \<Rightarrow> if v \<noteq> [] \<and> hd v = CHR '' '' then tl v else v)"

definition read_line :: "string \<Rightarrow> client \<Rightarrow> event list \<times> client" where
  "read_line line s =
     (if line = [] then
        ((if ev_data s = [] then [] else [(if ev_type s = [] then ''message'' else ev_type s, Join (ev_data s) [newline], ev_id s)]),
         s\<lparr>ev_type := [], ev_data := []\<rparr>)
      else let f = takeWhile (\<lambda>c. c \<noteq> CHR '':'') line in
        if f = ''event'' then ([], s\<lparr>ev_type := field_value line\<rparr>)
        else if f = ''data'' then ([], s\<lparr>ev_data := ev_data s @ [field_value line]\<rparr>)
        else if f = ''id'' \<and> CHR 0x00 \<notin> set (field_value line) then ([], s\<lparr>ev_id := field_value line\<rparr>)
        else ([], s))"

fun read_lines :: "string list \<Rightarrow> client \<Rightarrow> event list" where
  "read_lines [] s = []"
| "read_lines (l # ls) s = (case read_line l s of (evs, s') \<Rightarrow> evs @ read_lines ls s')"

definition idle :: "string \<Rightarrow> client" where
  "idle last_id = \<lparr>ev_type = [], ev_data = [], ev_id = last_id\<rparr>"

definition read_stream :: "bytes \<Rightarrow> event list" where
  "read_stream bs = read_lines (butlast (Split newline (line_ends bs))) (idle [])"

text \<open>What the client should see of the messages.\<close>

definition without_final_newline :: "bytes \<Rightarrow> bytes" where
  "without_final_newline dat = (if dat \<noteq> [] \<and> last dat = newline then butlast dat else dat)"

fun events_of :: "string \<Rightarrow> message list \<Rightarrow> event list" where
  "events_of last_id [] = []"
| "events_of last_id (Comment t # ms) = events_of last_id ms"
| "events_of last_id (LogEvent c # ms) =
     (''log'', without_final_newline (elems (c_Data c)), Itoa (c_Seq c)) # events_of (Itoa (c_Seq c)) ms"
| "events_of last_id (EndEvent st # ms) = (''end'', Marshal (string_object [(''status'', st)]), last_id) # events_of last_id ms"

fun framed :: "message \<Rightarrow> bool" where
  "framed (Comment t) = (t = ''connected'' \<or> t = ''keep-alive'')"
| "framed (LogEvent c) = (CHR 0x0D \<notin> set (elems (c_Data c)))"
| "framed (EndEvent st) = (st \<in> set logsTerminalJobStatuses)"

subsubsection \<open>Lines of a message\<close>

fun lines_of :: "message \<Rightarrow> string list" where
  "lines_of (Comment t) = ['': '' @ t, []]"
| "lines_of (LogEvent c) = (''id: '' @ Itoa (c_Seq c)) # ''event: log'' # map ((@) ''data: '') (chunk_lines (elems (c_Data c))) @ [[]]"
| "lines_of (EndEvent st) = [''event: end'', ''data: '' @ Marshal (string_object [(''status'', st)]), []]"

definition unlines :: "string list \<Rightarrow> bytes" where
  "unlines ls = concat (map (\<lambda>l. l @ [newline]) ls)"

lemma render_lines: "render m = unlines (lines_of m)"
  by (cases m) (simp_all add: logsWriteComment_def logsWriteChunkEvent_def logsWriteEnd_def unlines_def comp_def)

lemma Split_line: "sep \<notin> set l \<Longrightarrow> Split sep (l @ sep # s) = l # Split sep s"
  by (induction l) auto

lemma Split_unlines: "\<forall>l\<in>set ls. newline \<notin> set l \<Longrightarrow> Split newline (unlines ls) = ls @ [[]]"
  by (induction ls) (auto simp: unlines_def Split_line)

lemma line_ends_id: "CHR 0x0D \<notin> set bs \<Longrightarrow> line_ends bs = bs"
  by (induction bs rule: line_ends.induct) auto

lemma set_nat_digits: "c \<in> set (nat_digits n) \<Longrightarrow> 48 \<le> char_code c"
  by (induction n rule: nat_digits.induct) (subst (asm) (2) nat_digits.simps, auto simp: digit_code split: if_splits)

lemma Itoa_printable: "c \<in> set (Itoa n) \<Longrightarrow> 45 \<le> char_code c"
  by (auto simp: Itoa_def char_code_def dest!: set_nat_digits split: if_splits)

lemma Itoa_no_control [simp]: "newline \<notin> set (Itoa n)" "CHR 0x0D \<notin> set (Itoa n)" "CHR 0x00 \<notin> set (Itoa n)"
  by (auto simp: newline_def char_code_def dest!: Itoa_printable)

lemma set_Split: "p \<in> set (Split sep s) \<Longrightarrow> set p \<subseteq> set s"
proof (induction s arbitrary: p)
  case (Cons c s)
  then show ?case by (cases "Split sep s") (fastforce split: if_splits)+
qed simp

lemma set_chunk_lines: "l \<in> set (chunk_lines dat) \<Longrightarrow> newline \<notin> set l \<and> set l \<subseteq> set dat"
  using set_Split [of l newline dat] Split_no_sep [of l newline dat]
  by (auto simp: chunk_lines_def Let_def dest: in_set_butlastD split: if_splits)

lemma Split_snoc:
  "Split sep (s @ [c]) = (if c = sep then Split sep s @ [[]] else butlast (Split sep s) @ [last (Split sep s) @ [c]])"
proof (induction s)
  case (Cons a s)
  then show ?case by (cases "Split sep s") (auto split: if_splits)
qed simp

lemma chunk_lines_joined: "chunk_lines dat \<noteq> [] \<and> Join (chunk_lines dat) [newline] = without_final_newline dat"
proof (cases dat rule: rev_cases)
  case (snoc s c)
  show ?thesis
  proof (cases "c = newline")
    case True
    with snoc show ?thesis by (simp add: chunk_lines_def Split_snoc without_final_newline_def Join_Split)
  next
    case False
    then have "chunk_lines dat = Split newline dat" using snoc by (simp add: chunk_lines_def Split_snoc)
    with snoc False show ?thesis by (simp add: without_final_newline_def Join_Split)
  qed
qed (simp add: chunk_lines_def without_final_newline_def)

lemma end_payload: "st \<in> set logsTerminalJobStatuses \<Longrightarrow>
    newline \<notin> set (Marshal (string_object [(''status'', st)])) \<and> CHR 0x0D \<notin> set (Marshal (string_object [(''status'', st)]))"
  by (auto simp: logsTerminalJobStatuses_def Marshal_string_object member_text_def quote_plain plain_text_def char_code_def newline_def
      simp del: Marshal.simps)

lemma newline_Char: "newline = Char a b c d e f g h \<longleftrightarrow> CHR 0x0A = Char a b c d e f g h"
  by (simp add: newline_def)

lemma framed_lines: "framed m \<Longrightarrow> l \<in> set (lines_of m) \<Longrightarrow> newline \<notin> set l \<and> CHR 0x0D \<notin> set l"
proof (cases m)
  case (LogEvent c)
  assume "framed m" "l \<in> set (lines_of m)"
  with LogEvent show ?thesis by (auto simp: newline_Char dest!: set_chunk_lines)
next
  case (EndEvent st)
  assume "framed m" "l \<in> set (lines_of m)"
  with EndEvent end_payload [of st] show ?thesis by (auto simp: newline_def simp del: Marshal.simps)
qed (auto simp: newline_def)

subsubsection \<open>Round trip\<close>

lemma read_data_lines:
  "read_lines (map ((@) ''data: '') ds @ ls) s = read_lines ls (s\<lparr>ev_data := ev_data s @ ds\<rparr>)"
  by (induction ds arbitrary: s) (simp_all add: read_line_def field_value_def)

lemma read_message:
  "read_lines (lines_of m @ ls) (idle last_id) =
     events_of last_id [m] @ read_lines ls (idle (case m of LogEvent c \<Rightarrow> Itoa (c_Seq c) | _ \<Rightarrow> last_id))"
  using chunk_lines_joined
  by (cases m) (simp_all add: read_line_def field_value_def idle_def read_data_lines del: Marshal.simps)

lemma read_messages: "read_lines (concat (map lines_of ms)) (idle last_id) = events_of last_id ms"
  by (induction last_id ms rule: events_of.induct) (simp_all add: read_message del: lines_of.simps Marshal.simps)

text \<open>
  The framing of the log stream is undone by its client. From the bytes of a stream
  whose chunks hold no carriage return, the interpretation the event-stream format prescribes
  gives exactly one event per log chunk, with the chunk's sequence number as its id and the
  chunk's bytes (less a final newline) as its data, and the end event; comments give none.
\<close>

lemma event_stream_roundtrip:
  assumes "\<forall>m\<in>set ms. framed m"
  shows "read_stream (concat (map render ms)) = events_of [] ms"
proof -
  let ?ls = "concat (map lines_of ms)"
  have ls: "\<forall>l\<in>set ?ls. newline \<notin> set l \<and> CHR 0x0D \<notin> set l" using assms framed_lines by fastforce
  have "concat (map render ms) = unlines ?ls" by (induction ms) (simp_all add: render_lines unlines_def)
  moreover have "line_ends (unlines ?ls) = unlines ?ls"
    using ls by (intro line_ends_id) (auto simp: unlines_def newline_def)
  ultimately show ?thesis using ls by (simp add: read_stream_def Split_unlines read_messages)
qed

lemma Itoa_2 [simp]: "Itoa 2 = ''2''"
  by code_simp

lemma sample_stream_read:
  "read_stream (concat (map render [Comment ''connected'', LogEvent sample_live])) = [(''log'', ''two'', ''2'')]"
  using event_stream_roundtrip [of "[Comment ''connected'', LogEvent sample_live]"]
  by (simp add: sample_live_def sample_row_def scan_chunk_def without_final_newline_def newline_def)

text \<open>A carriage return inside a chunk ends the data field: the text behind it is lost.\<close>

lemma carriage_return_loses_text:
  "read_stream (render (LogEvent (sample_live\<lparr>c_Data := Some (''10%'' @ [CHR 0x0D] @ ''20%'')\<rparr>))) = [(''log'', ''10%'', ''2'')]"
  by (simp add: sample_live_def sample_row_def scan_chunk_def logsWriteChunkEvent_def chunk_lines_def newline_def
      read_stream_def read_line_def field_value_def idle_def Let_def)

end
