(* ===== verification/Commit_Status.thy ===== *)
theory Commit_Status
  imports Github_Api
begin

text \<open>
  \<open>internal/github/status.go\<close>: commit statuses posted to GitHub.
\<close>

definition DefaultStatusContext :: string where
  "DefaultStatusContext = ''drassi''"

definition maxStatusDescriptionRunes :: nat where
  "maxStatusDescriptionRunes = 140"

definition validCommitStatusStates :: "string list" where
  "validCommitStatusStates = [''pending'', ''success'', ''failure'', ''error'']"

record CommitStatusReporter =
  csr_client :: Client
  csr_context :: string

definition NewCommitStatusReporter :: "Client \<Rightarrow> string \<Rightarrow> CommitStatusReporter" where
  "NewCommitStatusReporter client contextName =
     \<lparr>csr_client = client, csr_context = (if contextName = '''' then DefaultStatusContext else contextName)\<rparr>"

definition commitStatusRequestBody :: "string \<Rightarrow> string \<Rightarrow> string \<Rightarrow> json" where
  "commitStatusRequestBody state ctx description =
     string_object [(''state'', state), (''context'', ctx), (''description'', description)]"

definition truncateDescription :: "string \<Rightarrow> string" where
  "truncateDescription s =
     (if RuneCountInString s \<le> maxStatusDescriptionRunes then s
      else string_of_runes (take maxStatusDescriptionRunes (runes s)))"

definition newStatusRequest :: "CommitStatusReporter \<Rightarrow> string \<Rightarrow> bytes \<Rightarrow> Request option" where
  "newStatusRequest r path payload =
     (let c = csr_client r in
      case NewRequest ''POST'' (base c @ path) payload of
        None \<Rightarrow> None
      | Some req \<Rightarrow>
          let req1 = set_header ''Accept'' ''application/vnd.github+json'' req;
              req2 = set_header ''Content-Type'' ''application/json'' req1;
              req3 = set_header ''X-GitHub-Api-Version'' apiVersion req2
          in Some (if token c \<noteq> '''' then set_header ''Authorization'' (''Bearer '' @ token c) req3 else req3))"

definition ReportStatus :: "transport \<Rightarrow> CommitStatusReporter \<Rightarrow> string \<Rightarrow> string \<Rightarrow> string \<Rightarrow> string \<Rightarrow> (client_error + unit)" where
  "ReportStatus http r repo sha state description =
     (if state \<notin> set validCommitStatusStates then Inl ErrArgument
      else case splitRepo repo of
        None \<Rightarrow> Inl ErrArgument
      | Some (owner, name) \<Rightarrow>
          if sha = '''' then Inl ErrArgument
          else
            let payload = Marshal (commitStatusRequestBody state (csr_context r) (truncateDescription description));
                path = ''/repos/'' @ owner @ ''/'' @ name @ ''/statuses/'' @ sha
            in case newStatusRequest r path payload of
                 None \<Rightarrow> Inl ErrRequest
               | Some req \<Rightarrow> (case do_request http req of Inl e \<Rightarrow> Inl e | Inr _ \<Rightarrow> Inr ()))"

subsection \<open>Laws\<close>

text \<open>
  A description is cut to the first 140 runes, and one of at most 140 runes is not
  touched, whatever bytes it holds.
\<close>

theorem truncateDescription_runes:
  "runes (truncateDescription s) = take 140 (runes s) \<and> (length (runes s) \<le> 140 \<longrightarrow> truncateDescription s = s)"
proof -
  have "runes (string_of_runes (take 140 (runes s))) = take 140 (runes s)"
    using runes_valid by (intro runes_string_of_runes) (blast dest: in_set_takeD)
  then show ?thesis by (simp add: truncateDescription_def RuneCountInString_def maxStatusDescriptionRunes_def)
qed

theorem truncateDescription_runes_witness:
  "runes (truncateDescription ''run ok'') = take 140 (runes ''run ok'') \<and> truncateDescription ''run ok'' = ''run ok''"
proof -
  have "length (runes ''run ok'') \<le> 140" by (simp add: runes_def decode_rune.simps char_code_def)
  with truncateDescription_runes [of "''run ok''"] show ?thesis by blast
qed

lemma newStatusRequest_fields:
  assumes "newStatusRequest r path payload = Some req"
  shows "rq_Method req = ''POST''" "rq_URL req = base (csr_client r) @ path" "rq_Body req = payload"
    "get_header req ''Content-Type'' = ''application/json''"
    "get_header req ''Authorization'' = (if token (csr_client r) = [] then [] else ''Bearer '' @ token (csr_client r))"
  using assms
  by (auto simp: newStatusRequest_def NewRequest_def Let_def get_set_header split: option.splits if_splits)
    (auto simp: get_header_def)

lemma coerce_states: "state \<in> set validCommitStatusStates \<Longrightarrow> coerce_utf8 state = state"
  by (rule coerce_ascii) (auto simp: validCommitStatusStates_def char_code_def)

lemma do_request_ok:
  "do_request http req = Inr body \<Longrightarrow> \<exists>resp. http (sent req) = Some resp \<and> 200 \<le> rs_StatusCode resp \<and> rs_StatusCode resp < 300"
  by (auto simp: do_request_def split: option.splits if_splits)

text \<open>
  C35: a reported status was posted. When \<open>ReportStatus\<close> returns without error, the
  transport has answered 2xx to a POST to the statuses of that commit of that repository,
  authorised with the client's token, whose body is a JSON document with the state, the
  reporter's context and the first 140 runes of the description; and the state is one of the
  four GitHub knows.
\<close>

theorem ReportStatus_posted:
  assumes "ReportStatus http r repo sha state description = Inr ()" and "token (csr_client r) \<noteq> []"
  shows "\<exists>req resp owner name. http (sent req) = Some resp \<and> 200 \<le> rs_StatusCode resp \<and> rs_StatusCode resp < 300 \<and>
    repo = owner @ ''/'' @ name \<and> CHR ''/'' \<notin> set owner \<and> CHR ''/'' \<notin> set name \<and>
    rq_Method req = ''POST'' \<and> rq_URL req = base (csr_client r) @ ''/repos/'' @ owner @ ''/'' @ name @ ''/statuses/'' @ sha \<and>
    get_header req ''Authorization'' = ''Bearer '' @ token (csr_client r) \<and>
    state \<in> {''pending'', ''success'', ''failure'', ''error''} \<and> sha \<noteq> [] \<and>
    json_parse (rq_Body req) = Some (JObject [(''state'', JString state), (''context'', JString (coerce_utf8 (csr_context r))),
      (''description'', JString (coerce_utf8 (truncateDescription description)))]) \<and>
    runes (coerce_utf8 (truncateDescription description)) = take 140 (runes description)"
proof -
  have ok: "state \<in> set validCommitStatusStates" using assms(1) by (auto simp: ReportStatus_def split: if_splits)
  obtain owner name where sr: "splitRepo repo = Some (owner, name)"
    using assms(1) ok by (auto simp: ReportStatus_def split: option.splits)
  have sha: "sha \<noteq> []" using assms(1) ok sr by (auto simp: ReportStatus_def split: if_splits)
  let ?payload = "Marshal (commitStatusRequestBody state (csr_context r) (truncateDescription description))"
  let ?path = "''/repos/'' @ owner @ ''/'' @ name @ ''/statuses/'' @ sha"
  obtain req body where req: "newStatusRequest r ?path ?payload = Some req" "do_request http req = Inr body"
    using assms(1) ok sr sha by (auto simp: ReportStatus_def Let_def split: option.splits sum.splits)
  obtain resp where resp: "http (sent req) = Some resp" "200 \<le> rs_StatusCode resp" "rs_StatusCode resp < 300"
    using do_request_ok [OF req(2)] by blast
  have keys: "coerce_utf8 ''state'' = ''state''" "coerce_utf8 ''context'' = ''context''" "coerce_utf8 ''description'' = ''description''"
    by (rule coerce_ascii, simp add: char_code_def)+
  have "json_parse ?payload = Some (JObject [(''state'', JString state), (''context'', JString (coerce_utf8 (csr_context r))),
      (''description'', JString (coerce_utf8 (truncateDescription description)))])"
    using keys coerce_states [OF ok]
    by (simp add: commitStatusRequestBody_def json_parse_string_object) (simp add: string_object_def)
  moreover have "state \<in> {''pending'', ''success'', ''failure'', ''error''}" using ok by (auto simp: validCommitStatusStates_def)
  moreover have "runes (coerce_utf8 (truncateDescription description)) = take 140 (runes description)"
    using runes_valid runes_string_of_runes
    by (simp add: coerce_utf8_runes truncateDescription_def RuneCountInString_def maxStatusDescriptionRunes_def)
      (metis in_set_takeD)
  ultimately show ?thesis
    using newStatusRequest_fields [OF req(1)] resp splitRepo_iff [of repo owner name] sr sha assms(2)
    by (intro exI [of _ req] exI [of _ resp] exI [of _ owner] exI [of _ name]) simp
qed

definition created_server :: transport where
  "created_server req = Some \<lparr>rs_StatusCode = 201, rs_Body = ''{}'', rs_BrokenOff = False\<rparr>"

theorem ReportStatus_posted_witness:
  "ReportStatus created_server (NewCommitStatusReporter (New ''tok'') '''') ''acme/app'' ''abc'' ''success'' ''done'' = Inr () \<and>
   (\<exists>req. created_server (sent req) \<noteq> None \<and> rq_Method req = ''POST'' \<and>
      json_parse (rq_Body req) = Some (JObject [(''state'', JString ''success''), (''context'', JString ''drassi''),
        (''description'', JString ''done'')]))"
proof -
  let ?r = "NewCommitStatusReporter (New ''tok'') ''''"
  have "splitRepo ''acme/app'' = Some (''acme'', ''app'')" by (simp add: splitRepo_iff)
  then have ok: "ReportStatus created_server ?r ''acme/app'' ''abc'' ''success'' ''done'' = Inr ()"
    by (simp add: ReportStatus_def validCommitStatusStates_def newStatusRequest_def NewRequest_def url_parses_def SplitN2_def
        NewCommitStatusReporter_def base_def New_def apiBase_def is_ctl_def char_code_def Let_def do_request_def
        created_server_def read_limited_def bodyCap_def)
  have t: "truncateDescription ''done'' = ''done''"
    by (simp add: truncateDescription_def RuneCountInString_def runes_def decode_rune.simps char_code_def maxStatusDescriptionRunes_def)
  have c: "coerce_utf8 ''done'' = ''done''" "coerce_utf8 ''drassi'' = ''drassi''"
    by (rule coerce_ascii, simp add: char_code_def)+
  have "token (csr_client ?r) \<noteq> []" "csr_context ?r = ''drassi''"
    by (simp_all add: NewCommitStatusReporter_def New_def DefaultStatusContext_def)
  with ReportStatus_posted [OF ok] ok t c show ?thesis by (metis option.distinct(1))
qed

end
