(* ===== verification/Server.thy ===== *)
theory Server
  imports Job_Ledger Service_Spec Webhook_Github Webhook_Gitlab Api_Runs Log_Stream Github_Api Gitlab_Client Commit_Status
begin

text \<open>
  \<open>cmd/drassi-server/main.go\<close>: the process as a whole. The services are built from the
  process environment and wired to one another, the HTTP routes are mounted, and the process
  answers gRPC calls and HTTP requests while its two reapers tick.

  What the process finds outside is a platform: the database environment, the packages
  \<open>act\<close>, \<open>workflowpattern\<close> and \<open>uuid\<close>, the network, the random source. Listeners,
  goroutines, signals and the shutdown are in \<open>Lifecycle\<close>.
\<close>

subsection \<open>Routes\<close>

datatype endpoint =
    HealthzRoute | RunnersRoute | CreateRunRoute | ListRunsRoute | GetRunRoute | GetJobRoute | JobLogsRoute
  | JobLogsTxtRoute | GithubRoute | GitlabRoute

text \<open>A router is its list of routes: method, pattern and handler.\<close>

type_synonym router = "(string \<times> string \<times> endpoint) list"

definition NewRouter :: router where
  "NewRouter = [(''GET'', ''/runners'', RunnersRoute)]"

definition RegisterRuns :: "router \<Rightarrow> router" where
  "RegisterRuns r = r @ [(''POST'', ''/runs'', CreateRunRoute), (''GET'', ''/runs'', ListRunsRoute),
     (''GET'', ''/runs/{id}'', GetRunRoute), (''GET'', ''/jobs/{id}'', GetJobRoute)]"

definition RegisterLogs :: "router \<Rightarrow> router" where
  "RegisterLogs r = r @ [(''GET'', ''/jobs/{id}/logs'', JobLogsRoute), (''GET'', ''/jobs/{id}/logs.txt'', JobLogsTxtRoute)]"

definition RegisterGitHubWebhook :: "router \<Rightarrow> router" where
  "RegisterGitHubWebhook r = r @ [(''POST'', ''/webhooks/github'', GithubRoute)]"

definition RegisterGitLabWebhook :: "router \<Rightarrow> router" where
  "RegisterGitLabWebhook r = r @ [(''POST'', ''/webhooks/gitlab'', GitlabRoute)]"

definition Mount :: "string \<Rightarrow> router \<Rightarrow> router \<Rightarrow> router" where
  "Mount pre sub r = r @ map (\<lambda>(m, p, h). (m, pre @ p, h)) sub"

subsection \<open>The connection pool\<close>

text \<open>
  \<open>internal/store/db.go\<close>. The driver \<open>pgxpool\<close> is a record: what it makes of a DSN, a
  pool, whether the database, once it answers a ping, accepts it, and with how many connections
  in use \<open>Close\<close> returns. With the result come the pools closed again.
\<close>

record ('c, 'q) pgxpool =
  px_ParseConfig :: "string \<Rightarrow> 'c option"
  px_NewWithConfig :: "'c \<Rightarrow> 'q option"
  px_Ping :: "'q \<Rightarrow> bool"
  px_Close_returns :: "nat \<Rightarrow> bool"

datatype pool_error = ErrParseDSN | ErrOpenPool | ErrPingDB

definition NewPool :: "('c, 'q) pgxpool \<Rightarrow> string \<Rightarrow> (pool_error + 'q) \<times> 'q list" where
  "NewPool X dsn =
     (case px_ParseConfig X dsn of
        None \<Rightarrow> (Inl ErrParseDSN, [])
      | Some conf \<Rightarrow>
          (case px_NewWithConfig X conf of
             None \<Rightarrow> (Inl ErrOpenPool, [])
           | Some pool \<Rightarrow> if \<not> px_Ping X pool then (Inl ErrPingDB, [pool]) else (Inr pool, [])))"

text \<open>A pool that was opened and is not handed out was closed, and one handed out is open and answers.\<close>

lemma NewPool_no_leak:
  "px_ParseConfig X dsn = Some conf \<Longrightarrow> px_NewWithConfig X conf = Some pool \<Longrightarrow>
    NewPool X dsn = (if px_Ping X pool then (Inr pool, []) else (Inl ErrPingDB, [pool]))"
  by (simp add: NewPool_def)

subsection \<open>Wiring\<close>

datatype start_error = LoadConfig config_error | ConnectDB pool_error

record 'p platform =
  pf_env :: env
  pf_act :: act
  pf_patterns :: "'p workflowpattern"
  pf_http :: transport
  pf_uuid_parse :: "string \<Rightarrow> uuid option"
  pf_uuid_string :: "uuid \<Rightarrow> string"
  pf_rand :: "nat \<Rightarrow> bytes option"
  pf_invalid_text :: "PlanInput \<Rightarrow> string"

text \<open>
  The dependencies of the HTTP surface that are not the platform's: the clients and the
  operator's settings of the webhooks.
\<close>

record httpDeps =
  hd_ghClient :: Client
  hd_ghReporter :: CommitStatusReporter
  hd_ghSecret :: string
  hd_ghAllowRepo :: string
  hd_gitlab :: gl_Client
  hd_glSecret :: string
  hd_glAllowProj :: string
  hd_glWorkflow :: string

record 'p server =
  sv_routes :: router
  sv_runs :: RunsDeps
  sv_logs :: LogsDeps
  sv_github :: "'p GitHubWebhookDeps"
  sv_gitlab :: GitLabWebhookDeps
  sv_service :: Service
  sv_reporter :: CommitStatusReporter

definition newHTTPServer :: "'p platform \<Rightarrow> httpDeps \<Rightarrow> Service \<Rightarrow> 'p server" where
  "newHTTPServer P d svc =
     \<lparr>sv_routes =
        RegisterGitLabWebhook (RegisterGitHubWebhook
          (Mount ''/api'' (RegisterLogs (RegisterRuns NewRouter)) [(''GET'', ''/healthz'', HealthzRoute)])),
      sv_runs =
        \<lparr>rd_ResolveRef = ResolveRef (pf_http P) (hd_ghClient d), rd_FetchWorkflow = FetchWorkflow (pf_http P) (hd_ghClient d),
         rd_act = pf_act P, rd_env = pf_env P, rd_Notifier = True, rd_TriggeredBy = ''web'',
         rd_uuid_string = pf_uuid_string P, rd_uuid_parse = pf_uuid_parse P, rd_invalid_text = pf_invalid_text P\<rparr>,
      sv_logs = \<lparr>lg_env = pf_env P, lg_uuid_parse = pf_uuid_parse P, lg_flusher = True\<rparr>,
      sv_github =
        \<lparr>gd_Secret = hd_ghSecret d, gd_AllowRepo = hd_ghAllowRepo d,
         gd_ListWorkflows = ListWorkflows (pf_http P) (hd_ghClient d), gd_FetchWorkflow = FetchWorkflow (pf_http P) (hd_ghClient d),
         gd_act = pf_act P, gd_env = pf_env P, gd_patterns = pf_patterns P, gd_Notifier = True, gd_CommitStatus = True,
         gd_uuid_string = pf_uuid_string P\<rparr>,
      sv_gitlab =
        \<lparr>ld_Secret = hd_glSecret d, ld_AllowProject = hd_glAllowProj d,
         ld_ListWorkflows = gl_ListWorkflows (pf_http P) (hd_gitlab d), ld_FetchWorkflow = gl_FetchWorkflow (pf_http P) (hd_gitlab d),
         ld_act = pf_act P, ld_env = pf_env P, ld_Notifier = True, ld_WorkflowPath = hd_glWorkflow d,
         ld_uuid_string = pf_uuid_string P, ld_invalid_text = pf_invalid_text P\<rparr>,
      sv_service = svc, sv_reporter = hd_ghReporter d\<rparr>"

definition os_Getenv :: "(string \<rightharpoonup> string) \<Rightarrow> string \<Rightarrow> string" where
  "os_Getenv env_var key = (case env_var key of Some v \<Rightarrow> v | None \<Rightarrow> '''')"

text \<open>The process once it is up, or the error it ends with.\<close>

definition run_wired :: "(string \<rightharpoonup> string) \<Rightarrow> ('c, 'q) pgxpool \<Rightarrow> 'p platform \<Rightarrow> (start_error + 'p server)" where
  "run_wired env_var X P =
     (case Load env_var of
        Inl e \<Rightarrow> Inl (LoadConfig e)
      | Inr conf \<Rightarrow>
          case fst (NewPool X (DBDSN conf)) of
            Inl e \<Rightarrow> Inl (ConnectDB e)
          | Inr dbPool \<Rightarrow>
          let ghClient = New (GitHubToken conf);
              ghReporter = NewCommitStatusReporter ghClient DefaultStatusContext;
              dispatchService = SetCommitStatusReporter True
                (NewService (pf_env P) conf (pf_uuid_parse P) (pf_uuid_string P) (pf_rand P));
              glClient = gl_New (os_Getenv env_var ''DRASSI_GITLAB_BASE_URL'') (os_Getenv env_var ''DRASSI_GITLAB_TOKEN'')
          in Inr (newHTTPServer P
               \<lparr>hd_ghClient = ghClient, hd_ghReporter = ghReporter,
                hd_ghSecret = os_Getenv env_var ''DRASSI_GH_WEBHOOK_SECRET'',
                hd_ghAllowRepo = os_Getenv env_var ''DRASSI_GH_ALLOWED_REPO'',
                hd_gitlab = glClient,
                hd_glSecret = os_Getenv env_var ''DRASSI_GITLAB_WEBHOOK_SECRET'',
                hd_glAllowProj = os_Getenv env_var ''DRASSI_GITLAB_ALLOWED_PROJECT'',
                hd_glWorkflow = os_Getenv env_var ''DRASSI_GITLAB_WORKFLOW_PATH''\<rparr>
               dispatchService))"

subsection \<open>Requests\<close>

definition healthz :: Reply where
  "healthz = \<lparr>rp_Status = 200, rp_Type = ''application/json'',
     rp_Body = ''{'' @ [CHR 0x22] @ ''status'' @ [CHR 0x22] @ '':'' @ [CHR 0x22] @ ''ok'' @ [CHR 0x22] @ ''}''\<rparr>"

text \<open>
  A request reaches the handler of its route; a log stream also meets what happens while it
  is open: which writes succeed, what is published before its replay, and its events.
\<close>

record http_call =
  hc_req :: HttpRequest
  hc_wr :: "nat \<Rightarrow> bool"
  hc_mid :: "Chunk list"
  hc_events :: "happening list"

fun serve_http :: "'p server \<Rightarrow> endpoint \<Rightarrow> http_call \<Rightarrow> (world, Reply + bool \<times> message list) state" where
  "serve_http S HealthzRoute c = ret (Inl healthz)"
| "serve_http S RunnersRoute c = do { r \<leftarrow> listRunnersHandler (sv_runs S); ret (Inl r) }"
| "serve_http S CreateRunRoute c = do { r \<leftarrow> runsCreateHandler (sv_runs S) (hc_req c); ret (Inl r) }"
| "serve_http S ListRunsRoute c = do { r \<leftarrow> runsListHandler (sv_runs S) (hc_req c); ret (Inl r) }"
| "serve_http S GetRunRoute c = do { r \<leftarrow> runsGetHandler (sv_runs S) (hc_req c); ret (Inl r) }"
| "serve_http S GetJobRoute c = do { r \<leftarrow> runsGetJobHandler (sv_runs S) (hc_req c); ret (Inl r) }"
| "serve_http S JobLogsRoute c = logsSSEHandler (sv_logs S) (hc_wr c) (hc_req c) (hc_mid c) (hc_events c)"
| "serve_http S JobLogsTxtRoute c = do { r \<leftarrow> logsTxtHandler (sv_logs S) (hc_req c); ret (Inl r) }"
| "serve_http S GithubRoute c = do { r \<leftarrow> githubWebhookHandler (sv_github S) (hc_req c); ret (Inl r) }"
| "serve_http S GitlabRoute c = do { r \<leftarrow> gitlabWebhookHandler (sv_gitlab S) (hc_req c); ret (Inl r) }"

text \<open>Whatever the process does: a gRPC call or a reaper's ticks, or an HTTP request.\<close>

datatype activity = Rpc rpc | HttpCall endpoint http_call

fun act_once :: "nat \<Rightarrow> 'p server \<Rightarrow> activity \<Rightarrow> (world, unit) state" where
  "act_once fuel S (Rpc c) = serve fuel (sv_service S) c"
| "act_once fuel S (HttpCall e c) = do { serve_http S e c; ret () }"

fun act_all :: "nat \<Rightarrow> 'p server \<Rightarrow> activity list \<Rightarrow> (world, unit) state" where
  "act_all fuel S [] = ret ()"
| "act_all fuel S (a # as) = do { act_once fuel S a; act_all fuel S as }"

lemma run_wired_envs:
  assumes "run_wired env_var X P = Inr S"
  shows "svc_env (sv_service S) = pf_env P \<and> rd_env (sv_runs S) = pf_env P \<and> lg_env (sv_logs S) = pf_env P \<and>
    gd_env (sv_github S) = pf_env P \<and> ld_env (sv_gitlab S) = pf_env P"
  using assms by (auto simp: run_wired_def newHTTPServer_def Let_def SetCommitStatusReporter_def NewService_def split: sum.splits)

context store_rel
begin

lemma guar_act_once:
  assumes "rely (pf_env P)" and "run_wired env_var X P = Inr S"
  shows "guar (act_once fuel S a)"
proof (cases a)
  case (Rpc c)
  with assms(1) run_wired_envs [OF assms(2)] show ?thesis by (simp add: guar_serve)
next
  case (HttpCall e c)
  with assms(1) run_wired_envs [OF assms(2)] show ?thesis
    by (cases e) (auto intro!: guar_rules guar_runs_reads guar_runsCreateHandler guar_logs_handlers
        guar_githubWebhookHandler guar_gitlabWebhookHandler)
qed

lemma guar_act_all: "rely (pf_env P) \<Longrightarrow> run_wired env_var X P = Inr S \<Longrightarrow> guar (act_all fuel S as)"
  by (induction as) (auto intro!: guar_rules guar_act_once)

end

subsection \<open>What holds of everything the process does\<close>

text \<open>
  The jobs table refines the abstract ledger of jobs. Whatever the running server does (any
  sequence of gRPC calls, reaper ticks, webhook deliveries, REST requests and log streams),
  with other sessions committing in between within the ledger and with statements failing at
  any point, the ids and statuses of the job rows go through steps of the ledger only: a new
  job enters as queued under a new id, or one job moves along one legal transition.
\<close>

theorem server_refines_ledger:
  assumes "run_wired env_var X P = Inr S" and "\<forall>n d. ledger_step\<^sup>*\<^sup>* (job_ledger d) (job_ledger (other (pf_env P) n d))"
    and "run_state (act_all fuel S acts) w = (u, w')"
  shows "ledger_step\<^sup>*\<^sup>* (job_ledger (db w)) (job_ledger (db w'))"
proof -
  have "ledger.rely (pf_env P)" using assms(2) by (simp add: ledger.rely_def refines_def)
  from ledger.guarD [OF ledger.guar_act_all [OF this assms(1)] assms(3)] show ?thesis by (simp add: refines_def)
qed

text \<open>
  The job state machine, seen from one job. Across everything the server does, a job row
  keeps its place and id and its status moves only along the transitions of
  \<open>jobTransitions\<close>; once it is terminal it never changes again.
\<close>

theorem jobs_follow_state_machine:
  assumes "run_wired env_var X P = Inr S" and "\<forall>n d. rows_kept moves_legally d (other (pf_env P) n d)"
    and "run_state (act_all fuel S acts) w = (u, w')" and "i < length (jobs (db w))"
  shows "i < length (jobs (db w')) \<and> j_ID (jobs (db w') ! i) = j_ID (jobs (db w) ! i) \<and>
    isLegalJobTransition\<^sup>*\<^sup>* (j_Status (jobs (db w) ! i)) (j_Status (jobs (db w') ! i)) \<and>
    (isTerminalStatus (j_Status (jobs (db w) ! i)) \<longrightarrow> j_Status (jobs (db w') ! i) = j_Status (jobs (db w) ! i))"
proof -
  have "path.rely (pf_env P)" using assms(2) by (simp add: path.rely_def)
  from path.guarD [OF path.guar_act_all [OF this assms(1)] assms(3)]
  have "rows_kept moves_legally (db w) (db w')" .
  from rows_kept_nth [OF this assms(4)] show ?thesis
    by (auto simp: moves_legally_def legal_path_def dest: terminal_stays [unfolded moves_legally_def legal_path_def, OF conjI])
qed

text \<open>
  The planned columns of a job (run, YAML id, name, matrix cell, needs, \<open>if:\<close>) never
  change after it was created, and neither does its start time once it is set.
\<close>

theorem jobs_keep_plan:
  assumes "run_wired env_var X P = Inr S" and "\<forall>n d. rows_kept same_plan d (other (pf_env P) n d)"
    and "run_state (act_all fuel S acts) w = (u, w')" and "i < length (jobs (db w))"
  shows "same_plan (jobs (db w) ! i) (jobs (db w') ! i)"
proof -
  have "plan.rely (pf_env P)" using assms(2) by (simp add: plan.rely_def)
  from plan.guarD [OF plan.guar_act_all [OF this assms(1)] assms(3)]
  have "rows_kept same_plan (db w) (db w')" .
  from rows_kept_nth(2) [OF this assms(4)] show ?thesis .
qed

text \<open>
  The database stays well formed, whatever the server does: keys are unique, references
  resolve, statuses are those of the state machine, a queued job holds no lease, and a leased
  or running one has a runner, a lease, a deadline and a start time.
\<close>

theorem database_stays_ok:
  assumes "run_wired env_var X P = Inr S" and "\<forall>n d. db_ok d \<longrightarrow> db_ok (other (pf_env P) n d)"
    and "run_state (act_all fuel S acts) w = (u, w')" and "db_ok (db w)"
  shows "db_ok (db w')"
proof -
  have "ok.rely (pf_env P)" using assms(2) by (simp add: ok.rely_def keeps_ok_def)
  from ok.guarD [OF ok.guar_act_all [OF this assms(1)] assms(3)] assms(4) show ?thesis
    by (simp add: keeps_ok_def)
qed

subsection \<open>Unconfigured webhooks\<close>

text \<open>
  C22: an endpoint nobody configured does nothing. When the operator sets no webhook secret, or
  no repository (project) to accept pushes of, every delivery to that endpoint leaves the
  process and the database as they are.
\<close>

theorem unconfigured_webhooks_inert:
  assumes "run_wired env_var X P = Inr S"
  shows "(env_var ''DRASSI_GH_WEBHOOK_SECRET'' = None \<or> env_var ''DRASSI_GH_ALLOWED_REPO'' = None \<longrightarrow>
      snd (run_state (serve_http S GithubRoute c) w) = w) \<and>
    (env_var ''DRASSI_GITLAB_WEBHOOK_SECRET'' = None \<or> env_var ''DRASSI_GITLAB_ALLOWED_PROJECT'' = None \<longrightarrow>
      snd (run_state (serve_http S GitlabRoute c) w) = w)"
proof (intro conjI impI)
  assume e: "env_var ''DRASSI_GH_WEBHOOK_SECRET'' = None \<or> env_var ''DRASSI_GH_ALLOWED_REPO'' = None"
  have "gd_Secret (sv_github S) = [] \<or> gd_AllowRepo (sv_github S) = []"
    using assms e by (auto simp: run_wired_def newHTTPServer_def Let_def os_Getenv_def split: sum.splits)
  then have "\<not> accepted_push (sv_github S) (hc_req c) push" for push by (auto simp: accepted_push_def Verify_def)
  then show "snd (run_state (serve_http S GithubRoute c) w) = w"
    by (cases rule: handler_cases [of "sv_github S" "hc_req c"]) auto
next
  assume e: "env_var ''DRASSI_GITLAB_WEBHOOK_SECRET'' = None \<or> env_var ''DRASSI_GITLAB_ALLOWED_PROJECT'' = None"
  have "ld_Secret (sv_gitlab S) = [] \<or> ld_AllowProject (sv_gitlab S) = []"
    using assms e by (auto simp: run_wired_def newHTTPServer_def Let_def os_Getenv_def split: sum.splits)
  then have "\<not> accepted_gitlab (sv_gitlab S) (hc_req c) evt body" for evt body by (auto simp: accepted_gitlab_def)
  then show "snd (run_state (serve_http S GitlabRoute c) w) = w"
    by (cases rule: gitlab_handler_cases [of "sv_gitlab S" "hc_req c"]) auto
qed

subsection \<open>A concrete server\<close>

definition sample_platform :: "unit platform" where
  "sample_platform =
     \<lparr>pf_env = sample_env, pf_act = sample_act,
      pf_patterns = \<lparr>CompilePatterns = \<lambda>_. Inr (), Skip = \<lambda>_ _. False, Filter = \<lambda>_ _. False\<rparr>,
      pf_http = \<lambda>_. None, pf_uuid_parse = uuid_parse sample_service, pf_uuid_string = uuid_string sample_service,
      pf_rand = rand_bytes sample_service, pf_invalid_text = \<lambda>_. []\<rparr>"

definition sample_pgx :: "(string, string) pgxpool" where
  "sample_pgx = \<lparr>px_ParseConfig = Some, px_NewWithConfig = Some, px_Ping = \<lambda>_. True, px_Close_returns = (\<lambda>n. n = 0)\<rparr>"

definition sample_process :: "unit server" where
  "sample_process = projr (run_wired (\<lambda>_. None) sample_pgx sample_platform)"

lemma sample_wired: "run_wired (\<lambda>_. None) sample_pgx sample_platform = Inr sample_process"
  by (simp add: sample_process_def run_wired_def NewPool_def sample_pgx_def Load_def getEnvInt_def getEnv_def Let_def
      defaultHeartbeatIntervalSeconds_def defaultHeartbeatMissLimit_def defaultHTTPAddr_def defaultGRPCAddr_def defaultDBDSN_def)

definition sample_acts :: "activity list" where
  "sample_acts =
     [Rpc (CallAcquire (Some [''Bearer tok'']) \<lparr>aq_RunnerId = ''7'', aq_FreeSlots = 1\<rparr> (\<lambda>_. True) []),
      Rpc (CallComplete (Some [''Bearer tok'']) \<lparr>cj_LeaseId = ''1002'', cj_Result = PHASE_FAILURE, cj_Outputs = []\<rparr>),
      HttpCall RunnersRoute \<lparr>hc_req = no_request, hc_wr = \<lambda>_. True, hc_mid = [], hc_events = []\<rparr>]"

lemma sample_others: "other (pf_env sample_platform) n d = d"
  by (simp add: sample_platform_def sample_env_def)

abbreviation sample_end :: world where
  "sample_end \<equiv> snd (run_state (act_all 9 sample_process sample_acts) (world_with (db_with sample_jobs)))"

theorem server_refines_ledger_witness:
  "ledger_step\<^sup>*\<^sup>* [(11, ''queued''), (12, ''queued''), (13, ''queued'')] (job_ledger (db sample_end))"
proof -
  have "ledger_step\<^sup>*\<^sup>* (job_ledger (db (world_with (db_with sample_jobs)))) (job_ledger (db sample_end))"
    by (rule server_refines_ledger [OF sample_wired _ prod.collapse [symmetric]]) (simp add: sample_others)
  then show ?thesis by (simp add: job_ledger_def sample_defs)
qed

theorem jobs_follow_state_machine_witness: "isLegalJobTransition\<^sup>*\<^sup>* ''queued'' (j_Status (jobs (db sample_end) ! 0))"
  using jobs_follow_state_machine [where i = 0, OF sample_wired _ prod.collapse [symmetric],
      where fuel = 9 and acts = sample_acts and w = "world_with (db_with sample_jobs)"]
  by (simp add: sample_others path.R_refl sample_defs)

theorem jobs_keep_plan_witness: "same_plan (sample_job 11 ''build'' []) (jobs (db sample_end) ! 0)"
  using jobs_keep_plan [where i = 0, OF sample_wired _ prod.collapse [symmetric],
      where fuel = 9 and acts = sample_acts and w = "world_with (db_with sample_jobs)"]
  by (simp add: sample_others plan.R_refl world_with_def db_with_def sample_jobs_def)

theorem database_stays_ok_witness: "db_ok (db sample_end)"
  using database_stays_ok [OF sample_wired _ prod.collapse [symmetric],
      where fuel = 9 and acts = sample_acts and w = "world_with (db_with sample_jobs)"] db_ok_sample
  by (simp add: sample_others world_with_def)

theorem unconfigured_webhooks_inert_witness:
  "snd (run_state (serve_http sample_process GithubRoute \<lparr>hc_req = sample_delivery, hc_wr = \<lambda>_. True, hc_mid = [], hc_events = []\<rparr>)
     (world_with (db_with sample_jobs))) = world_with (db_with sample_jobs)"
  using unconfigured_webhooks_inert [OF sample_wired, where w = "world_with (db_with sample_jobs)"
      and c = "\<lparr>hc_req = sample_delivery, hc_wr = \<lambda>_. True, hc_mid = [], hc_events = []\<rparr>"] by simp

end
