(* ===== verification/Status_Report.thy ===== *)
theory Status_Report
  imports Gate_Spec Server
begin

text \<open>
  The commit status of the gate (\<open>internal/dispatch/service.go\<close>), the reporter that sends it
  (\<open>internal/github/status.go\<close>) and the wiring of the two (\<open>cmd/drassi-server/main.go\<close>) together:
  which requests GitHub gets for the runs of one commit.
\<close>

text \<open>A run whose jobs are finished has nothing left to skip.\<close>

lemma rolled_up_not_doomed:
  assumes "rollup (jobs_of_run rid d) = Some st"
  shows "doomed_in rid d = {}"
proof -
  have "\<forall>j\<in>set (jobs_of_run rid d). isTerminalStatus (j_Status j)"
    using assms unfolding rollup_def by (metis option.distinct(1))
  then have "j \<notin> doomed_in rid d" for j
    using doomed_in_queued [of j rid d] terminal_skipped(2) by auto
  then show ?thesis by blast
qed

text \<open>Gating a finished run writes its status and hands one status to the reporter.\<close>

lemma gate_finished_run:
  assumes "solo (svc_env s)" and "commitStatus s" and "distinct (map j_ID (jobs (db w)))"
    and "distinct (map run_ID (workflow_runs (db w)))" and "length (jobs (db w)) < fuel"
    and "r \<in> set (workflow_runs (db w))" and "run_Event r \<noteq> ''manual''" and "run_Repo r \<noteq> []" and "run_SHA r \<noteq> []"
    and "rollup (jobs_of_run (run_ID r) (db w)) = Some st"
  obtains w' where "run_state (gateRun fuel s (run_ID r)) w = (Some (Inr ()), w')"
    and "jobs (db w') = jobs (db w)"
    and "workflow_runs (db w') = update_where (\<lambda>x. run_ID x = run_ID r) (\<lambda>x. x\<lparr>run_Status := st\<rparr>) (workflow_runs (db w))"
    and "posted w' = posted w @ [(run_Repo r, run_SHA r, commitStatusForRunStatus st)]"
proof -
  have none: "doomed_in (run_ID r) (db w) = {}" by (rule rolled_up_not_doomed [OF assms(10)])
  obtain ts w' where run: "run_state (gateRun fuel s (run_ID r)) w = (Some (Inr ()), w')" and out: "gate_outcome s (run_ID r) w ts w'"
    using gateRun_solo [OF assms(1,3,5), of "run_ID r"] assms(6) by auto
  have "(db w)\<lparr>jobs := jobs (db w)\<rparr> = db w" by simp
  then have w': "jobs (db w') = jobs (db w)"
    "workflow_runs (db w') = update_where (\<lambda>x. run_ID x = run_ID r) (\<lambda>x. x\<lparr>run_Status := st\<rparr>) (workflow_runs (db w))"
    "posted w' = posted w @ due_post s (db w) (run_ID r) st"
    using out assms(10) unfolding gate_outcome_def Let_def none skip_all_empty by simp_all
  have "find (\<lambda>x. run_ID x = run_ID r) (workflow_runs (db w)) = Some r" by (rule find_unique_key [OF assms(4,6)])
  then have "posted w' = posted w @ [(run_Repo r, run_SHA r, commitStatusForRunStatus st)]"
    using assms(2,7-9) by (simp add: w'(3) due_post_def)
  with run w' show ?thesis by (intro that)
qed

text \<open>The request a reporter makes of a status it is handed, whatever transport carries it.\<close>

definition reports_by :: "CommitStatusReporter \<Rightarrow> string \<times> string \<times> string \<times> string \<Rightarrow> Request \<Rightarrow> bool" where
  "reports_by R p req \<longleftrightarrow> (\<forall>http. ReportStatus http R (fst p) (fst (snd p)) (fst (snd (snd p))) (snd (snd (snd p))) =
     (case do_request http req of Inl e \<Rightarrow> Inl e | Inr _ \<Rightarrow> Inr ()))"

lemma run_status_short:
  assumes "rollup js = Some st"
  shows "truncateDescription (snd (commitStatusForRunStatus st)) = snd (commitStatusForRunStatus st)"
    "coerce_utf8 (snd (commitStatusForRunStatus st)) = snd (commitStatusForRunStatus st)"
    "fst (commitStatusForRunStatus st) \<in> set validCommitStatusStates"
proof -
  have "st \<in> {''success'', ''failure'', ''cancelled''}" using assms by (auto simp: rollup_def split: if_splits)
  then show "truncateDescription (snd (commitStatusForRunStatus st)) = snd (commitStatusForRunStatus st)"
    by (auto simp: commitStatusForRunStatus_def truncateDescription_def RuneCountInString_def runes_def decode_rune.simps
        char_code_def maxStatusDescriptionRunes_def)
  show "coerce_utf8 (snd (commitStatusForRunStatus st)) = snd (commitStatusForRunStatus st)"
    using \<open>st \<in> _\<close> by (intro coerce_ascii) (auto simp: commitStatusForRunStatus_def char_code_def)
  show "fst (commitStatusForRunStatus st) \<in> set validCommitStatusStates"
    using \<open>st \<in> _\<close> by (auto simp: commitStatusForRunStatus_def validCommitStatusStates_def)
qed

text \<open>What the wired reporter sends for a run's final status.\<close>

lemma wired_reporter_request:
  assumes "run_wired env_var X P = Inr S" and "splitRepo repo = Some (owner, name)" and "sha \<noteq> []"
    and "url_parses (''https://api.github.com/repos/'' @ repo @ ''/statuses/'' @ sha)" and "rollup js = Some st"
  obtains req where "reports_by (sv_reporter S) (repo, sha, commitStatusForRunStatus st) req"
    and "rq_Method req = ''POST''" and "rq_URL req = ''https://api.github.com/repos/'' @ repo @ ''/statuses/'' @ sha"
    and "json_parse (rq_Body req) = Some (JObject [(''state'', JString (fst (commitStatusForRunStatus st))),
      (''context'', JString ''drassi''), (''description'', JString (snd (commitStatusForRunStatus st)))])"
proof -
  let ?R = "sv_reporter S" and ?c = "commitStatusForRunStatus st"
  obtain tok where R: "csr_client ?R = New tok" "csr_context ?R = ''drassi''"
    using assms(1) by (auto simp: run_wired_def newHTTPServer_def NewCommitStatusReporter_def DefaultStatusContext_def Let_def
        split: sum.splits)
  have repo: "repo = owner @ ''/'' @ name" using assms(2) splitRepo_iff by blast
  let ?path = "''/repos/'' @ owner @ ''/'' @ name @ ''/statuses/'' @ sha"
  let ?payload = "Marshal (commitStatusRequestBody (fst ?c) (csr_context ?R) (truncateDescription (snd ?c)))"
  have url: "base (csr_client ?R) @ ?path = ''https://api.github.com/repos/'' @ repo @ ''/statuses/'' @ sha"
    by (simp add: R base_def New_def apiBase_def repo)
  obtain req where req: "newStatusRequest ?R ?path ?payload = Some req"
    using assms(4) unfolding newStatusRequest_def NewRequest_def Let_def url by (simp split: if_splits)
  have "reports_by ?R (repo, sha, ?c) req"
    using assms(2,3) run_status_short(3) [OF assms(5)] req by (simp add: reports_by_def ReportStatus_def Let_def)
  moreover have keys: "coerce_utf8 ''state'' = ''state''" "coerce_utf8 ''context'' = ''context''"
    "coerce_utf8 ''description'' = ''description''" "coerce_utf8 ''drassi'' = ''drassi''"
    by (rule coerce_ascii, simp add: char_code_def)+
  have "json_parse (rq_Body req) = Some (JObject [(''state'', JString (fst ?c)), (''context'', JString ''drassi''),
      (''description'', JString (snd ?c))])"
    using keys coerce_states [OF run_status_short(3) [OF assms(5)]] run_status_short(1,2) [OF assms(5)]
    by (simp add: newStatusRequest_fields(3) [OF req] R commitStatusRequestBody_def json_parse_string_object)
      (simp add: string_object_def)
  ultimately show ?thesis using newStatusRequest_fields(1,2) [OF req] url by (intro that) simp_all
qed

text \<open>
  C40: the runs of one commit share one check. A push starts a run for each workflow file, all
  with the commit of the push. When two of them are finished, each gets its own status in the
  database; but for both the server, as it is wired, posts to the same statuses of the commit
  under the same context, \<open>drassi\<close>, and nothing in the requests tells the two workflows apart. GitHub
  shows one check for a context, so the one that is gated later takes the place of the other:
  a failed workflow disappears behind one that succeeds later.
\<close>

theorem runs_of_a_commit_share_one_context:
  assumes "run_wired env_var X P = Inr S" and "solo (pf_env P)" and "distinct (map j_ID (jobs (db w)))"
    and "distinct (map run_ID (workflow_runs (db w)))" and "length (jobs (db w)) < fuel"
    and "r \<in> set (workflow_runs (db w))" and "r' \<in> set (workflow_runs (db w))" and "run_ID r' \<noteq> run_ID r"
    and "run_Repo r' = run_Repo r" and "run_SHA r' = run_SHA r" and "run_Event r \<noteq> ''manual''" and "run_Event r' \<noteq> ''manual''"
    and "splitRepo (run_Repo r) = Some (owner, name)" and "run_SHA r \<noteq> []"
    and "url_parses (''https://api.github.com/repos/'' @ run_Repo r @ ''/statuses/'' @ run_SHA r)"
    and "rollup (jobs_of_run (run_ID r) (db w)) = Some st" and "rollup (jobs_of_run (run_ID r') (db w)) = Some st'"
  shows "\<exists>w1 w2 p p' req req'.
    run_state (gateRun fuel (sv_service S) (run_ID r)) w = (Some (Inr ()), w1) \<and>
    run_state (gateRun fuel (sv_service S) (run_ID r')) w1 = (Some (Inr ()), w2) \<and>
    r\<lparr>run_Status := st\<rparr> \<in> set (workflow_runs (db w2)) \<and> r'\<lparr>run_Status := st'\<rparr> \<in> set (workflow_runs (db w2)) \<and>
    posted w2 = posted w @ [p, p'] \<and> reports_by (sv_reporter S) p req \<and> reports_by (sv_reporter S) p' req' \<and>
    rq_Method req = ''POST'' \<and> rq_Method req' = ''POST'' \<and>
    rq_URL req = ''https://api.github.com/repos/'' @ run_Repo r @ ''/statuses/'' @ run_SHA r \<and> rq_URL req' = rq_URL req \<and>
    json_parse (rq_Body req) = Some (JObject [(''state'', JString (fst (commitStatusForRunStatus st))),
      (''context'', JString ''drassi''), (''description'', JString (snd (commitStatusForRunStatus st)))]) \<and>
    json_parse (rq_Body req') = Some (JObject [(''state'', JString (fst (commitStatusForRunStatus st'))),
      (''context'', JString ''drassi''), (''description'', JString (snd (commitStatusForRunStatus st')))])"
proof -
  let ?s = "sv_service S"
  have s: "solo (svc_env ?s)" "commitStatus ?s"
    using assms(1,2) by (auto simp: run_wired_def newHTTPServer_def Let_def SetCommitStatusReporter_def NewService_def split: sum.splits)
  have repo: "run_Repo r \<noteq> []" using assms(13) splitRepo_iff by fastforce
  obtain w1 where w1: "run_state (gateRun fuel ?s (run_ID r)) w = (Some (Inr ()), w1)" "jobs (db w1) = jobs (db w)"
      "workflow_runs (db w1) = update_where (\<lambda>x. run_ID x = run_ID r) (\<lambda>x. x\<lparr>run_Status := st\<rparr>) (workflow_runs (db w))"
      "posted w1 = posted w @ [(run_Repo r, run_SHA r, commitStatusForRunStatus st)]"
    by (rule gate_finished_run [OF s assms(3-6,11) repo assms(14,16)])
  have ids: "map run_ID (workflow_runs (db w1)) = map run_ID (workflow_runs (db w))"
    by (simp add: w1(3) update_where_def)
  have r: "r\<lparr>run_Status := st\<rparr> \<in> set (workflow_runs (db w1))" "r' \<in> set (workflow_runs (db w1))"
    using assms(6-8) by (auto simp: w1(3) update_where_def intro!: rev_image_eqI [of r] rev_image_eqI [of r'])
  have roll: "rollup (jobs_of_run (run_ID r') (db w1)) = Some st'" using rollup_jobs [OF w1(2)] assms(17) by simp
  obtain w2 where w2: "run_state (gateRun fuel ?s (run_ID r')) w1 = (Some (Inr ()), w2)"
      "workflow_runs (db w2) = update_where (\<lambda>x. run_ID x = run_ID r') (\<lambda>x. x\<lparr>run_Status := st'\<rparr>) (workflow_runs (db w1))"
      "posted w2 = posted w1 @ [(run_Repo r', run_SHA r', commitStatusForRunStatus st')]"
    by (rule gate_finished_run [OF s _ _ _ r(2) assms(12) _ _ roll]) (use assms repo ids w1(2) in auto)
  have r2: "r\<lparr>run_Status := st\<rparr> \<in> set (workflow_runs (db w2))" "r'\<lparr>run_Status := st'\<rparr> \<in> set (workflow_runs (db w2))"
    using r assms(8) by (auto simp: w2(2) update_where_def intro!: rev_image_eqI [of "r\<lparr>run_Status := st\<rparr>"] rev_image_eqI [of r'])
  obtain req where req: "reports_by (sv_reporter S) (run_Repo r, run_SHA r, commitStatusForRunStatus st) req" "rq_Method req = ''POST''"
      "rq_URL req = ''https://api.github.com/repos/'' @ run_Repo r @ ''/statuses/'' @ run_SHA r"
      "json_parse (rq_Body req) = Some (JObject [(''state'', JString (fst (commitStatusForRunStatus st))),
        (''context'', JString ''drassi''), (''description'', JString (snd (commitStatusForRunStatus st)))])"
    by (rule wired_reporter_request [OF assms(1,13,14,15,16)])
  obtain req' where req': "reports_by (sv_reporter S) (run_Repo r, run_SHA r, commitStatusForRunStatus st') req'" "rq_Method req' = ''POST''"
      "rq_URL req' = ''https://api.github.com/repos/'' @ run_Repo r @ ''/statuses/'' @ run_SHA r"
      "json_parse (rq_Body req') = Some (JObject [(''state'', JString (fst (commitStatusForRunStatus st'))),
        (''context'', JString ''drassi''), (''description'', JString (snd (commitStatusForRunStatus st')))])"
    by (rule wired_reporter_request [OF assms(1,13,14,15,17)])
  show ?thesis
    by (rule exI [of _ w1], rule exI [of _ w2], rule exI [of _ "(run_Repo r, run_SHA r, commitStatusForRunStatus st)"],
        rule exI [of _ "(run_Repo r, run_SHA r, commitStatusForRunStatus st')"], rule exI [of _ req], rule exI [of _ req'])
      (simp add: w1(1,4) w2(1,3) r2 req req' assms(9,10))
qed

text \<open>Two runs of a push, one failed and one successful, gated in this order.\<close>

definition two_runs :: database where
  "two_runs = (db_with [(sample_job 11 ''build'' [])\<lparr>j_Status := ''failure''\<rparr>,
      (sample_job 12 ''lint'' [])\<lparr>j_RunID := 2, j_Status := ''success''\<rparr>])
    \<lparr>workflow_runs := [sample_run, sample_run\<lparr>run_ID := 2\<rparr>]\<rparr>"

theorem runs_of_a_commit_share_one_context_witness:
  "\<exists>w1 w2 p p' req req'.
     run_state (gateRun 3 (sv_service sample_process) 1) (world_with two_runs) = (Some (Inr ()), w1) \<and>
     run_state (gateRun 3 (sv_service sample_process) 2) w1 = (Some (Inr ()), w2) \<and> posted w2 = [p, p'] \<and>
     reports_by (sv_reporter sample_process) p req \<and> reports_by (sv_reporter sample_process) p' req' \<and> rq_URL req' = rq_URL req \<and>
     json_parse (rq_Body req) = Some (JObject [(''state'', JString ''failure''), (''context'', JString ''drassi''),
       (''description'', JString ''Drassi run failed'')]) \<and>
     json_parse (rq_Body req') = Some (JObject [(''state'', JString ''success''), (''context'', JString ''drassi''),
       (''description'', JString ''Drassi run succeeded'')])"
proof -
  let ?w = "world_with two_runs" and ?r = sample_run and ?r' = "sample_run\<lparr>run_ID := 2\<rparr>"
  have roll: "rollup (jobs_of_run (run_ID ?r) (db ?w)) = Some ''failure''" "rollup (jobs_of_run (run_ID ?r') (db ?w)) = Some ''success''"
    by (subst rollup_set [of _ "[(sample_job 11 ''build'' [])\<lparr>j_Status := ''failure''\<rparr>]"],
        auto simp: two_runs_def sample_defs rollup_def isTerminalStatus_def terminalJobStatuses_def)
  have split: "splitRepo (run_Repo ?r) = Some (''acme'', ''app'')" by (simp add: splitRepo_iff sample_defs)
  have "solo (pf_env sample_platform)" by (simp add: sample_platform_def sample_defs)
  from runs_of_a_commit_share_one_context [where w = ?w and r = ?r and r' = ?r' and fuel = 3,
      OF sample_wired this _ _ _ _ _ _ _ _ _ _ split _ _ roll]
  show ?thesis
    by (simp add: two_runs_def sample_defs commitStatusForRunStatus_def url_parses_def SplitN2_def is_ctl_def char_code_def) blast
qed

end
