(* ===== verification/Queue_Progress.thy ===== *)
theory Queue_Progress
  imports Queue_Spec
begin

text \<open>
  When the queue of \<open>internal/dispatch/queue.go\<close> makes progress: an attempt to acquire a job
  succeeds when one of the queued jobs it looks at is ready, and it looks only at the first
  ten by id. A ready job behind ten waiting ones is not leased, however often runners try.
\<close>

lemma solo_calm: "solo E \<Longrightarrow> calm.rely E"
  by (simp add: calm.rely_def solo_def calm.R_refl)

subsection \<open>One candidate\<close>

lemma lease_candidate_solo:
  assumes E: "solo E" and cand: "cand \<in> set (jobs (db w))" "j_Status cand = ''queued''"
  shows "\<exists>leased leaseID w'. run_state (lease_candidate E runnerID ttl cand) w = (Inr (Some (leased, leaseID)), w')"
proof -
  have hit: "rows_affected (\<lambda>j. j_ID j = j_ID cand \<and> j_Status j = ''queued'') (jobs (db w)) \<noteq> 0"
    using cand by (auto simp: rows_affected_0)
  have "find (\<lambda>j. j_ID j = j_ID cand) (jobs (db w)) \<noteq> None" using cand(1) by (auto simp: find_None_iff)
  with hit show ?thesis
    by (auto simp: lease_candidate_def uuid_new_def time_now_def Lease_def GetJob_def run_statement_solo [OF E] run_query_solo [OF E]
        sql_Lease_def update_jobs_def first_row_def find_update_where lease_row_def)
qed

text \<open>The listing a candidate is checked against: the cached one or a fresh one.\<close>

lemma jobsByJobIDForRun_solo:
  assumes E: "solo E" and dc: "calm dc (db w)" "cache_ok dc cache (db w)"
  obtains d0 cache' n where "run_state (jobsByJobIDForRun E rid cache) w =
      (Inr (groupJobsByJobID (jobs_of_run rid d0), cache'), w\<lparr>tick := n\<rparr>)" "calm dc d0" "calm d0 (db w)"
proof (cases "cache rid")
  case (Some grp)
  with dc(2) obtain d0 where "grp = groupJobsByJobID (jobs_of_run rid d0)" "calm dc d0" "calm d0 (db w)"
    by (auto simp: cache_ok_def)
  with Some that [of d0 cache "tick w"] show thesis by (simp add: jobsByJobIDForRun_def)
next
  case None
  with that [of "db w" "cache(rid \<mapsto> groupJobsByJobID (jobs_of_run rid (db w)))" "Suc (tick w)"] dc(1) show thesis
    by (simp add: jobsByJobIDForRun_def ListJobsForRun_def run_query_solo [OF E] Let_def calm.R_refl)
qed

lemma check_candidate_solo:
  assumes E: "solo E" and ids: "distinct (map j_ID (jobs (db w)))"
    and cand: "cand \<in> set (jobs (db w))" "j_Status cand = ''queued''" "cand \<in> set (jobs dc)"
    and dc: "calm dc (db w)" "cache_ok dc cache (db w)"
  shows "\<exists>b cache' w'. run_state (check_candidate E cand cache) w = (Inr (b, cache'), w') \<and>
    (b \<longrightarrow> db w' = db w) \<and> (may_lease dc cand \<longrightarrow> b) \<and>
    (\<forall>c\<in>set (jobs (db w)). j_ID c \<noteq> j_ID cand \<longrightarrow> c \<in> set (jobs (db w')))"
proof (cases "elems (j_Needs cand) = []")
  case True
  then show ?thesis by (auto simp: check_candidate_def)
next
  case False
  let ?rid = "j_RunID cand"
  obtain d0 cache' n where r: "run_state (jobsByJobIDForRun E ?rid cache) w =
      (Inr (groupJobsByJobID (jobs_of_run ?rid d0), cache'), w\<lparr>tick := n\<rparr>)" "calm dc d0"
    using jobsByJobIDForRun_solo [OF E dc, of ?rid] by metis
  let ?w = "w\<lparr>tick := n\<rparr>" and ?js = "jobs_of_run ?rid d0"
  have lease: "all_needs_terminal ?js cand \<and> (some_need_blocks ?js cand \<longrightarrow> \<not> hasDefaultIfExpr cand)" if m: "may_lease dc cand"
  proof -
    obtain c0 where c0: "c0 \<in> set (jobs d0)" "same_plan cand c0" using calm_row [OF r(2) cand(3)] by blast
    from may_lease_stable [OF r(2) cand(3) c0(2) m] needs_same_plan [OF c0(2)] c0(2) show ?thesis
      by (auto simp: may_lease_def) (auto simp: same_plan_def)
  qed
  show ?thesis
  proof (cases "all_needs_terminal ?js cand \<and> some_need_blocks ?js cand \<and> hasDefaultIfExpr cand")
    case True
    from skipJob_solo [OF E, of ?w cand] ids cand True False r(1) lease show ?thesis
      by (auto simp: check_candidate_def needsSatisfied_eq skip_all_def intro!: rev_image_eqI)
  next
    case no: False
    with False r(1) lease show ?thesis by (auto simp: check_candidate_def needsSatisfied_eq)
  qed
qed

subsection \<open>Progress\<close>

lemma acquire_loop_progress:
  assumes E: "solo E" and "db_ok (db w)" and "calm dc (db w)" and "cache_ok dc cache (db w)" and "db_ok dc"
    and "\<forall>c\<in>set cands. c \<in> set (jobs dc) \<and> c \<in> set (jobs (db w)) \<and> j_Status c = ''queued''"
    and "distinct (map j_ID cands)" and "j \<in> set cands" and "may_lease dc j"
  shows "\<exists>leased leaseID w'. run_state (acquire_loop E runnerID ttl cands cache) w = (Inr (Some (leased, leaseID)), w')"
  using assms(2-)
proof (induction cands arbitrary: w cache)
  case (Cons cand cands)
  have cand: "cand \<in> set (jobs (db w))" "j_Status cand = ''queued''" "cand \<in> set (jobs dc)" using Cons.prems(5) by auto
  have ids: "distinct (map j_ID (jobs (db w)))" using Cons.prems(1) by (simp add: db_ok_def)
  from check_candidate_solo [OF E ids cand Cons.prems(2,3)] obtain b cache' w1 where
    chk: "run_state (check_candidate E cand cache) w = (Inr (b, cache'), w1)"
    and b: "b \<longrightarrow> db w1 = db w" "may_lease dc cand \<longrightarrow> b"
    and rest: "\<forall>c\<in>set (jobs (db w)). j_ID c \<noteq> j_ID cand \<longrightarrow> c \<in> set (jobs (db w1))" by blast
  show ?case
  proof (cases b)
    case True
    with b(1) cand obtain leased leaseID w' where
      "run_state (lease_candidate E runnerID ttl cand) w1 = (Inr (Some (leased, leaseID)), w')"
      using lease_candidate_solo [OF E, of cand w1 runnerID ttl] by auto
    with True chk show ?thesis by simp
  next
    case False
    have c1: "calm (db w) (db w1)" by (rule calm.guarD [OF calm.guar_check_candidate [OF solo_calm [OF E]] chk])
    have ok1: "cache_ok dc cache' (db w1)"
      using check_candidate_ok [OF solo_calm [OF E] Cons.prems(2) cand(3) Cons.prems(3) chk] by blast
    have "\<exists>leased leaseID w'. run_state (acquire_loop E runnerID ttl cands cache') w1 = (Inr (Some (leased, leaseID)), w')"
    proof (rule Cons.IH)
      show "db_ok (db w1)" using calm_ok [OF c1] Cons.prems(1) .
      show "calm dc (db w1)" using Cons.prems(2) c1 by (rule calm.R_trans)
      show "\<forall>c\<in>set cands. c \<in> set (jobs dc) \<and> c \<in> set (jobs (db w1)) \<and> j_Status c = ''queued''"
      proof
        fix c assume c: "c \<in> set cands"
        then have "j_ID c \<noteq> j_ID cand" using Cons.prems(6) by (auto simp: image_iff)
        with c Cons.prems(5) rest show "c \<in> set (jobs dc) \<and> c \<in> set (jobs (db w1)) \<and> j_Status c = ''queued''" by simp
      qed
      show "j \<in> set cands" using Cons.prems(7,8) b(2) False by auto
    qed (use Cons.prems ok1 in auto)
    with False chk show ?thesis by simp
  qed
qed simp

text \<open>
  C17: an attempt to acquire a job is work-conserving on its batch. Alone on a well-formed
  database, when one of the first ten queued jobs by id has all its needs finished (and none
  of them blocks it), the attempt returns a lease, whatever the other nine wait for.
\<close>

theorem acquire_progress:
  assumes "solo E" and "db_ok (db w)" and "j \<in> set (queued_jobs candidateBatchSize (db w))"
    and "all_needs_terminal (jobs_of_run (j_RunID j) (db w)) j"
    and "hasDefaultIfExpr j \<longrightarrow> \<not> some_need_blocks (jobs_of_run (j_RunID j) (db w)) j"
  shows "\<exists>leased leaseID w'. run_state (acquireOneQueuedJob E runnerID ttl) w = (Inr (Some (leased, leaseID)), w')"
proof -
  let ?cands = "queued_jobs candidateBatchSize (db w)"
  have "distinct (map j_ID (filter (\<lambda>j. j_Status j = ''queued'') (jobs (db w))))"
    using assms(2) by (simp add: db_ok_def distinct_map_filter)
  then have "distinct (map j_ID ?cands)"
    by (simp add: queued_jobs_def take_map [symmetric] distinct_map distinct_sort)
  then have "\<exists>leased leaseID w'. run_state (acquire_loop E runnerID ttl ?cands Map.empty) (w\<lparr>tick := Suc (tick w)\<rparr>) =
      (Inr (Some (leased, leaseID)), w')"
    using assms by (intro acquire_loop_progress [where dc = "db w" and j = j])
      (auto simp: calm.R_refl cache_ok_def may_lease_def dest: queued_jobs_subset)
  then show ?thesis
    by (simp add: acquireOneQueuedJob_def ListQueuedJobs_def run_query_solo [OF assms(1)])
qed

theorem acquire_progress_witness:
  "\<exists>leased leaseID w'. run_state (acquireOneQueuedJob sample_env 7 1000) (world_with (db_with sample_jobs)) =
     (Inr (Some (leased, leaseID)), w')"
  by (rule acquire_progress [where j = "sample_job 11 ''build'' []"])
    (simp_all add: db_ok_def chunks_ok_def sample_defs lease_shape_def queued_jobs_def candidateBatchSize_def
      all_needs_terminal_def some_need_blocks_def needs_of_def)

subsection \<open>Starvation\<close>

definition waits :: "database \<Rightarrow> Job \<Rightarrow> bool" where
  "waits d j \<longleftrightarrow> \<not> all_needs_terminal (jobs_of_run (j_RunID j) d) j"

lemma waits_needs: "waits d j \<Longrightarrow> elems (j_Needs j) \<noteq> []"
  by (auto simp: waits_def all_needs_terminal_def needs_of_def)

text \<open>With a cache of listings of the present database, the listing of a run is the present one.\<close>

lemma jobsByJobIDForRun_cached:
  assumes E: "solo E" and "\<forall>rid grp. cache rid = Some grp \<longrightarrow> grp = groupJobsByJobID (jobs_of_run rid (db w))"
  shows "\<exists>n. run_state (jobsByJobIDForRun E rid cache) w =
    (Inr (groupJobsByJobID (jobs_of_run rid (db w)), cache(rid \<mapsto> groupJobsByJobID (jobs_of_run rid (db w)))), w\<lparr>tick := n\<rparr>)"
proof (cases "cache rid")
  case (Some grp)
  with assms(2) show ?thesis by (intro exI [of _ "tick w"]) (auto simp: jobsByJobIDForRun_def map_upd_triv)
qed (simp add: jobsByJobIDForRun_def ListJobsForRun_def run_query_solo [OF E] Let_def, blast)

lemma acquire_loop_waits:
  assumes E: "solo E" and "\<forall>rid grp. cache rid = Some grp \<longrightarrow> grp = groupJobsByJobID (jobs_of_run rid (db w))"
    and "\<forall>c\<in>set cands. waits (db w) c"
  shows "\<exists>n. run_state (acquire_loop E runnerID ttl cands cache) w = (Inr None, w\<lparr>tick := n\<rparr>)"
  using assms(2-)
proof (induction cands arbitrary: w cache)
  case Nil
  then show ?case by (intro exI [of _ "tick w"]) simp
next
  case (Cons c cands)
  let ?grp = "groupJobsByJobID (jobs_of_run (j_RunID c) (db w))"
  have c: "elems (j_Needs c) \<noteq> []" "\<not> fst (needsSatisfied c ?grp)"
    using Cons.prems(2) waits_needs by (auto simp: waits_def needsSatisfied_eq)
  obtain n where "run_state (jobsByJobIDForRun E (j_RunID c) cache) w =
      (Inr (?grp, cache(j_RunID c \<mapsto> ?grp)), w\<lparr>tick := n\<rparr>)"
    using jobsByJobIDForRun_cached [OF E Cons.prems(1)] by blast
  with c have "run_state (check_candidate E c cache) w = (Inr (False, cache(j_RunID c \<mapsto> ?grp)), w\<lparr>tick := n\<rparr>)"
    by (cases "needsSatisfied c ?grp") (simp add: check_candidate_def)
  moreover have "\<exists>m. run_state (acquire_loop E runnerID ttl cands (cache(j_RunID c \<mapsto> ?grp))) (w\<lparr>tick := n\<rparr>) =
      (Inr None, w\<lparr>tick := n\<rparr>\<lparr>tick := m\<rparr>)"
    by (rule Cons.IH) (use Cons.prems in auto)
  ultimately show ?case by auto
qed

lemma waiting_batch:
  assumes E: "solo E" and "\<forall>c\<in>set (queued_jobs candidateBatchSize (db w)). waits (db w) c"
  shows "\<exists>n. run_state (acquireOneQueuedJob E runnerID ttl) w = (Inr None, w\<lparr>tick := n\<rparr>)"
proof -
  let ?w = "w\<lparr>tick := Suc (tick w)\<rparr>"
  have "\<exists>n. run_state (acquire_loop E runnerID ttl (queued_jobs candidateBatchSize (db w)) Map.empty) ?w = (Inr None, ?w\<lparr>tick := n\<rparr>)"
    using assms(2) by (intro acquire_loop_waits [OF E]) auto
  then show ?thesis
    by (auto simp: acquireOneQueuedJob_def ListQueuedJobs_def run_query_solo [OF E])
qed

text \<open>
  C18: a waiting batch starves the queue. Alone on the database, when each of the first ten
  queued jobs by id waits for an unfinished need, an attempt returns nothing and changes no
  row, and so does every later attempt: a job behind them is never leased, even when it is
  ready, and even when it is the one the ten wait for.
\<close>

theorem waiting_batch_starves:
  assumes "solo E" and "\<forall>c\<in>set (queued_jobs candidateBatchSize (db w)). waits (db w) c"
  shows "let attempt = acquireOneQueuedJob E runnerID ttl; later = ((\<lambda>w. snd (run_state attempt w)) ^^ k) w
    in fst (run_state attempt later) = Inr None \<and> db later = db w"
proof -
  let ?step = "\<lambda>w. snd (run_state (acquireOneQueuedJob E runnerID ttl) w)"
  have db: "db ((?step ^^ k) w) = db w" for k
  proof (induction k)
    case (Suc k)
    with waiting_batch [OF assms(1), of "(?step ^^ k) w" runnerID ttl] assms(2) show ?case by auto
  qed simp
  with waiting_batch [OF assms(1), of "(?step ^^ k) w" runnerID ttl] assms(2) show ?thesis by (auto simp: Let_def)
qed

text \<open>A run whose job \<open>build\<close>, ready at once, has the largest id, and ten jobs that need it.\<close>

definition starved_tests :: "Job list" where
  "starved_tests = map (\<lambda>n. sample_job n ''test'' [''build'']) [2, 3, 4, 5, 6, 7, 8, 9, 10, 11]"

definition starved_db :: database where
  "starved_db = db_with (sample_job 100 ''build'' [] # starved_tests)"

lemma starved_batch: "queued_jobs candidateBatchSize starved_db = starved_tests"
  by code_simp

lemma starved_tests_wait:
  assumes "c \<in> set starved_tests"
  shows "waits starved_db c"
proof -
  let ?build = "sample_job 100 ''build'' []"
  have c: "j_RunID c = 1" "needs_of c = {''build''}"
    using assms by (auto simp: starved_tests_def sample_job_def needs_of_def)
  have "?build \<in> set (jobs_of_run 1 starved_db)" by (simp add: set_jobs_of_run starved_db_def db_with_def sample_job_def)
  moreover have "j_JobIDYAML ?build = ''build''" "\<not> isTerminalStatus (j_Status ?build)"
    by (simp_all add: sample_job_def isTerminalStatus_def terminalJobStatuses_def)
  ultimately show ?thesis unfolding waits_def all_needs_terminal_def c by (metis insertI1)
qed

theorem waiting_batch_starves_witness:
  "db_ok starved_db \<and> (\<exists>j\<in>set (jobs starved_db). j_Status j = ''queued'' \<and> \<not> waits starved_db j) \<and>
   fst (run_state (acquireOneQueuedJob sample_env 7 1000)
     (((\<lambda>w. snd (run_state (acquireOneQueuedJob sample_env 7 1000) w)) ^^ 100) (world_with starved_db))) = Inr None"
proof (intro conjI)
  have "distinct (map j_ID (jobs starved_db))" by code_simp
  moreover have "\<forall>j\<in>set (jobs starved_db). lease_shape j \<and> j_RunID j = 1"
    by (auto simp: starved_db_def starved_tests_def db_with_def sample_job_def lease_shape_def)
  ultimately show "db_ok starved_db"
    by (auto simp: db_ok_def chunks_ok_def starved_db_def db_with_def empty_db_def sample_run_def sample_runner_def)
  show "\<exists>j\<in>set (jobs starved_db). j_Status j = ''queued'' \<and> \<not> waits starved_db j"
    by (rule bexI [of _ "sample_job 100 ''build'' []"])
      (simp_all add: starved_db_def db_with_def sample_job_def waits_def all_needs_terminal_def needs_of_def)
  have "\<forall>c\<in>set (queued_jobs candidateBatchSize (db (world_with starved_db))). waits (db (world_with starved_db)) c"
    by (simp add: starved_batch starved_tests_wait world_with_def)
  from waiting_batch_starves [OF solo_sample_env this, of 7 1000 100]
  show "fst (run_state (acquireOneQueuedJob sample_env 7 1000)
     (((\<lambda>w. snd (run_state (acquireOneQueuedJob sample_env 7 1000) w)) ^^ 100) (world_with starved_db))) = Inr None"
    unfolding Let_def by (rule conjunct1)
qed

end
