(* ===== verification/Run_Progress.thy ===== *)
theory Run_Progress
  imports Queue_Progress Completion_Spec
begin

text \<open>
  The RPCs of the dispatch service composed: a runner that asks for a job with
  \<open>AcquireJob\<close>, works it off and reports with \<open>CompleteJob\<close>, again and again. Alone on
  the service, it finishes every job of every run, and the runs end with the status their
  jobs roll up to. Nothing waits for ever, as long as at most ten jobs are queued.
\<close>

subsection \<open>A settled queue\<close>

text \<open>No run has a job the gate would skip.\<close>

definition settled :: "database \<Rightarrow> bool" where
  "settled d \<longleftrightarrow> (\<forall>rid. doomed_in rid d = {})"

lemma settled_not_skippable:
  "settled d \<Longrightarrow> j \<in> set (jobs d) \<Longrightarrow> \<not> skippable (jobs_of_run (j_RunID j) d) j"
  using skippable_doomed [of j "jobs_of_run (j_RunID j) d"] by (auto simp: settled_def doomed_in_def)

definition put_row :: "Job \<Rightarrow> Job \<Rightarrow> Job list \<Rightarrow> Job list" where
  "put_row j j' rows = map (\<lambda>r. if r = j then j' else r) rows"

lemma put_row_columns:
  assumes "k j' = k j"
  shows "map k (put_row j j' rows) = map k rows" "k ` set (put_row j j' rows) = k ` set rows"
proof -
  show m: "map k (put_row j j' rows) = map k rows" using assms by (simp add: put_row_def)
  show "k ` set (put_row j j' rows) = k ` set rows" using arg_cong [OF m, of set] by simp
qed

lemma length_put_row [simp]: "length (put_row j j' rows) = length rows"
  by (simp add: put_row_def)

lemma find_put_row:
  "distinct (map j_ID rows) \<Longrightarrow> j \<in> set rows \<Longrightarrow> j_ID j' = j_ID j \<Longrightarrow>
    find (\<lambda>r. j_ID r = j_ID j) (put_row j j' rows) = Some j'"
  by (induction rows) (auto simp: put_row_def image_iff)

text \<open>An answer that leases one row and changes nothing else.\<close>

definition leases_row :: "env \<Rightarrow> uuid \<Rightarrow> Job \<Rightarrow> world \<Rightarrow> (store_error + (Job \<times> uuid) option) \<times> world \<Rightarrow> bool" where
  "leases_row E runnerID j w res \<longleftrightarrow>
     (\<exists>leased m dl now n. leased = lease_row (new_uuid E m) runnerID dl now j \<and>
        res = (Inr (Some (leased, new_uuid E m)), w\<lparr>db := (db w)\<lparr>jobs := put_row j leased (jobs (db w))\<rparr>, tick := n\<rparr>))"

lemma leases_row_tick [simp]: "leases_row E runnerID j (w\<lparr>tick := n\<rparr>) res = leases_row E runnerID j w res"
  by (simp add: leases_row_def)

lemma leases_row_Some: "leases_row E runnerID j w res \<Longrightarrow> \<exists>l w'. res = (Inr (Some l), w')"
  by (auto simp: leases_row_def)

lemma lease_candidate_row:
  assumes E: "solo E" and ids: "distinct (map j_ID (jobs (db w)))"
    and cand: "cand \<in> set (jobs (db w))" "j_Status cand = ''queued''"
  shows "leases_row E runnerID cand w (run_state (lease_candidate E runnerID ttl cand) w)"
proof -
  let ?f = "lease_row (new_uuid E (tick w)) runnerID (add_time (clock E (Suc (tick w))) ttl) (clock E (Suc (Suc (tick w))))"
  have hit: "rows_affected (\<lambda>j. j_ID j = j_ID cand \<and> j_Status j = ''queued'') (jobs (db w)) \<noteq> 0"
    using cand by (auto simp: rows_affected_0)
  have upd: "update_where (\<lambda>j. j_ID j = j_ID cand \<and> j_Status j = ''queued'') ?f (jobs (db w)) = put_row cand (?f cand) (jobs (db w))"
    using row_by_id [OF ids _ cand(1)] cand(2) by (auto simp: update_where_def put_row_def)
  have "find (\<lambda>j. j_ID j = j_ID cand) (put_row cand (?f cand) (jobs (db w))) = Some (?f cand)"
    by (rule find_put_row [OF ids cand(1)]) (simp add: lease_row_def)
  with hit upd show ?thesis
    by (simp add: lease_candidate_def Lease_def GetJob_def run_statement_solo [OF E] run_query_solo [OF E]
        sql_Lease_def update_jobs_def first_row_def leases_row_def) blast
qed

text \<open>On a settled database the loop leases the first ready candidate and touches nothing else.\<close>

lemma check_candidate_settled:
  assumes E: "solo E" and settled: "settled (db w)" and c: "c \<in> set (jobs (db w))" "j_Status c = ''queued''"
    and cache: "\<forall>rid grp. cache rid = Some grp \<longrightarrow> grp = groupJobsByJobID (jobs_of_run rid (db w))"
  shows "\<exists>n cache'. run_state (check_candidate E c cache) w = (Inr (may_lease (db w) c, cache'), w\<lparr>tick := n\<rparr>) \<and>
    (\<forall>rid grp. cache' rid = Some grp \<longrightarrow> grp = groupJobsByJobID (jobs_of_run rid (db w)))"
proof (cases "elems (j_Needs c) = []")
  case True
  then show ?thesis using cache
    by (intro exI [of _ "tick w"] exI [of _ cache])
      (auto simp: check_candidate_def may_lease_def all_needs_terminal_def some_need_blocks_def needs_of_def)
next
  case False
  let ?grp = "groupJobsByJobID (jobs_of_run (j_RunID c) (db w))"
  obtain n where n: "run_state (jobsByJobIDForRun E (j_RunID c) cache) w = (Inr (?grp, cache(j_RunID c \<mapsto> ?grp)), w\<lparr>tick := n\<rparr>)"
    using jobsByJobIDForRun_cached [OF E cache] by blast
  show ?thesis using False n settled_not_skippable [OF settled c(1)] c(2) cache
    by (auto simp: check_candidate_def needsSatisfied_eq may_lease_def skippable_def)
qed

lemma acquire_loop_settled:
  assumes E: "solo E" and ids: "distinct (map j_ID (jobs (db w)))" and settled: "settled (db w)"
    and "\<forall>rid grp. cache rid = Some grp \<longrightarrow> grp = groupJobsByJobID (jobs_of_run rid (db w))"
    and "\<forall>c\<in>set cands. c \<in> set (jobs (db w)) \<and> j_Status c = ''queued''"
    and "\<exists>c\<in>set cands. may_lease (db w) c"
  shows "\<exists>j\<in>set cands. leases_row E runnerID j w (run_state (acquire_loop E runnerID ttl cands cache) w)"
  using assms(2-)
proof (induction cands arbitrary: w cache)
  case (Cons c cands)
  have c: "c \<in> set (jobs (db w))" "j_Status c = ''queued''" using Cons.prems(4) by auto
  obtain n cache' where chk: "run_state (check_candidate E c cache) w = (Inr (may_lease (db w) c, cache'), w\<lparr>tick := n\<rparr>)"
    and cache': "\<forall>rid grp. cache' rid = Some grp \<longrightarrow> grp = groupJobsByJobID (jobs_of_run rid (db w))"
    using check_candidate_settled [OF E Cons.prems(2) c Cons.prems(3)] by blast
  show ?case
  proof (cases "may_lease (db w) c")
    case True
    have l: "leases_row E runnerID c w (run_state (lease_candidate E runnerID ttl c) (w\<lparr>tick := n\<rparr>))"
      using lease_candidate_row [OF E, of "w\<lparr>tick := n\<rparr>" c runnerID ttl] Cons.prems(1) c by simp
    with leases_row_Some [OF this] chk True show ?thesis by (intro bexI [of _ c]) auto
  next
    case False
    have "\<exists>j\<in>set cands. leases_row E runnerID j (w\<lparr>tick := n\<rparr>) (run_state (acquire_loop E runnerID ttl cands cache') (w\<lparr>tick := n\<rparr>))"
      by (rule Cons.IH) (use Cons.prems cache' False in auto)
    with False chk show ?thesis by auto
  qed
qed simp

lemma acquireOne_settled:
  assumes E: "solo E" and ids: "distinct (map j_ID (jobs (db w)))" and settled: "settled (db w)"
    and "\<exists>c\<in>set (queued_jobs candidateBatchSize (db w)). may_lease (db w) c"
  shows "\<exists>j\<in>set (jobs (db w)). j_Status j = ''queued'' \<and>
    leases_row E runnerID j w (run_state (acquireOneQueuedJob E runnerID ttl) w)"
proof -
  let ?w = "w\<lparr>tick := Suc (tick w)\<rparr>" and ?cands = "queued_jobs candidateBatchSize (db w)"
  have "\<exists>j\<in>set ?cands. leases_row E runnerID j ?w (run_state (acquire_loop E runnerID ttl ?cands Map.empty) ?w)"
    by (rule acquire_loop_settled [OF E]) (use assms in \<open>auto dest: queued_jobs_subset\<close>)
  then show ?thesis
    by (auto simp: acquireOneQueuedJob_def ListQueuedJobs_def run_query_solo [OF E] dest: queued_jobs_subset)
qed

subsection \<open>The two calls of a round\<close>

text \<open>The service at a moment when \<open>uuid.New\<close> returns \<open>u\<close>.\<close>

definition drawing :: "uuid \<Rightarrow> Service \<Rightarrow> Service" where
  "drawing u s = s\<lparr>svc_env := (svc_env s)\<lparr>new_uuid := \<lambda>_. u\<rparr>\<rparr>"

lemma drawing_simps [simp]:
  "new_uuid (svc_env (drawing u s)) = (\<lambda>_. u)" "uuid_parse (drawing u s) = uuid_parse s"
  "uuid_string (drawing u s) = uuid_string s" "leaseTTL (drawing u s) = leaseTTL s"
  "solo (svc_env (drawing u s)) = solo (svc_env s)"
  by (simp_all add: drawing_def leaseTTL_def solo_def)

text \<open>The credentials of a call are those of a registered runner.\<close>

definition runner_login :: "Service \<Rightarrow> metadata \<Rightarrow> string \<Rightarrow> uuid \<Rightarrow> database \<Rightarrow> bool" where
  "runner_login s md name rid d \<longleftrightarrow> uuid_parse s name = Some rid \<and>
     (\<exists>tok rn. bearerToken md = Inr tok \<and> find (\<lambda>r. rn_ID r = rid) (runners d) = Some rn \<and> validToken tok (rn_AuthToken rn))"

lemma needs_outputs_solo:
  "solo (svc_env s) \<Longrightarrow> \<exists>m n. run_state (needs_outputs_loop s grp needs acc) w = (Inr m, w\<lparr>tick := n\<rparr>)"
proof (induction needs arbitrary: acc w)
  case Nil
  show ?case by (intro exI [of _ acc] exI [of _ "tick w"]) simp
next
  case (Cons need needs)
  show ?case
  proof (cases "\<exists>n r. canonicalNeedRow (uuid_string s) (map_get grp need) = Some n \<and> j_Result n = Some r")
    case True
    then obtain n r where "canonicalNeedRow (uuid_string s) (map_get grp need) = Some n" "j_Result n = Some r" by blast
    with Cons.IH [OF Cons.prems, of "acc(need \<mapsto> \<lparr>no_Result = r, no_Outputs = outputs_of (j_ID n) (db w)\<rparr>)" "w\<lparr>tick := Suc (tick w)\<rparr>"]
    show ?thesis by (simp add: ListOutputs_def run_query_solo [OF Cons.prems] del: fun_upd_apply)
  next
    case False
    with Cons.IH [OF Cons.prems, of acc w] show ?thesis by (auto split: option.splits)
  qed
qed

lemma buildJobLease_solo:
  assumes E: "solo (svc_env s)" and run: "j_RunID job \<in> run_ID ` set (workflow_runs (db w))"
  shows "\<exists>lease n. run_state (buildJobLease s job leaseID ttl) w = (Inr lease, w\<lparr>tick := n\<rparr>) \<and>
    jl_LeaseId lease = uuid_string s leaseID"
proof -
  obtain r where r: "find (\<lambda>r. run_ID r = j_RunID job) (workflow_runs (db w)) = Some r"
    using run by (cases "find (\<lambda>r. run_ID r = j_RunID job) (workflow_runs (db w))") (auto simp: find_None_iff)
  have "\<exists>m n. run_state (buildNeedsOutputs s job) (w\<lparr>tick := Suc (tick w)\<rparr>) = (Inr m, w\<lparr>tick := n\<rparr>)"
    using needs_outputs_solo [OF E, of "groupJobsByJobID (jobs_of_run (j_RunID job) (db w))" "elems (j_Needs job)" Map.empty
        "w\<lparr>tick := Suc (Suc (tick w))\<rparr>"]
    by (auto simp: buildNeedsOutputs_def ListJobsForRun_def run_query_solo [OF E])
  with r show ?thesis by (auto simp: buildJobLease_def GetRun_def first_row_def run_query_solo [OF E])
qed

lemma AcquireJob_settled:
  assumes E: "solo (svc_env s)" and ok: "db_ok (db w)" and settled: "settled (db w)"
    and ready: "\<exists>c\<in>set (queued_jobs candidateBatchSize (db w)). may_lease (db w) c"
    and login: "runner_login s md name rid (db w)"
  shows "\<exists>j\<in>set (jobs (db w)). j_Status j = ''queued'' \<and> (\<exists>lease leased dl now n.
    leased = lease_row u rid dl now j \<and> jl_LeaseId lease = uuid_string s u \<and>
    run_state (AcquireJob (drawing u s) md \<lparr>aq_RunnerId = name, aq_FreeSlots = 1\<rparr> (\<lambda>_. True) evs) w =
      ((Some (Inr ()), [lease]), w\<lparr>db := (db w)\<lparr>jobs := put_row j leased (jobs (db w))\<rparr>, tick := n\<rparr>))"
proof -
  let ?s = "drawing u s" and ?w = "w\<lparr>tick := Suc (tick w)\<rparr>"
  have E': "solo (svc_env ?s)" using E by simp
  obtain j where j: "j \<in> set (jobs (db w))" "j_Status j = ''queued''"
    and l: "leases_row (svc_env ?s) rid j ?w (run_state (acquireOneQueuedJob (svc_env ?s) rid (leaseTTL s)) ?w)"
    using acquireOne_settled [OF E', of ?w rid "leaseTTL s"] ok settled ready by (auto simp: db_ok_def)
  then obtain leased dl now n where leased: "leased = lease_row u rid dl now j"
    and acq: "run_state (acquireOneQueuedJob (svc_env ?s) rid (leaseTTL s)) ?w =
      (Inr (Some (leased, u)), w\<lparr>db := (db w)\<lparr>jobs := put_row j leased (jobs (db w))\<rparr>, tick := n\<rparr>)"
    by (auto simp: leases_row_def)
  have "j_RunID leased \<in> run_ID ` set (workflow_runs (db w))"
    using ok j(1) leased by (auto simp: db_ok_def lease_row_def)
  then obtain lease m where "run_state (buildJobLease ?s leased u (leaseTTL s))
      (w\<lparr>db := (db w)\<lparr>jobs := put_row j leased (jobs (db w))\<rparr>, tick := n\<rparr>) =
      (Inr lease, w\<lparr>db := (db w)\<lparr>jobs := put_row j leased (jobs (db w))\<rparr>, tick := m\<rparr>)" "jl_LeaseId lease = uuid_string s u"
    using buildJobLease_solo [OF E', of leased "w\<lparr>db := (db w)\<lparr>jobs := put_row j leased (jobs (db w))\<rparr>, tick := n\<rparr>" u "leaseTTL s"] by auto
  with acq login have "run_state (AcquireJob ?s md \<lparr>aq_RunnerId = name, aq_FreeSlots = 1\<rparr> (\<lambda>_. True) evs) w =
      ((Some (Inr ()), [lease]), w\<lparr>db := (db w)\<lparr>jobs := put_row j leased (jobs (db w))\<rparr>, tick := m\<rparr>)"
    by (auto simp: AcquireJob_def runner_login_def run_GetByID [OF E'] first_row_def numeral_eq_Suc)
  with j leased \<open>jl_LeaseId lease = uuid_string s u\<close> show ?thesis by blast
qed

subsection \<open>One round\<close>

text \<open>
  A runner's round: it asks for one job, and when it gets one it reports the phase and the
  outputs its work gives. When nothing is queued it disconnects.
\<close>

definition work_round ::
    "nat \<Rightarrow> Service \<Rightarrow> metadata \<Rightarrow> string \<Rightarrow> (JobLease \<Rightarrow> Phase \<times> (string \<times> string) list) \<Rightarrow> uuid \<Rightarrow> (world, unit) state" where
  "work_round fuel s md name work u = do {
     r \<leftarrow> AcquireJob (drawing u s) md \<lparr>aq_RunnerId = name, aq_FreeSlots = 1\<rparr> (\<lambda>_. True) [CtxDone];
     case snd r of
       [] \<Rightarrow> ret ()
     | lease # _ \<Rightarrow> do {
         CompleteJob fuel (drawing u s) md
           \<lparr>cj_LeaseId = jl_LeaseId lease, cj_Result = fst (work lease), cj_Outputs = snd (work lease)\<rparr>;
         ret ()
       }
   }"

text \<open>A row after a round: as it was, or finished; it keeps its planned columns.\<close>

definition advances :: "uuid \<Rightarrow> Job \<Rightarrow> Job \<Rightarrow> bool" where
  "advances u r r' \<longleftrightarrow> r' = r \<or>
     j_Status r = ''queued'' \<and> isTerminalStatus (j_Status r') \<and> j_ID r' = j_ID r \<and> j_RunID r' = j_RunID r \<and>
     j_JobIDYAML r' = j_JobIDYAML r \<and> j_Needs r' = j_Needs r \<and> j_LeaseID r' \<in> {j_LeaseID r, Some u}"

lemma advances_keeps:
  assumes "advances u r r'"
  shows "j_ID r' = j_ID r" "j_RunID r' = j_RunID r" "j_JobIDYAML r' = j_JobIDYAML r" "needs_of r' = needs_of r"
  using assms by (auto simp: advances_def needs_of_def)

text \<open>A run whose jobs are all finished has the status they roll up to.\<close>

definition rolled_up :: "uuid \<Rightarrow> database \<Rightarrow> bool" where
  "rolled_up rid d \<longleftrightarrow>
     (\<forall>r\<in>set (workflow_runs d). run_ID r = rid \<longrightarrow> (\<forall>st. rollup (jobs_of_run rid d) = Some st \<longrightarrow> run_Status r = st))"

lemma gate_runs:
  assumes "gate_outcome s rid w ts w'" and "r \<in> set (workflow_runs (db w'))"
  shows "(run_ID r = rid \<longrightarrow> (\<forall>st. rollup (jobs_of_run rid (db w')) = Some st \<longrightarrow> run_Status r = st)) \<and>
    (run_ID r \<noteq> rid \<longrightarrow> r \<in> set (workflow_runs (db w)))"
proof -
  let ?d = "(db w)\<lparr>jobs := skip_all (doomed_in rid (db w)) ts (jobs (db w))\<rparr>"
  have "rollup (jobs_of_run rid (db w')) = rollup (jobs_of_run rid ?d)"
    using assms(1) by (intro rollup_jobs) (simp add: gate_outcome_def Let_def)
  with assms show ?thesis
    by (auto simp: gate_outcome_def Let_def update_where_def split: option.splits if_splits)
qed

lemma gate_settles:
  assumes "gate_outcome s rid w ts w'"
  shows "doomed_in rid (db w') = {}"
proof -
  let ?d = "(db w)\<lparr>jobs := skip_all (doomed_in rid (db w)) ts (jobs (db w))\<rparr>"
  have "doomed_in rid (db w') = doomed_in rid ?d"
    using assms by (intro doomed_in_jobs) (simp add: gate_outcome_def Let_def)
  then show ?thesis by (simp add: doomed_in_after)
qed

lemma find_put_row_lease:
  "j \<in> set rows \<Longrightarrow> Some u \<notin> j_LeaseID ` set rows \<Longrightarrow> j_LeaseID j' = Some u \<Longrightarrow>
    find (\<lambda>r. j_LeaseID r = Some u) (put_row j j' rows) = Some j'"
  by (induction rows) (auto simp: put_row_def)

lemma complete_put_row:
  "j' \<notin> set rows \<Longrightarrow> map (\<lambda>r. if r = j' then f r else r) (put_row j j' rows) = put_row j (f j') rows"
  by (auto simp: put_row_def)

definition round_result :: "uuid \<Rightarrow> (Job \<Rightarrow> Job) \<Rightarrow> database \<Rightarrow> database \<Rightarrow> bool" where
  "round_result u f d d' \<longleftrightarrow> jobs d' = map f (jobs d) \<and> (\<forall>r\<in>set (jobs d). advances u r (f r)) \<and>
     runners d' = runners d \<and> settled d' \<and> (\<forall>rid. rolled_up rid d \<longrightarrow> rolled_up rid d')"

text \<open>A row put in, and then the gate on its run.\<close>

lemma gate_round:
  assumes settled: "settled d" and j: "j \<in> set (jobs d)" "j_Status j = ''queued''"
    and fin: "advances u j fin" "isTerminalStatus (j_Status fin)"
    and d1: "jobs (db w1) = put_row j fin (jobs d)" "workflow_runs (db w1) = workflow_runs d" "runners (db w1) = runners d"
    and gate: "gate_outcome s (j_RunID j) w1 ts w'"
  shows "\<exists>f. isTerminalStatus (j_Status (f j)) \<and> round_result u f d (db w')"
proof -
  let ?D = "doomed_in (j_RunID j) (db w1)" and ?put = "\<lambda>r. if r = j then fin else r"
  let ?f = "\<lambda>r. if ?put r \<in> ?D then skip_row (ts (?put r)) (?put r) else ?put r"
  have D: "r \<in> ?D \<Longrightarrow> j_Status r = ''queued'' \<and> j_RunID r = j_RunID j" for r by (auto dest: doomed_in_queued)
  have fin_D: "fin \<notin> ?D" using D fin(2) terminal_skipped(2) by auto
  have run_fin: "j_RunID fin = j_RunID j" using fin(1) by (auto simp: advances_def)
  have jobs: "jobs (db w') = map ?f (jobs d)"
    using gate by (simp add: gate_outcome_def Let_def d1(1) put_row_def skip_all_def)
  have adv: "advances u r (?f r)" for r
    using fin fin_D D [of r] by (auto simp: advances_def skip_row_def result_row_def terminal_skipped)
  have run_f: "j_RunID (?f r) = j_RunID r" for r by (rule advances_keeps(2) [OF adv])
  have other: "?f r = r" if "j_RunID r \<noteq> j_RunID j" for r using that D [of r] by auto
  have same: "set (jobs_of_run rid (db w')) = set (jobs_of_run rid d)" if "rid \<noteq> j_RunID j" for rid
  proof -
    have "?f r \<in> set (jobs d)" if "r \<in> set (jobs d)" "j_RunID (?f r) = rid" for r
      using other [of r] that run_f [of r] \<open>rid \<noteq> j_RunID j\<close> by simp
    moreover have "r \<in> ?f ` set (jobs d)" if "r \<in> set (jobs d)" "j_RunID r = rid" for r
      using other [of r] that \<open>rid \<noteq> j_RunID j\<close> by (intro image_eqI [of _ _ r]) simp_all
    ultimately show ?thesis unfolding set_jobs_of_run jobs set_map by blast
  qed
  have "doomed_in rid (db w') = {}" for rid
  proof (cases "rid = j_RunID j")
    case False
    have "doomed_in rid (db w') = doomed_in rid d"
      unfolding doomed_in_def using doomed_set [OF same [OF False]] by blast
    with settled show ?thesis by (simp add: settled_def)
  qed (simp add: gate_settles [OF gate])
  moreover have "rolled_up rid (db w')" if "rolled_up rid d" for rid
  proof (cases "rid = j_RunID j")
    case False
    have "rollup (jobs_of_run rid (db w')) = rollup (jobs_of_run rid d)" by (rule rollup_set [OF same [OF False]])
    with that gate_runs [OF gate] False d1(2) show ?thesis by (auto simp: rolled_up_def)
  qed (use gate_runs [OF gate] in \<open>auto simp: rolled_up_def\<close>)
  moreover have "runners (db w') = runners d" using gate d1(3) by (simp add: gate_outcome_def Let_def)
  ultimately have "round_result u ?f d (db w')" using jobs adv by (auto simp: round_result_def settled_def)
  moreover have "isTerminalStatus (j_Status (?f j))" using fin_D fin(2) by simp
  ultimately show ?thesis by (intro exI [of _ ?f] conjI)
qed

lemma work_round_ready:
  assumes E: "solo (svc_env s)" and ok: "db_ok (db w)" and settled: "settled (db w)"
    and ready: "\<exists>c\<in>set (queued_jobs candidateBatchSize (db w)). may_lease (db w) c"
    and login: "runner_login s md name rid (db w)"
    and u: "Some u \<notin> j_LeaseID ` set (jobs (db w))" "uuid_parse s (uuid_string s u) = Some u"
    and fuel: "length (jobs (db w)) < fuel"
    and work: "\<forall>l. \<exists>r. phaseToResult (fst (work l)) = Inr r \<and> isTerminalStatus r"
  shows "\<exists>f. \<exists>j\<in>set (jobs (db w)). j_Status j = ''queued'' \<and> isTerminalStatus (j_Status (f j)) \<and>
    round_result u f (db w) (db (snd (run_state (work_round fuel s md name work u) w)))"
proof -
  let ?s = "drawing u s"
  obtain j lease leased dl now n where j: "j \<in> set (jobs (db w))" "j_Status j = ''queued''"
    and leased: "leased = lease_row u rid dl now j" and lease: "jl_LeaseId lease = uuid_string s u"
    and acq: "run_state (AcquireJob ?s md \<lparr>aq_RunnerId = name, aq_FreeSlots = 1\<rparr> (\<lambda>_. True) [CtxDone]) w =
      ((Some (Inr ()), [lease]), w\<lparr>db := (db w)\<lparr>jobs := put_row j leased (jobs (db w))\<rparr>, tick := n\<rparr>)"
    using AcquireJob_settled [OF E ok settled ready login, of u "[CtxDone]"] by blast
  let ?w = "w\<lparr>db := (db w)\<lparr>jobs := put_row j leased (jobs (db w))\<rparr>, tick := n\<rparr>"
  let ?req = "\<lparr>cj_LeaseId = jl_LeaseId lease, cj_Result = fst (work lease), cj_Outputs = snd (work lease)\<rparr>"
  obtain result where result: "phaseToResult (fst (work lease)) = Inr result" "isTerminalStatus result" using work by blast
  obtain tok rn where tok: "bearerToken md = Inr tok" "find (\<lambda>r. rn_ID r = rid) (runners (db w)) = Some rn"
    "validToken tok (rn_AuthToken rn)" using login by (auto simp: runner_login_def)
  have lid: "j_LeaseID leased = Some u" "j_RunnerID leased = Some rid" "j_RunID leased = j_RunID j" "j_ID leased = j_ID j"
    by (simp_all add: leased lease_row_def)
  have "distinct (map j_ID (jobs (db ?w)))" "j_RunID ` set (jobs (db ?w)) \<subseteq> run_ID ` set (workflow_runs (db ?w))"
    using ok put_row_columns [of j_ID, OF lid(4)] put_row_columns [of j_RunID, OF lid(3)] by (simp_all add: db_ok_def)
  then obtain t w1 ts w' where comp: "run_state (CompleteJob fuel ?s md ?req) ?w = (Some (Inr ()), w')"
    and rec: "completion_recorded leased result t (snd (work lease)) ?w w1" and gate: "gate_outcome ?s (j_RunID leased) w1 ts w'"
    using CompleteJob_solo [of ?s ?w fuel md tok ?req u leased rid rn result] E ok fuel lease u tok result
      find_put_row_lease [OF j(1) u(1) lid(1)] lid
    by auto
  let ?fin = "completed_row result t leased"
  have "leased \<notin> set (jobs (db w))" using u(1) lid(1) by force
  with rec have d1: "jobs (db w1) = put_row j ?fin (jobs (db w))" "workflow_runs (db w1) = workflow_runs (db w)"
    "runners (db w1) = runners (db w)"
    by (simp_all add: completion_recorded_def complete_put_row)
  have fin: "advances u j ?fin" "isTerminalStatus (j_Status ?fin)"
    using j(2) result(2) by (simp_all add: advances_def completed_row_def result_row_def leased lease_row_def)
  from gate_round [OF settled j fin d1 gate [unfolded lid(3)]] obtain f where
    "isTerminalStatus (j_Status (f j))" "round_result u f (db w) (db w')" by blast
  moreover have "snd (run_state (work_round fuel s md name work u) w) = w'"
    by (simp add: work_round_def acq comp)
  ultimately show ?thesis using j by blast
qed

subsection \<open>Until the work is done\<close>

definition queued_of :: "database \<Rightarrow> Job list" where
  "queued_of d = filter (\<lambda>j. j_Status j = ''queued'') (jobs d)"

text \<open>
  What a runner can work off: every job is queued or finished, the gate has nothing to skip,
  the needs of a queued job name jobs of its run and go down in a rank (so they have no cycle), and
  not more jobs are queued than an attempt looks at.
\<close>

definition workable :: "(uuid \<Rightarrow> string \<Rightarrow> nat) \<Rightarrow> database \<Rightarrow> bool" where
  "workable rank d \<longleftrightarrow> db_ok d \<and> settled d \<and> length (queued_of d) \<le> candidateBatchSize \<and>
     (\<forall>j\<in>set (jobs d). j_Status j = ''queued'' \<or> isTerminalStatus (j_Status j)) \<and>
     (\<forall>j\<in>set (queued_of d). needs_of j \<subseteq> j_JobIDYAML ` set (jobs_of_run (j_RunID j) d) \<and>
        (\<forall>k\<in>needs_of j. rank (j_RunID j) k < rank (j_RunID j) (j_JobIDYAML j)))"

text \<open>The queued job of least rank is ready.\<close>

lemma workable_ready:
  assumes "workable rank d" and "queued_of d \<noteq> []"
  shows "\<exists>c\<in>set (queued_jobs candidateBatchSize d). may_lease d c"
proof -
  let ?rk = "\<lambda>j. rank (j_RunID j) (j_JobIDYAML j)"
  obtain c where c: "c \<in> set (queued_of d)" and least: "\<forall>c'\<in>set (queued_of d). ?rk c \<le> ?rk c'"
    using ex_has_least_nat [of "\<lambda>c. c \<in> set (queued_of d)" _ ?rk] assms(2) by (metis hd_in_set)
  have q: "c \<in> set (jobs d)" "j_Status c = ''queued''" using c by (auto simp: queued_of_def)
  have "set (queued_jobs candidateBatchSize d) = set (queued_of d)"
    using assms(1) by (simp add: workable_def queued_jobs_def queued_of_def)
  moreover have "isTerminalStatus (j_Status n)"
    if n: "n \<in> set (jobs_of_run (j_RunID c) d)" "j_JobIDYAML n \<in> needs_of c" for n
  proof -
    have "?rk n < ?rk c" using assms(1) c n by (auto simp: workable_def)
    with least have "n \<notin> set (queued_of d)" by auto
    then show ?thesis using assms(1) n(1) by (auto simp: workable_def queued_of_def)
  qed
  then have t: "all_needs_terminal (jobs_of_run (j_RunID c) d) c"
    using assms(1) c by (auto simp: workable_def all_needs_terminal_def)
  moreover have "hasDefaultIfExpr c \<Longrightarrow> \<not> some_need_blocks (jobs_of_run (j_RunID c) d) c"
    using settled_not_skippable [OF _ q(1)] assms(1) q(2) t by (auto simp: workable_def skippable_def)
  ultimately show ?thesis using c by (auto simp: may_lease_def)
qed

lemma work_round_ok: "solo (svc_env s) \<Longrightarrow> db_ok (db w) \<Longrightarrow> db_ok (db (snd (run_state (work_round fuel s md name work u) w)))"
proof -
  assume E: "solo (svc_env s)" and ok: "db_ok (db w)"
  have r: "ok.rely (svc_env (drawing u s))" using E by (simp add: ok.rely_def drawing_def solo_def keeps_ok_def)
  have "ok.guar (work_round fuel s md name work u)"
    unfolding work_round_def by (intro ok.guar_rules ok.guar_AcquireJob [OF r]) (auto split: list.splits intro!: ok.guar_rules ok.guar_CompleteJob [OF r])
  from ok.guarD [OF this prod.collapse [symmetric]] ok show ?thesis by (simp add: keeps_ok_def)
qed

lemma fewer_filtered: "\<forall>r\<in>set rows. P r \<longrightarrow> Q r \<Longrightarrow> length (filter P rows) \<le> length (filter Q rows)"
  by (induction rows) auto

lemma fewer_filtered_strict:
  "\<forall>r\<in>set rows. P r \<longrightarrow> Q r \<Longrightarrow> \<exists>r\<in>set rows. Q r \<and> \<not> P r \<Longrightarrow> length (filter P rows) < length (filter Q rows)"
  by (induction rows) (auto intro: fewer_filtered le_imp_less_Suc)

text \<open>A round keeps the work workable and leaves less of it.\<close>

lemma round_queued:
  assumes "round_result u f d d'"
  shows "length (queued_of d') \<le> length (queued_of d)"
    and "j \<in> set (jobs d) \<Longrightarrow> j_Status j = ''queued'' \<Longrightarrow> isTerminalStatus (j_Status (f j)) \<Longrightarrow>
      length (queued_of d') < length (queued_of d)"
proof -
  have l: "length (queued_of d') = length (filter (\<lambda>r. j_Status (f r) = ''queued'') (jobs d))"
    using assms by (simp add: round_result_def queued_of_def filter_map comp_def)
  have sub: "\<forall>r\<in>set (jobs d). j_Status (f r) = ''queued'' \<longrightarrow> j_Status r = ''queued''"
    using assms by (auto simp: round_result_def advances_def)
  show "length (queued_of d') \<le> length (queued_of d)" unfolding l unfolding queued_of_def by (rule fewer_filtered [OF sub])
  assume "j \<in> set (jobs d)" "j_Status j = ''queued''" "isTerminalStatus (j_Status (f j))"
  then show "length (queued_of d') < length (queued_of d)"
    unfolding l unfolding queued_of_def by (intro fewer_filtered_strict [OF sub]) (auto intro!: bexI [of _ j] simp: terminal_skipped)
qed

lemma round_workable:
  assumes "workable rank d" and "db_ok d'" and r: "round_result u f d d'"
  shows "workable rank d'"
proof -
  have jobs: "jobs d' = map f (jobs d)" and adv: "\<And>r. r \<in> set (jobs d) \<Longrightarrow> advances u r (f r)" and "settled d'"
    using r by (auto simp: round_result_def)
  have run: "j_JobIDYAML ` set (jobs_of_run rid d') = j_JobIDYAML ` set (jobs_of_run rid d)" for rid
    unfolding set_jobs_of_run jobs set_map
    using advances_keeps(2,3) [OF adv] by (force simp: image_iff)
  have "\<forall>j\<in>set (jobs d'). j_Status j = ''queued'' \<or> isTerminalStatus (j_Status j)"
    using assms(1) adv unfolding jobs workable_def advances_def set_map by fastforce
  moreover have "\<forall>j\<in>set (queued_of d'). needs_of j \<subseteq> j_JobIDYAML ` set (jobs_of_run (j_RunID j) d') \<and>
        (\<forall>k\<in>needs_of j. rank (j_RunID j) k < rank (j_RunID j) (j_JobIDYAML j))"
  proof
    fix j' assume "j' \<in> set (queued_of d')"
    then obtain j where j: "j \<in> set (jobs d)" "j' = f j" "j_Status (f j) = ''queued''" by (auto simp: jobs queued_of_def)
    then have "j' = j" using adv [OF j(1)] by (auto simp: advances_def terminal_skipped)
    with j assms(1) run show "needs_of j' \<subseteq> j_JobIDYAML ` set (jobs_of_run (j_RunID j') d') \<and>
        (\<forall>k\<in>needs_of j'. rank (j_RunID j') k < rank (j_RunID j') (j_JobIDYAML j'))"
      by (auto simp: workable_def queued_of_def)
  qed
  ultimately show ?thesis using assms(1,2) \<open>settled d'\<close> round_queued(1) [OF r] by (auto simp: workable_def)
qed

text \<open>With nothing queued the runner is sent away, and no row changes.\<close>

lemma work_round_idle:
  assumes E: "solo (svc_env s)" and "queued_of (db w) = []" and login: "runner_login s md name rid (db w)"
  shows "db (snd (run_state (work_round fuel s md name work u) w)) = db w"
proof -
  have E': "solo (svc_env (drawing u s))" using E by simp
  have "queued_jobs candidateBatchSize (db w) = []" using assms(2) by (simp add: queued_jobs_def queued_of_def)
  then show ?thesis using login
    by (auto simp: work_round_def AcquireJob_def runner_login_def run_GetByID [OF E'] first_row_def numeral_eq_Suc
        acquireOneQueuedJob_def ListQueuedJobs_def run_query_solo [OF E'] queue_wait_def)
qed

fun work_rounds ::
    "nat \<Rightarrow> Service \<Rightarrow> metadata \<Rightarrow> string \<Rightarrow> (JobLease \<Rightarrow> Phase \<times> (string \<times> string) list) \<Rightarrow> uuid list \<Rightarrow> (world, unit) state" where
  "work_rounds fuel s md name work [] = ret ()"
| "work_rounds fuel s md name work (u # us) = do {
     work_round fuel s md name work u;
     work_rounds fuel s md name work us
   }"

text \<open>The lease ids the runner is going to be given: pairwise different, unused, and readable again.\<close>

definition lease_ids_ok :: "Service \<Rightarrow> uuid list \<Rightarrow> database \<Rightarrow> bool" where
  "lease_ids_ok s us d \<longleftrightarrow> distinct us \<and>
     (\<forall>u\<in>set us. Some u \<notin> j_LeaseID ` set (jobs d) \<and> uuid_parse s (uuid_string s u) = Some u)"

lemma work_rounds_finish:
  assumes E: "solo (svc_env s)" and work: "\<forall>l. \<exists>r. phaseToResult (fst (work l)) = Inr r \<and> isTerminalStatus r"
    and "workable rank (db w)" and "runner_login s md name rid (db w)" and "lease_ids_ok s us (db w)"
    and "length (jobs (db w)) < fuel" and "length (queued_of (db w)) \<le> length us"
  shows "let d' = db (snd (run_state (work_rounds fuel s md name work us) w)) in
    workable rank d' \<and> queued_of d' = [] \<and> map j_ID (jobs d') = map j_ID (jobs (db w)) \<and>
    map j_RunID (jobs d') = map j_RunID (jobs (db w)) \<and> (\<forall>rid. rolled_up rid (db w) \<longrightarrow> rolled_up rid d')"
  using assms(3-)
proof (induction us arbitrary: w)
  case Nil
  then show ?case by simp
next
  case (Cons u us)
  let ?w = "snd (run_state (work_round fuel s md name work u) w)"
  have ok: "db_ok (db w)" "settled (db w)" using Cons.prems(1) by (auto simp: workable_def)
  have u: "Some u \<notin> j_LeaseID ` set (jobs (db w))" "uuid_parse s (uuid_string s u) = Some u"
    using Cons.prems(3) by (auto simp: lease_ids_ok_def)
  have "workable rank (db ?w) \<and> runner_login s md name rid (db ?w) \<and> lease_ids_ok s us (db ?w) \<and>
      map j_ID (jobs (db ?w)) = map j_ID (jobs (db w)) \<and> map j_RunID (jobs (db ?w)) = map j_RunID (jobs (db w)) \<and> length (queued_of (db ?w)) \<le> length us \<and>
      (\<forall>rid. rolled_up rid (db w) \<longrightarrow> rolled_up rid (db ?w))"
  proof (cases "queued_of (db w) = []")
    case True
    with work_round_idle [OF E True Cons.prems(2)] Cons.prems show ?thesis by (simp add: lease_ids_ok_def)
  next
    case False
    obtain f j where j: "j \<in> set (jobs (db w))" "j_Status j = ''queued''" "isTerminalStatus (j_Status (f j))"
      and r: "round_result u f (db w) (db ?w)"
      using work_round_ready [OF E ok workable_ready [OF Cons.prems(1) False] Cons.prems(2) u Cons.prems(4) work] by blast
    have jobs: "jobs (db ?w) = map f (jobs (db w))" and adv: "\<And>r. r \<in> set (jobs (db w)) \<Longrightarrow> advances u r (f r)"
      and rest: "runners (db ?w) = runners (db w)" "\<forall>rid. rolled_up rid (db w) \<longrightarrow> rolled_up rid (db ?w)"
      using r by (auto simp: round_result_def)
    have "j_LeaseID ` set (jobs (db ?w)) \<subseteq> insert (Some u) (j_LeaseID ` set (jobs (db w)))"
      using adv by (fastforce simp: jobs advances_def)
    then have "lease_ids_ok s us (db ?w)" using Cons.prems(3) by (auto simp: lease_ids_ok_def)
    moreover have "map j_ID (jobs (db ?w)) = map j_ID (jobs (db w))" "map j_RunID (jobs (db ?w)) = map j_RunID (jobs (db w))"
      using advances_keeps(1,2) [OF adv] by (simp_all add: jobs)
    ultimately show ?thesis
      using round_workable [OF Cons.prems(1) work_round_ok [OF E ok(1)] r] round_queued(2) [OF r j] Cons.prems(2,5) rest
      by (auto simp: runner_login_def)
  qed
  moreover from this have "length (jobs (db ?w)) < fuel" using Cons.prems(4) by (metis length_map)
  ultimately show ?case using Cons.IH [of ?w] by (auto simp: Let_def split_beta)
qed

lemma work_rounds_done:
  assumes "solo (svc_env s)" and "workable rank (db w)" and "runner_login s md name rid (db w)"
    and "lease_ids_ok s us (db w)" and "length (jobs (db w)) < fuel" and "length (queued_of (db w)) \<le> length us"
    and "\<forall>l. \<exists>r. phaseToResult (fst (work l)) = Inr r \<and> isTerminalStatus r"
  shows "let d' = db (snd (run_state (work_rounds fuel s md name work us) w)) in
    map j_ID (jobs d') = map j_ID (jobs (db w)) \<and> (\<forall>j\<in>set (jobs d'). isTerminalStatus (j_Status j)) \<and>
    (\<forall>j\<in>set (queued_of (db w)). \<exists>r\<in>set (workflow_runs d'). run_ID r = j_RunID j \<and>
       rollup (jobs_of_run (j_RunID j) d') = Some (run_Status r))"
proof -
  let ?d = "db (snd (run_state (work_rounds fuel s md name work us) w))"
  have fin: "workable rank ?d" "queued_of ?d = []" "map j_ID (jobs ?d) = map j_ID (jobs (db w))"
    "map j_RunID (jobs ?d) = map j_RunID (jobs (db w))" "\<And>rid. rolled_up rid (db w) \<Longrightarrow> rolled_up rid ?d"
    using work_rounds_finish [OF assms(1,7,2-6)] by (auto simp: Let_def)
  then have fin_all: "\<forall>j\<in>set (jobs ?d). isTerminalStatus (j_Status j)"
    by (auto simp: workable_def queued_of_def filter_empty_conv)
  have "\<exists>r\<in>set (workflow_runs ?d). run_ID r = j_RunID j \<and> rollup (jobs_of_run (j_RunID j) ?d) = Some (run_Status r)"
    if j: "j \<in> set (queued_of (db w))" for j
  proof -
    have "rollup (jobs_of_run (j_RunID j) (db w)) = None"
      using j by (auto simp: rollup_def queued_of_def terminal_skipped intro!: bexI [of _ j])
    then have "rolled_up (j_RunID j) (db w)" by (simp add: rolled_up_def)
    then have up: "rolled_up (j_RunID j) ?d" by (rule fin(5))
    have "j_RunID j \<in> j_RunID ` set (jobs ?d)"
      using arg_cong [OF fin(4), of set] j by (auto simp: queued_of_def)
    then obtain r where "r \<in> set (workflow_runs ?d)" "run_ID r = j_RunID j"
      using fin(1) by (auto simp: workable_def db_ok_def)
    moreover obtain st where "rollup (jobs_of_run (j_RunID j) ?d) = Some st" using fin_all by (auto simp: rollup_def)
    ultimately show ?thesis using up unfolding rolled_up_def by metis
  qed
  with fin(3) fin_all show ?thesis unfolding Let_def by blast
qed

text \<open>
  C7: a runner finishes the work. A registered runner is alone on the service and no statement
  fails. To begin with, the database is well formed and workable: no job is leased or running, the
  gate has left no job that it would skip, every need of a queued job is a job of its run, the
  needs have no cycle, and at most ten jobs are queued. When the runner asks for a job and reports a
  terminal phase for it as many times as jobs are queued, whatever terminal phases and outputs it
  reports, then every job is finished in the end (run or skipped), no row was lost, and each run
  that had a queued job has the status its jobs roll up to.
\<close>

theorem runner_finishes_the_work:
  assumes "solo (svc_env s)" and "workable rank (db w)" and "runner_login s md name rid (db w)"
    and "lease_ids_ok s us (db w)" and "length (jobs (db w)) < fuel" and "length (queued_of (db w)) \<le> length us"
    and "\<forall>l. \<exists>r. phaseToResult (fst (work l)) = Inr r \<and> isTerminalStatus r"
  shows "let d' = db (snd (run_state (work_rounds fuel s md name work us) w)) in
    map j_ID (jobs d') = map j_ID (jobs (db w)) \<and> (\<forall>j\<in>set (jobs d'). isTerminalStatus (j_Status j)) \<and>
    (\<forall>j\<in>set (queued_of (db w)). \<exists>r\<in>set (workflow_runs d'). run_ID r = j_RunID j \<and>
       rollup (jobs_of_run (j_RunID j) d') = Some (run_Status r))"
  using work_rounds_done [OF assms] .

definition sample_rank :: "uuid \<Rightarrow> string \<Rightarrow> nat" where
  "sample_rank rid k = (if k = ''build'' then 0 else if k = ''test'' then 1 else 2)"

lemma sample_workable: "workable sample_rank (db_with sample_jobs)"
proof -
  have rows: "set (jobs_of_run rid (db_with sample_jobs)) = (if rid = 1 then set sample_jobs else {})" for rid
    by (auto simp: set_jobs_of_run sample_defs)
  have "\<not> skippable (jobs_of_run rid (db_with sample_jobs)) j" for rid j
    unfolding skippable_def some_need_blocks_def rows by (auto simp: sample_jobs_def sample_job_def terminal_skipped)
  then have "settled (db_with sample_jobs)"
    using no_skippable_no_doomed by (simp add: settled_def doomed_in_def)
  then show ?thesis using db_ok_sample
    unfolding workable_def rows
    by (auto simp: queued_of_def candidateBatchSize_def sample_defs needs_of_def sample_rank_def)
qed

lemma sample_lease_ids: "lease_ids_ok sample_service [51, 52, 53] (db_with sample_jobs)"
proof -
  have "ParseInt (Itoa 51) = Some 51" "ParseInt (Itoa 52) = Some 52" "ParseInt (Itoa 53) = Some 53" by code_simp+
  then show ?thesis by (auto simp: lease_ids_ok_def sample_defs)
qed

theorem runner_finishes_the_work_witness:
  "let d' = db (snd (run_state (work_rounds 4 sample_service (Some [''Bearer tok'']) ''7'' (\<lambda>_. (PHASE_FAILURE, [])) [51, 52, 53])
     (world_with (db_with sample_jobs)))) in \<forall>j\<in>set (jobs d'). isTerminalStatus (j_Status j)"
proof -
  have w: "db (world_with (db_with sample_jobs)) = db_with sample_jobs" by (simp add: world_with_def)
  have p: "ParseInt ''7'' = Some 7" by code_simp
  have "runner_login sample_service (Some [''Bearer tok'']) ''7'' 7 (db_with sample_jobs)"
    by (simp add: runner_login_def p bearerToken_Inr validToken_def sample_defs)
  then show ?thesis
    using runner_finishes_the_work [of sample_service sample_rank "world_with (db_with sample_jobs)" "Some [''Bearer tok'']" "''7''" 7
        "[51, 52, 53]" 4 "\<lambda>_. (PHASE_FAILURE, [])"] sample_workable sample_lease_ids
    by (simp add: w Let_def phaseToResult_def isTerminalStatus_def terminalJobStatuses_def queued_of_def sample_defs)
qed

end
