(* ===== verification/Run_Completion.thy ===== *)
theory Run_Completion
  imports Run_Progress Api_Runs
begin

text \<open>
  From a workflow file to a finished run: what \<open>Plan\<close> writes is work a runner can finish, so
  the planner and the dispatch service together bring every run to its end; and a client of the
  REST API that asked for the run is told so.
\<close>

text \<open>
  What act's planner promises of a plan: it builds stages so that each job comes after the jobs
  it needs, and refuses a workflow where that is not possible; and \<open>GetMatrixes\<close> gives at
  least one cell for every job. Here \<open>stage\<close> is the number of a job's stage.
\<close>

definition staged :: "(string \<Rightarrow> nat) \<Rightarrow> plannedJob list \<Rightarrow> bool" where
  "staged stage pjs \<longleftrightarrow> (\<forall>pj\<in>set pjs. pj_cells pj \<noteq> [] \<and>
     (\<forall>k\<in>set (elems (pj_needs pj)). k \<in> pj_jobIDYAML ` set pjs \<and> stage k < stage (pj_jobIDYAML pj)))"

lemma planned_row_columns:
  assumes "planned_row E runID (pj, c) j"
  shows "j_RunID j = runID" "j_JobIDYAML j = pj_jobIDYAML pj" "needs_of j = set (elems (pj_needs pj))"
    "j_Status j = ''queued''" "j_LeaseID j = None"
proof -
  obtain enc mc where j: "j = (job_of_cell (j_ID j) runID pj enc)
      \<lparr>j_Needs := Some (elems (pj_needs pj)), j_MatrixCellJSON := mc\<rparr>"
    using assms by (auto simp: planned_row_def)
  show "j_RunID j = runID" "j_JobIDYAML j = pj_jobIDYAML pj" "needs_of j = set (elems (pj_needs pj))"
    "j_Status j = ''queued''" "j_LeaseID j = None"
    by (subst j, simp add: job_of_cell_def needs_of_def)+
qed

text \<open>The rows of the planned cells, by the planned jobs.\<close>

lemma planned_rows:
  assumes "list_all2 (planned_row E runID) (all_cells pjs) new"
  shows "j \<in> set new \<Longrightarrow> \<exists>pj\<in>set pjs. \<exists>c. planned_row E runID (pj, c) j"
    and "pj \<in> set pjs \<Longrightarrow> pj_cells pj \<noteq> [] \<Longrightarrow> \<exists>j\<in>set new. \<exists>c. planned_row E runID (pj, c) j"
proof -
  show "\<exists>pj\<in>set pjs. \<exists>c. planned_row E runID (pj, c) j" if "j \<in> set new"
  proof -
    from that obtain i where i: "i < length new" "new ! i = j" by (auto simp: in_set_conv_nth)
    then have r: "planned_row E runID (all_cells pjs ! i) j" and "i < length (all_cells pjs)"
      using assms by (auto simp: list_all2_conv_all_nth)
    then have "all_cells pjs ! i \<in> set (all_cells pjs)" by simp
    then obtain pj c where "pj \<in> set pjs" "all_cells pjs ! i = (pj, c)" unfolding all_cells_def by fastforce
    with r show ?thesis by metis
  qed
  show "\<exists>j\<in>set new. \<exists>c. planned_row E runID (pj, c) j" if "pj \<in> set pjs" "pj_cells pj \<noteq> []"
  proof -
    from that obtain c where "(pj, c) \<in> set (all_cells pjs)" by (fastforce simp: all_cells_def neq_Nil_conv)
    then obtain i where i: "i < length (all_cells pjs)" "all_cells pjs ! i = (pj, c)" by (auto simp: in_set_conv_nth)
    then have "planned_row E runID (pj, c) (new ! i)" "i < length new"
      using assms by (auto simp: list_all2_conv_all_nth)
    then show ?thesis using nth_mem by blast
  qed
qed

text \<open>On an idle database a plan leaves work a runner can finish.\<close>

lemma Plan_workable:
  assumes E: "solo E" and run: "run_state (Plan A E inp) w = (Inr res, w')"
    and ok: "db_ok (db w)" and idle: "\<forall>j\<in>set (jobs (db w)). isTerminalStatus (j_Status j)"
    and pjs: "plan_jobs A inp = Inr pjs" "staged stage pjs"
    and few: "length (pr_JobIDs res) \<le> candidateBatchSize"
  shows "workable (\<lambda>_. stage) (db w')" "length (queued_of (db w')) = length (pr_JobIDs res)"
    "j \<in> set (queued_of (db w')) \<Longrightarrow> j_RunID j = pr_RunID res" "runners (db w') = runners (db w)"
    "length (jobs (db w')) = length (jobs (db w)) + length (pr_JobIDs res)"
    "j_LeaseID ` set (jobs (db w')) \<subseteq> insert None (j_LeaseID ` set (jobs (db w)))"
proof -
  let ?rid = "pr_RunID res"
  obtain r new where runs: "workflow_runs (db w') = workflow_runs (db w) @ [r]" "run_ID r = ?rid"
    and new: "jobs (db w') = jobs (db w) @ new" "map j_ID new = pr_JobIDs res" "list_all2 (planned_row E ?rid) (all_cells pjs) new"
    and rn: "runners (db w') = runners (db w)"
    using Plan_success [OF E run] pjs(1) by auto
  have ok': "db_ok (db w')"
    using ok.guarD [OF ok.guar_Plan run] ok E by (simp add: keeps_ok_def ok.rely_def solo_def)
  have cols: "j_RunID j = ?rid \<and> j_Status j = ''queued'' \<and> j_LeaseID j = None" if "j \<in> set new" for j
    using planned_rows(1) [OF new(3) that] by (metis planned_row_columns(1,4,5))
  have old: "j_RunID j \<noteq> ?rid" if "j \<in> set (jobs (db w))" for j
  proof -
    have "j_RunID j \<in> run_ID ` set (workflow_runs (db w))" using ok that by (auto simp: db_ok_def)
    then show ?thesis using ok' runs by (auto simp: db_ok_def)
  qed
  have len: "length new = length (pr_JobIDs res)" using new(2) by (metis length_map)
  have of_run: "set (jobs_of_run ?rid (db w')) = set new" using cols old by (auto simp: new(1))
  have q: "queued_of (db w') = new"
    using idle cols by (auto simp: queued_of_def new(1) filter_empty_conv terminal_skipped)
  have "\<not> skippable (jobs_of_run rid (db w')) j" if j: "j \<in> set (jobs_of_run rid (db w'))" for rid j
  proof (cases "rid = ?rid")
    case True
    then show ?thesis using cols terminal_skipped(2) unfolding skippable_def some_need_blocks_def of_run True by auto
  next
    case False
    with j cols idle have "isTerminalStatus (j_Status j)" by (auto simp: new(1))
    then show ?thesis using terminal_skipped(2) by (auto simp: skippable_def)
  qed
  then have "settled (db w')" unfolding settled_def doomed_in_def using no_skippable_no_doomed by blast
  moreover have "needs_of j \<subseteq> j_JobIDYAML ` set new \<and> (\<forall>k\<in>needs_of j. stage k < stage (j_JobIDYAML j))" if mem: "j \<in> set new" for j
  proof -
    obtain pj c where pj: "pj \<in> set pjs" "planned_row E ?rid (pj, c) j" using planned_rows(1) [OF new(3) mem] by blast
    have "k \<in> j_JobIDYAML ` set new" if k: "k \<in> pj_jobIDYAML ` set pjs" for k
    proof -
      obtain q where q: "q \<in> set pjs" "k = pj_jobIDYAML q" using k by blast
      then obtain j' c' where "j' \<in> set new" "planned_row E ?rid (q, c') j'"
        using planned_rows(2) [OF new(3) q(1)] pjs(2) by (auto simp: staged_def)
      then show ?thesis using planned_row_columns(2) q(2) by (intro image_eqI [of _ _ j']) auto
    qed
    then show ?thesis using pjs(2) pj planned_row_columns [OF pj(2)] by (auto simp: staged_def)
  qed
  ultimately show "workable (\<lambda>_. stage) (db w')"
    using ok' few len idle cols unfolding workable_def q by (auto simp: new(1) of_run simp del: set_jobs_of_run)
  show "length (queued_of (db w')) = length (pr_JobIDs res)" using len q by simp
  show "length (jobs (db w')) = length (jobs (db w)) + length (pr_JobIDs res)" using len new(1) by simp
  show "j_LeaseID ` set (jobs (db w')) \<subseteq> insert None (j_LeaseID ` set (jobs (db w)))" using cols by (auto simp: new(1))
  show "runners (db w') = runners (db w)" by (rule rn)
  show "j_RunID j = ?rid" if "j \<in> set (queued_of (db w'))" using cols that q by auto
qed

text \<open>
  A planned run is brought to its end. \<open>Plan\<close> succeeds on a database with no open jobs,
  with at most ten rows of a plan in stages; a runner alone on the service then works off its
  leases, whatever it reports. In the end every job is finished and the run has the status its
  jobs roll up to.
\<close>

lemma planned_run_finishes:
  assumes "solo E" and "run_state (Plan A E inp) w = (Inr res, w1)" and "db_ok (db w)"
    and "\<forall>j\<in>set (jobs (db w)). isTerminalStatus (j_Status j)"
    and "plan_jobs A inp = Inr pjs" and "staged stage pjs"
    and "pr_JobIDs res \<noteq> []" and "length (pr_JobIDs res) \<le> candidateBatchSize"
    and "solo (svc_env s)" and "runner_login s md name rid (db w)" and "lease_ids_ok s us (db w)"
    and "length (jobs (db w)) + length (pr_JobIDs res) < fuel" and "length (pr_JobIDs res) \<le> length us"
    and "\<forall>l. \<exists>r. phaseToResult (fst (work l)) = Inr r \<and> isTerminalStatus r" and "db w1' = db w1"
  shows "let d' = db (snd (run_state (work_rounds fuel s md name work us) w1')) in
    db_ok d' \<and> (\<forall>j\<in>set (jobs d'). isTerminalStatus (j_Status j)) \<and> pr_RunID res \<in> j_RunID ` set (jobs d') \<and>
    (\<exists>r\<in>set (workflow_runs d'). run_ID r = pr_RunID res \<and> rollup (jobs_of_run (pr_RunID res) d') = Some (run_Status r))"
proof -
  note plan = Plan_workable [OF assms(1-6,8), folded assms(15)]
  let ?d = "db (snd (run_state (work_rounds fuel s md name work us) w1'))"
  have "queued_of (db w1') \<noteq> []" using plan(2) assms(7) by auto
  then obtain j where j: "j \<in> set (queued_of (db w1'))" "j_RunID j = pr_RunID res" using plan(3) by (meson hd_in_set)
  have login: "runner_login s md name rid (db w1')" using assms(10) by (simp add: runner_login_def plan(4))
  have ids: "lease_ids_ok s us (db w1')" using assms(11) plan(6) by (auto simp: lease_ids_ok_def)
  have more: "length (jobs (db w1')) < fuel" "length (queued_of (db w1')) \<le> length us" using assms(12,13) plan(2,5) by simp_all
  have "workable (\<lambda>_. stage) ?d" "map j_RunID (jobs ?d) = map j_RunID (jobs (db w1'))"
    using work_rounds_finish [OF assms(9,14) plan(1) login ids more] by (simp_all add: Let_def)
  then have "db_ok ?d" "j_RunID ` set (jobs ?d) = j_RunID ` set (jobs (db w1'))"
    by (simp_all add: workable_def) (metis set_map)
  then have "db_ok ?d" "pr_RunID res \<in> j_RunID ` set (jobs ?d)" using j by (auto simp: queued_of_def intro: rev_image_eqI)
  then show ?thesis
    using work_rounds_done [OF assms(9) plan(1) login ids more assms(14)] j
    unfolding Let_def by (metis (no_types, lifting))
qed

text \<open>
  C3: a run asked for over REST is built and reported finished. POST /runs answers 201 on a
  server without open jobs, for a workflow of at most ten job rows (act promises its stages);
  a runner alone on the service then acquires and completes as many times as there are rows,
  whatever terminal result it reports for each, and no statement fails (the database refusing an
  output with a NUL byte would be such a failure). A client that asks for the run under the id it was given is answered with
  the details of the run: every job of it is finished, there is at least one, and the status of
  the run is what the jobs roll up to.
\<close>

theorem created_run_reported_finished:
  assumes "solo (rd_env D)" and "run_state (runsCreateHandler D req) w = (reply, w1)" and "rp_Status reply = 201"
    and "db_ok (db w)" and "\<forall>j\<in>set (jobs (db w)). isTerminalStatus (j_Status j)"
    and "\<forall>inp pjs. plan_jobs (rd_act D) inp = Inr pjs \<longrightarrow> (\<exists>stage. staged stage pjs)"
    and "length (jobs (db w)) < length (jobs (db w1))" and "length (jobs (db w1)) \<le> length (jobs (db w)) + candidateBatchSize"
    and "solo (svc_env s)" and "runner_login s md name rid (db w)" and "lease_ids_ok s us (db w)"
    and "length (jobs (db w1)) < fuel" and "length (jobs (db w1)) \<le> length (jobs (db w)) + length us"
    and "\<forall>l. \<exists>r. phaseToResult (fst (work l)) = Inr r \<and> isTerminalStatus r"
    and "\<forall>u. rd_uuid_parse D (rd_uuid_string D u) = Some u"
  shows "\<exists>runID. reply = write_json 201 (encode_create \<lparr>cr_RunID = rd_uuid_string D runID\<rparr>) \<and>
    (\<forall>rq. param_get (hr_Param rq) ''id'' = rd_uuid_string D runID \<longrightarrow>
      (\<exists>run js. fst (run_state (runsGetHandler D rq) (snd (run_state (work_rounds fuel s md name work us) w1))) =
          runsWriteJSON 200 (encode_detail (runsToDetail D run js)) \<and>
        run_ID run = runID \<and> js \<noteq> [] \<and> (\<forall>j\<in>set js. j_RunID j = runID \<and> isTerminalStatus (j_Status j)) \<and>
        rollup js = Some (run_Status run)))"
proof -
  obtain body sha yaml res w' where plan: "run_state (Plan (rd_act D) (rd_env D) (create_input D body sha yaml)) w = (Inr res, w')" "db w1 = db w'"
    and reply: "reply = write_json 201 (encode_create \<lparr>cr_RunID = rd_uuid_string D (pr_RunID res)\<rparr>)"
    using created_by_plan [OF assms(2,3)] by blast
  obtain pjs new where pjs: "plan_jobs (rd_act D) (create_input D body sha yaml) = Inr pjs"
    and new: "jobs (db w') = jobs (db w) @ new" "map j_ID new = pr_JobIDs res"
    using Plan_success [OF assms(1) plan(1)] by blast
  obtain stage where stage: "staged stage pjs" using assms(6) pjs by blast
  have len: "length (jobs (db w1)) = length (jobs (db w)) + length (pr_JobIDs res)" by (simp add: plan(2) new(1) flip: new(2))
  let ?w2 = "snd (run_state (work_rounds fuel s md name work us) w1)" and ?rid = "pr_RunID res"
  from planned_run_finishes [OF assms(1) plan(1) assms(4,5) pjs stage _ _ assms(9-11) _ _ assms(14) plan(2), of fuel] assms(7,8,12,13) len
  have fin: "db_ok (db ?w2)" "\<forall>j\<in>set (jobs (db ?w2)). isTerminalStatus (j_Status j)" "?rid \<in> j_RunID ` set (jobs (db ?w2))"
    "\<exists>r\<in>set (workflow_runs (db ?w2)). run_ID r = ?rid \<and> rollup (jobs_of_run ?rid (db ?w2)) = Some (run_Status r)"
    by (auto simp: Let_def)
  then obtain run where run: "run \<in> set (workflow_runs (db ?w2))" "run_ID run = ?rid" "rollup (jobs_of_run ?rid (db ?w2)) = Some (run_Status run)"
    by blast
  have "distinct (map run_ID (workflow_runs (db ?w2)))" using fin(1) by (simp add: db_ok_def)
  from find_unique_key [OF this run(1)] have found: "find (\<lambda>r. run_ID r = ?rid) (workflow_runs (db ?w2)) = Some run" by (simp add: run(2))
  have "jobs_of_run ?rid (db ?w2) \<noteq> []"
    using fin(3) set_jobs_of_run [of ?rid "db ?w2"] by (auto simp: set_empty [symmetric] simp del: set_empty)
  moreover have "fst (run_state (runsGetHandler D rq) ?w2) = runsWriteJSON 200 (encode_detail (runsToDetail D run (jobs_of_run ?rid (db ?w2))))"
    if "param_get (hr_Param rq) ''id'' = rd_uuid_string D ?rid" for rq
    using that assms(15)
    by (simp add: runsGetHandler_def GetRun_def ListJobsForRun_def run_query_solo [OF assms(1)] first_row_def found)
  ultimately show ?thesis
    using reply run(2,3) fin(2) by (intro exI [of _ ?rid]) (auto intro!: exI [of _ run] exI [of _ "jobs_of_run ?rid (db ?w2)"])
qed

definition sample_stage :: "string \<Rightarrow> nat" where
  "sample_stage k = (if k = ''build'' then 0 else 1)"

lemma sample_staged:
  assumes "plan_jobs sample_act inp = Inr pjs"
  shows "staged sample_stage pjs" "length (all_cells pjs) = 3"
  using assms by (auto simp: plan_jobs_def sample_act_def plan_run_def Let_def all_cells_def staged_def sample_stage_def)

definition sample_rest :: RunsDeps where
  "sample_rest = sample_api\<lparr>rd_uuid_string := \<lambda>u. replicate (unat u) (CHR ''x''), rd_uuid_parse := \<lambda>x. Some (of_nat (length x))\<rparr>"

lemma sample_rest_created:
  "\<exists>reply w1. run_state (runsCreateHandler sample_rest sample_create) (world_with (db_with [])) = (reply, w1) \<and>
     rp_Status reply = 201 \<and> length (jobs (db w1)) = 3"
proof -
  let ?inp = "\<lparr>pi_Repo = ''acme/app'', pi_Ref = ''main'', pi_SHA = ''abc'', pi_EventName = ''manual'',
       pi_EventPayload = Some ''{}'', pi_TriggeredBy = ''manual'', pi_WorkflowYAML = ''on: push''\<rparr>"
  obtain res w' where plan: "run_state (Plan sample_act sample_env ?inp) (world_with (db_with [])) = (Inr res, w')"
    using sample_create_planned by (auto split: prod.splits sum.splits)
  obtain pjs new where new: "plan_jobs sample_act ?inp = Inr pjs" "jobs (db w') = new"
    "list_all2 (planned_row sample_env (pr_RunID res)) (all_cells pjs) new"
    using Plan_success [OF solo_sample_env plan] by (auto simp: world_with_def db_with_def empty_db_def)
  have "length (jobs (db w')) = 3" using sample_staged(2) [OF new(1)] list_all2_lengthD [OF new(3)] new(2) by simp
  with plan sample_create_decoded show ?thesis
    by (simp add: runsCreateHandler_def sample_rest_def sample_api_def runsRepoPattern_def create_input_def triggeredBy_def
        runsWriteJSON_def split_beta Notify_def)
qed

theorem created_run_reported_finished_witness:
  "\<exists>reply w1 runID. run_state (runsCreateHandler sample_rest sample_create) (world_with (db_with [])) = (reply, w1) \<and>
    (\<exists>run js. fst (run_state (runsGetHandler sample_rest (no_request\<lparr>hr_Param := [(''id'', rd_uuid_string sample_rest runID)]\<rparr>))
        (snd (run_state (work_rounds 9 sample_service (Some [''Bearer tok'']) ''7'' (\<lambda>_. (PHASE_SUCCESS, [])) [51, 52, 53]) w1))) =
          runsWriteJSON 200 (encode_detail (runsToDetail sample_rest run js)) \<and>
        run_ID run = runID \<and> js \<noteq> [] \<and> rollup js = Some (run_Status run))"
proof -
  let ?w = "world_with (db_with [])"
  obtain reply w1 where c: "run_state (runsCreateHandler sample_rest sample_create) ?w = (reply, w1)" "rp_Status reply = 201" "length (jobs (db w1)) = 3"
    using sample_rest_created by blast
  have d: "solo (rd_env sample_rest)" "rd_act sample_rest = sample_act" "\<forall>u. rd_uuid_parse sample_rest (rd_uuid_string sample_rest u) = Some u"
    by (simp_all add: sample_rest_def sample_api_def)
  have w: "db_ok (db ?w)" "jobs (db ?w) = []"
    by (simp_all add: world_with_def db_ok_def chunks_ok_def db_with_def empty_db_def sample_run_def sample_runner_def)
  have st: "\<forall>inp pjs. plan_jobs (rd_act sample_rest) inp = Inr pjs \<longrightarrow> (\<exists>stage. staged stage pjs)" using sample_staged(1) d(2) by metis
  have "ParseInt ''7'' = Some 7" by code_simp
  then have l: "runner_login sample_service (Some [''Bearer tok'']) ''7'' 7 (db ?w)" "lease_ids_ok sample_service [51, 52, 53] (db ?w)"
    using sample_lease_ids by (simp_all add: runner_login_def bearerToken_Inr validToken_def lease_ids_ok_def sample_defs)
  have ph: "\<forall>l::JobLease. \<exists>r. phaseToResult (fst ((\<lambda>_. (PHASE_SUCCESS, [] :: (string \<times> string) list)) l)) = Inr r \<and> isTerminalStatus r"
    by (simp add: phaseToResult_def isTerminalStatus_def terminalJobStatuses_def)
  have n: "\<forall>j\<in>set (jobs (db ?w)). isTerminalStatus (j_Status j)" "length (jobs (db ?w)) < length (jobs (db w1))"
    "length (jobs (db w1)) \<le> length (jobs (db ?w)) + candidateBatchSize" "length (jobs (db w1)) < 9"
    "length (jobs (db w1)) \<le> length (jobs (db ?w)) + length [51 :: uuid, 52, 53]" "solo (svc_env sample_service)"
    by (simp_all add: w(2) c(3) candidateBatchSize_def)
  let ?rq = "\<lambda>runID. no_request\<lparr>hr_Param := [(''id'', rd_uuid_string sample_rest runID)]\<rparr>"
  have rq: "param_get (hr_Param (?rq runID)) ''id'' = rd_uuid_string sample_rest runID" for runID by (simp add: param_get_def)
  obtain runID where "reply = write_json 201 (encode_create \<lparr>cr_RunID = rd_uuid_string sample_rest runID\<rparr>)"
    and get: "\<forall>rq. param_get (hr_Param rq) ''id'' = rd_uuid_string sample_rest runID \<longrightarrow>
      (\<exists>run js. fst (run_state (runsGetHandler sample_rest rq)
        (snd (run_state (work_rounds 9 sample_service (Some [''Bearer tok'']) ''7'' (\<lambda>_. (PHASE_SUCCESS, [])) [51, 52, 53]) w1))) =
          runsWriteJSON 200 (encode_detail (runsToDetail sample_rest run js)) \<and>
        run_ID run = runID \<and> js \<noteq> [] \<and> (\<forall>j\<in>set js. j_RunID j = runID \<and> isTerminalStatus (j_Status j)) \<and> rollup js = Some (run_Status run))"
    using created_run_reported_finished [OF d(1) c(1,2) w(1) n(1) st n(2,3,6) l n(4,5) ph d(3)] by blast
  from get [rule_format, OF rq] c(1) show ?thesis by blast
qed

end
