(* ===== verification/Api_Roundtrip.thy ===== *)
theory Api_Roundtrip
  imports Api_Runs
begin

text \<open>
  What a client reads from the replies of the REST API: \<open>GET /runs\<close> and \<open>GET /runners\<close>
  decoded with the same struct tags the server encodes with.
\<close>

subsection \<open>Readers\<close>

abbreviation string_field :: "('a \<Rightarrow> bytes) \<Rightarrow> ((bytes \<Rightarrow> bytes) \<Rightarrow> 'a \<Rightarrow> 'a) \<Rightarrow> 'a decoder" where
  "string_field sel upd \<equiv> (\<lambda>v r. case decode_string v (sel r) of (s, ok) \<Rightarrow> (upd (\<lambda>_. s) r, ok))"

definition decode_summary :: "runSummary decoder" where
  "decode_summary = decode_struct
     [(''id'', string_field rs_ID rs_ID_update), (''repo'', string_field rs_Repo rs_Repo_update),
      (''ref'', string_field rs_Ref rs_Ref_update), (''sha'', string_field rs_SHA rs_SHA_update),
      (''event'', string_field rs_Event rs_Event_update), (''status'', string_field rs_Status rs_Status_update),
      (''created_at'', string_field rs_CreatedAt rs_CreatedAt_update)]"

definition zero_summary :: runSummary where
  "zero_summary = \<lparr>rs_ID = [], rs_Repo = [], rs_Ref = [], rs_SHA = [], rs_Event = [], rs_Status = [], rs_CreatedAt = []\<rparr>"

definition decode_list :: "runsListResponse decoder" where
  "decode_list = decode_struct
     [(''runs'', \<lambda>v r. case decode_slice decode_summary zero_summary v (Some (rl_Runs r)) of
         (xs, ok) \<Rightarrow> (r\<lparr>rl_Runs := elems xs\<rparr>, ok))]"

definition decode_runner :: "runnerResponse decoder" where
  "decode_runner = decode_struct
     [(''id'', string_field rr_ID rr_ID_update), (''name'', string_field rr_Name rr_Name_update),
      (''labels'', \<lambda>v r. case decode_slice decode_string [] v (Some (rr_Labels r)) of (xs, ok) \<Rightarrow> (r\<lparr>rr_Labels := elems xs\<rparr>, ok)),
      (''mode'', string_field rr_Mode rr_Mode_update), (''status'', string_field rr_Status rr_Status_update),
      (''last_heartbeat'', \<lambda>v r. case decode_pointer decode_string [] v (rr_LastHeartbeat r) of
         (x, ok) \<Rightarrow> (r\<lparr>rr_LastHeartbeat := x\<rparr>, ok))]"

definition zero_runner :: runnerResponse where
  "zero_runner = \<lparr>rr_ID = [], rr_Name = [], rr_Labels = [], rr_Mode = [], rr_Status = [], rr_LastHeartbeat = None\<rparr>"

text \<open>The encoder replaces bytes that are not UTF-8 by the replacement character.\<close>

definition clean_summary :: "runSummary \<Rightarrow> runSummary" where
  "clean_summary v =
     \<lparr>rs_ID = coerce_utf8 (rs_ID v), rs_Repo = coerce_utf8 (rs_Repo v), rs_Ref = coerce_utf8 (rs_Ref v),
      rs_SHA = coerce_utf8 (rs_SHA v), rs_Event = coerce_utf8 (rs_Event v), rs_Status = coerce_utf8 (rs_Status v),
      rs_CreatedAt = coerce_utf8 (rs_CreatedAt v)\<rparr>"

definition clean_runner :: "runnerResponse \<Rightarrow> runnerResponse" where
  "clean_runner v =
     \<lparr>rr_ID = coerce_utf8 (rr_ID v), rr_Name = coerce_utf8 (rr_Name v), rr_Labels = map coerce_utf8 (rr_Labels v),
      rr_Mode = coerce_utf8 (rr_Mode v), rr_Status = coerce_utf8 (rr_Status v),
      rr_LastHeartbeat = map_option coerce_utf8 (rr_LastHeartbeat v)\<rparr>"

subsection \<open>Reading back\<close>

lemma field_names:
  "coerce_utf8 ''id'' = ''id''" "coerce_utf8 ''repo'' = ''repo''" "coerce_utf8 ''ref'' = ''ref''" "coerce_utf8 ''sha'' = ''sha''"
  "coerce_utf8 ''event'' = ''event''" "coerce_utf8 ''status'' = ''status''" "coerce_utf8 ''created_at'' = ''created_at''"
  "coerce_utf8 ''runs'' = ''runs''" "coerce_utf8 ''name'' = ''name''" "coerce_utf8 ''labels'' = ''labels''"
  "coerce_utf8 ''mode'' = ''mode''" "coerce_utf8 ''last_heartbeat'' = ''last_heartbeat''"
  by (rule coerce_ascii, simp add: char_code_def)+

lemma decode_string_JString [simp]: "decode_string (JString s) old = (s, True)"
  by (simp add: decode_string_def)

lemma decode_summary_encode: "decode_summary (coerce_json (encode_summary v)) x = (clean_summary v, True)"
  by (simp add: decode_summary_def encode_summary_def clean_summary_def field_names decode_struct_def find_field_def)

lemma decode_elems_map:
  "(\<And>x. x \<in> set xs \<Longrightarrow> f (g x) zero = (h x, True)) \<Longrightarrow> decode_elems f zero (map g xs) = (map h xs, True)"
  by (induction xs) auto

lemma decode_labels: "decode_elems decode_string [] (map (\<lambda>x. JString (coerce_utf8 x)) ls) = (map coerce_utf8 ls, True)"
  by (rule decode_elems_map) simp

lemma decode_runner_encode: "decode_runner (coerce_json (encode_runner v)) x = (clean_runner v, True)"
  by (cases "rr_LastHeartbeat v")
    (simp_all add: decode_runner_def encode_runner_def clean_runner_def field_names decode_struct_def find_field_def
      decode_slice_def decode_pointer_def json_option_def comp_def decode_labels)

lemma depth_bound: "\<forall>v\<in>set vs. depth v \<le> n \<Longrightarrow> depth (JArray vs) \<le> Suc n"
  by (induction vs) auto

lemma wf_summary: "wf_json (encode_summary v)" "depth (encode_summary v) = 1"
  by (simp_all add: encode_summary_def)

lemma wf_runner: "wf_json (encode_runner v)" "depth (encode_runner v) \<le> 2"
proof -
  show "wf_json (encode_runner v)"
    by (cases "rr_LastHeartbeat v") (simp_all add: encode_runner_def json_option_def list_all_iff)
  have "foldr max (map (\<lambda>_. 0) ls) (0::nat) = 0" for ls :: "string list" by (induction ls) auto
  then show "depth (encode_runner v) \<le> 2"
    by (cases "rr_LastHeartbeat v") (simp_all add: encode_runner_def json_option_def comp_def)
qed

lemma read_list: "Unmarshal decode_list z (Marshal (encode_list v)) = Some \<lparr>rl_Runs = map clean_summary (rl_Runs v)\<rparr>"
proof -
  have "depth (JArray (map encode_summary (rl_Runs v))) \<le> 2"
    using depth_bound [of "map encode_summary (rl_Runs v)" 1] by (simp add: wf_summary(2))
  then have "json_parse (Marshal (encode_list v)) = Some (coerce_json (encode_list v))"
    by (intro json_parse_Marshal) (simp_all add: encode_list_def list_all_iff wf_summary maxNestingDepth_def)
  moreover have "decode_elems decode_summary zero_summary (map (coerce_json \<circ> encode_summary) (rl_Runs v)) =
      (map clean_summary (rl_Runs v), True)"
    by (rule decode_elems_map) (simp add: decode_summary_encode)
  ultimately show ?thesis
    by (cases z) (simp add: Unmarshal_def encode_list_def decode_list_def field_names decode_struct_def find_field_def decode_slice_def)
qed

lemma read_runners:
  "Unmarshal (decode_slice decode_runner zero_runner) z (Marshal (JArray (map encode_runner rs))) = Some (Some (map clean_runner rs))"
proof -
  have "depth (JArray (map encode_runner rs)) \<le> 3"
    using depth_bound [of "map encode_runner rs" 2] wf_runner(2) by simp
  then have "json_parse (Marshal (JArray (map encode_runner rs))) = Some (coerce_json (JArray (map encode_runner rs)))"
    by (intro json_parse_Marshal) (simp_all add: list_all_iff wf_runner(1) maxNestingDepth_def del: Marshal.simps)
  moreover have "decode_elems decode_runner zero_runner (map (coerce_json \<circ> encode_runner) rs) = (map clean_runner rs, True)"
    by (rule decode_elems_map) (simp add: decode_runner_encode)
  ultimately show ?thesis by (simp add: Unmarshal_def decode_slice_def del: Marshal.simps)
qed

text \<open>
  The list of runs survives the wire. Alone on the database, the body of GET /runs, read back
  with the same tags, is the page of summaries that was asked for, field by field (bytes that
  are not UTF-8 replaced); the request changes nothing.
\<close>

lemma runs_list_readable:
  assumes "solo (rd_env D)"
  shows "Unmarshal decode_list z (butlast (rp_Body (fst (run_state (runsListHandler D req) w)))) =
      Some \<lparr>rl_Runs = map (clean_summary \<circ> runsToSummary D)
        (take (nat (runsParseIntParam req ''limit'' 50)) (drop (nat (runsParseIntParam req ''offset'' 0)) (runs_listed (db w))))\<rparr>"
    and "db (snd (run_state (runsListHandler D req) w)) = db w"
  by (simp_all add: runsListHandler_page [OF assms] write_json_def read_list)

text \<open>The list of runners survives the wire: one entry per registered runner.\<close>

lemma runners_list_readable:
  assumes "solo (rd_env D)"
  shows "Unmarshal (decode_slice decode_runner zero_runner) z (butlast (rp_Body (fst (run_state (listRunnersHandler D) w)))) =
      Some (Some (map (clean_runner \<circ> toRunnerResponse D) (runners_listed (db w))))"
proof -
  have "fst (run_state (listRunnersHandler D) w) =
      write_json 200 (JArray (map encode_runner (map (toRunnerResponse D) (runners_listed (db w)))))"
    using assms by (simp add: listRunnersHandler_def ListRunners_def run_query_solo comp_def toRunnerResponse_def)
  then have "Unmarshal (decode_slice decode_runner zero_runner) z (butlast (rp_Body (fst (run_state (listRunnersHandler D) w)))) =
      Some (Some (map clean_runner (map (toRunnerResponse D) (runners_listed (db w)))))"
    by (simp only: write_json_def Reply.select_convs butlast_snoc read_runners)
  then show ?thesis by simp
qed

text \<open>
  C26: the lists of the REST API survive the wire. Alone on the database, the body of GET /runs,
  read back with the same tags, is exactly one page of the runs: with all rows of the table put
  in an order from the newest to the oldest, the \<open>limit\<close> summaries behind the first \<open>offset\<close>,
  field by field; nothing changes. The body of GET /runners is exactly one entry per registered
  runner, oldest first (bytes that are not UTF-8 replaced), and it is the same whatever the auth
  tokens of the runners are.
\<close>

theorem lists_roundtrip:
  assumes "solo (rd_env D)"
  shows "(\<exists>order. mset order = mset (workflow_runs (db w)) \<and> sorted_wrt (\<lambda>a b. run_CreatedAt b \<le> run_CreatedAt a) order \<and>
      Unmarshal decode_list z (butlast (rp_Body (fst (run_state (runsListHandler D req) w)))) =
      Some \<lparr>rl_Runs = map (clean_summary \<circ> runsToSummary D)
        (take (nat (runsParseIntParam req ''limit'' 50)) (drop (nat (runsParseIntParam req ''offset'' 0)) order))\<rparr>) \<and>
    db (snd (run_state (runsListHandler D req) w)) = db w \<and>
    (\<exists>order. mset order = mset (runners (db w)) \<and> sorted (map rn_CreatedAt order) \<and>
      Unmarshal (decode_slice decode_runner zero_runner) z' (butlast (rp_Body (fst (run_state (listRunnersHandler D) w)))) =
      Some (Some (map (clean_runner \<circ> toRunnerResponse D) order))) \<and>
    (\<forall>tok. fst (run_state (listRunnersHandler D)
        (w\<lparr>db := (db w)\<lparr>runners := map (\<lambda>r. r\<lparr>rn_AuthToken := tok r\<rparr>) (runners (db w))\<rparr>\<rparr>)) =
      fst (run_state (listRunnersHandler D) w))"
proof (intro conjI allI)
  show "fst (run_state (listRunnersHandler D) (w\<lparr>db := (db w)\<lparr>runners := map (\<lambda>r. r\<lparr>rn_AuthToken := tok r\<rparr>) (runners (db w))\<rparr>\<rparr>)) =
      fst (run_state (listRunnersHandler D) w)" for tok
    by (rule listRunners_hides_tokens [OF assms, where tok = tok]) simp_all
qed (use runs_list_readable [OF assms] runners_list_readable [OF assms] runs_listed_laws runners_listed_laws in blast)+

text \<open>Two runs, the one created later second in the table; and the page behind the first entry.\<close>

definition later_run :: Run where
  "later_run = sample_run\<lparr>run_ID := 2, run_CreatedAt := 5\<rparr>"

definition next_page :: HttpRequest where
  "next_page = no_request\<lparr>hr_Query := [(''offset'', ''1'')]\<rparr>"

theorem lists_roundtrip_witness:
  "Unmarshal decode_list \<lparr>rl_Runs = []\<rparr> (butlast (rp_Body (fst (run_state (runsListHandler sample_api next_page)
     (world_with ((db_with [])\<lparr>workflow_runs := [sample_run, later_run]\<rparr>)))))) =
   Some \<lparr>rl_Runs = [clean_summary (runsToSummary sample_api sample_run)]\<rparr>"
proof -
  let ?w = "world_with ((db_with [])\<lparr>workflow_runs := [sample_run, later_run]\<rparr>)"
  have solo: "solo (rd_env sample_api)" by (simp add: sample_api_def)
  obtain order where order: "mset order = mset (workflow_runs (db ?w))" "sorted_wrt (\<lambda>a b. run_CreatedAt b \<le> run_CreatedAt a) order"
    "Unmarshal decode_list \<lparr>rl_Runs = []\<rparr> (butlast (rp_Body (fst (run_state (runsListHandler sample_api next_page) ?w)))) =
      Some \<lparr>rl_Runs = map (clean_summary \<circ> runsToSummary sample_api)
        (take (nat (runsParseIntParam next_page ''limit'' 50)) (drop (nat (runsParseIntParam next_page ''offset'' 0)) order))\<rparr>"
    using lists_roundtrip [OF solo, of ?w "\<lparr>rl_Runs = []\<rparr>" next_page] by blast
  have "mset order = mset [sample_run, later_run]" using order(1) by (simp add: world_with_def)
  moreover have "length order = 2" using mset_eq_length [OF calculation] by simp
  ultimately have "order = [sample_run, later_run] \<or> order = [later_run, sample_run]"
    by (auto simp: numeral_eq_Suc length_Suc_conv add_eq_conv_ex)
  then have "order = [later_run, sample_run]"
    using order(2) by (auto simp: later_run_def sample_run_def)
  moreover have "runsParseIntParam next_page ''limit'' 50 = 50" "runsParseIntParam next_page ''offset'' 0 = 1"
    by (code_simp, code_simp)
  ultimately show ?thesis using order(3) by simp
qed

end
