(* ===== verification/Log_Delivery.thy ===== *)
theory Log_Delivery
  imports Log_Stream Runner_Spec Completion_Spec
begin

text \<open>
  The way of a job's log through the server: the chunks a runner streams
  (\<open>StreamLogs\<close> of \<open>internal/dispatch/service.go\<close>) are stored and fanned out
  (\<open>internal/logstore\<close>), and read again through the log endpoints of
  \<open>internal/api/logs.go\<close>. What arrives while one runner holds the job is what was sent.
  A job that is leased a second time is another matter: the numbers of its chunks start
  again, and a stream that followed the first lease hides the log of the second.
\<close>

subsection \<open>What the handlers leave of the channels\<close>

text \<open>
  A property of the log channels that holds on when the clock of interactions advances. A
  handler that publishes nothing keeps it, and one that publishes does so when publishing does.
\<close>

locale channel_invariant =
  fixes Q :: "world \<Rightarrow> bool"
  assumes Q_later: "log_subs w' = log_subs w \<Longrightarrow> closed_subs w' = closed_subs w \<Longrightarrow> tick w \<le> tick w' \<Longrightarrow> Q w \<Longrightarrow> Q w'"

sublocale channel_invariant \<subseteq> world_preorder "\<lambda>w w'. Q w \<longrightarrow> Q w'"
  by unfold_locales blast+

context channel_invariant
begin

lemma guar_quiet:
  "(\<And>w. log_subs (snd (f w)) = log_subs w \<and> closed_subs (snd (f w)) = closed_subs w \<and> tick w \<le> tick (snd (f w))) \<Longrightarrow> guar (State f)"
  by (rule guar_step) (blast intro: Q_later)

lemma guar_interactions:
  "guar (statement E f)" "guar (query E g)" "guar (time_now E)" "guar (uuid_new E)"
  "guar Notify" "guar (post_status repo sha st descr)"
proof -
  show *: "guar (statement E f)" for f :: "time \<Rightarrow> database \<Rightarrow> (store_error + 'x) \<times> database"
    unfolding statement_def by (rule guar_quiet) (auto simp: Let_def split: prod.splits)
  then show "guar (query E g)" by (simp add: query_def)
  show "guar (time_now E)" "guar (uuid_new E)" "guar Notify" "guar (post_status repo sha st descr)"
    unfolding time_now_def uuid_new_def Notify_def post_status_def by (rule guar_quiet, simp)+
qed

lemmas guar_rules = guar_control guar_interactions

lemma guar_stores:
  "guar (GetByLease E l)" "guar (GetByID E rid)" "guar (TransitionStatus E jid src dst)"
  "guar (SetResult E jid result t)" "guar (UpsertOutput E jid k v)" "guar (ListJobsForRun E rn)"
  "guar (SetRunStatus E rn st)" "guar (GetRun E rn)" "guar (Append E c)"
  unfolding GetByLease_def GetByID_def TransitionStatus_def SetResult_def UpsertOutput_def ListJobsForRun_def
    SetRunStatus_def GetRun_def Append_def
  by (intro guar_rules)+

lemma guar_lease_calls: "guar (resolveLeaseJob s l)" "guar (authorizeJobRunner s tok job)"
  unfolding resolveLeaseJob_def authorizeJobRunner_def by (intro guar_rules guar_stores)+

lemma guar_resolve_cached: "guar (resolve_cached s tok l resolved)"
  unfolding resolve_cached_def by (intro guar_rules guar_lease_calls)

lemma guar_gateRun: "guar (gateRun fuel s runID)"
proof -
  have skip: "guar (skipJob E jid)" for E jid
    unfolding skipJob_def by (intro guar_rules guar_stores)
  have pass: "guar (gate_pass E m js b)" for E m js b
    by (induction js arbitrary: b) (auto intro!: guar_rules skip)
  have "guar (gate_loop fuel E runID b)" for E b
    by (induction fuel arbitrary: b) (auto intro!: guar_rules guar_stores pass)
  moreover have "guar (finalizeRunIfComplete s runID)"
    unfolding finalizeRunIfComplete_def reportCommitStatus_def by (intro guar_rules guar_stores)
  ultimately show ?thesis unfolding gateRun_def by (intro guar_rules)
qed

lemma guar_CompleteJob: "guar (CompleteJob fuel s md req)"
proof -
  have "guar (write_outputs s job kvs)" for job kvs
    by (induction s job kvs rule: write_outputs.induct) (auto intro!: guar_rules guar_stores)
  then have "guar (record_completion s job result kvs)" for job result kvs
    unfolding record_completion_def mark_running_def by (intro guar_rules guar_stores)
  then show ?thesis
    unfolding CompleteJob_def by (intro guar_rules guar_lease_calls guar_gateRun)
qed

lemma CompleteJob_keeps: "run_state (CompleteJob fuel s md req) w = (a, w') \<Longrightarrow> Q w \<Longrightarrow> Q w'"
  using guarW [OF guar_CompleteJob] by blast

end

text \<open>
  The identity of a channel is the number of the interaction that made it: the numbers to come
  stay unused. What one channel holds does not change unless something is published. And the
  count of interactions never goes back.
\<close>

interpretation fresh: channel_invariant chans_made
  by unfold_locales (auto simp: chans_made_def intro: less_le_trans)

interpretation held: channel_invariant "chan_holds P jid ch" for P jid ch
  by unfold_locales (simp add: chan_holds_def)

interpretation later: channel_invariant "\<lambda>w. n \<le> tick w" for n
  by unfold_locales simp

lemma channel_conj: "channel_invariant (\<lambda>w. chans_made w \<and> chan_holds P jid ch w)"
  using fresh.Q_later held.Q_later by unfold_locales blast

lemma chans_made_publish: "chans_made w \<Longrightarrow> chans_made (publish c w)"
proof (cases "map_of (log_subs w) (c_JobRowID c)")
  case (Some ss)
  assume "chans_made w"
  with map_of_SomeD [OF Some] Some show ?thesis
    by (fastforce simp: chans_made_def publish_def deliver_spec dest!: set_subs_elem)
qed (simp add: publish_def)

subsection \<open>What a stream stores\<close>

definition chunk_row :: "uuid \<Rightarrow> LogChunk \<Rightarrow> ChunkRow" where
  "chunk_row l c = \<lparr>lc_LeaseID = l, lc_StepID = lk_StepId c, lc_Seq = lk_Seq c, lc_Ts = from_unix (lk_TsUnix c),
     lc_Data = elems (lk_Data c)\<rparr>"

definition chunk_of :: "uuid \<Rightarrow> uuid \<Rightarrow> LogChunk \<Rightarrow> Chunk" where
  "chunk_of jid l c = \<lparr>c_JobRowID = jid, c_LeaseID = l, c_StepID = lk_StepId c, c_Seq = lk_Seq c,
     c_Ts = from_unix (lk_TsUnix c), c_Data = lk_Data c\<rparr>"

lemma log_chunk_new:
  assumes E: "solo (svc_env s)" and fits: "cache_fits tok (db w) resolved"
    and job: "lease_job (db w) l = Some j" "authorized tok (db w) j"
    and c: "uuid_parse s (lk_LeaseId c) = Some l" "lk_Data c \<noteq> None" "(l, lk_Seq c) \<notin> chunk_keys (db w)"
  shows "\<exists>resolved' n. run_state (log_chunk s tok resolved c) w = (Inr resolved', publish (chunk_of (j_ID j) l c)
      (w\<lparr>db := (db w)\<lparr>log_chunks := log_chunks (db w) @ [chunk_row l c]\<rparr>, tick := tick w + n\<rparr>)) \<and> cache_fits tok (db w) resolved'"
proof -
  obtain res m where r: "run_state (resolve_cached s tok l resolved) w = (Inr (Some j, res), w\<lparr>tick := m\<rparr>)"
    "cache_fits tok (db w) res"
    using run_resolve_cached [OF E fits, of l] job by auto
  have "tick w \<le> m" using later.guarW [OF later.guar_resolve_cached r(1), of "tick w"] by simp
  moreover obtain dat where dat: "lk_Data c = Some dat" using c(2) by blast
  have "\<not> (\<exists>x\<in>set (log_chunks (db w)). lc_LeaseID x = l \<and> lc_Seq x = lk_Seq c)" using c(3) by (auto simp: chunk_keys_def)
  ultimately show ?thesis using r c(1) dat
    by (intro exI [of _ res] exI [of _ "Suc m - tick w"])
      (auto simp: log_chunk_def Let_def Append_def run_statement_solo [OF E] sql_Append_def Publish_def chunk_row_def chunk_of_def)
qed

lemma log_loop_new:
  assumes E: "solo (svc_env s)" and job: "lease_job (db w) l = Some j" "authorized tok (db w) j"
    and "cache_fits tok (db w) resolved" and "\<forall>c\<in>set chunks. uuid_parse s (lk_LeaseId c) = Some l \<and> lk_Data c \<noteq> None"
    and "distinct (map lk_Seq chunks)" and "\<forall>c\<in>set chunks. (l, lk_Seq c) \<notin> chunk_keys (db w)"
    and Q: "channel_invariant Q" "\<forall>c\<in>set chunks. \<forall>w. Q w \<longrightarrow> Q (publish (chunk_of (j_ID j) l c) w)" "Q w"
  shows "\<exists>w'. run_state (log_loop s tok (\<lambda>_. True) chunks EndEOF resolved) w = (Inr (), w') \<and> Q w' \<and>
    db w' = (db w)\<lparr>log_chunks := log_chunks (db w) @ map (chunk_row l) chunks\<rparr>"
  using assms(2-7) Q(2,3)
proof (induction chunks arbitrary: w resolved)
  case (Cons c cs)
  let ?w = "\<lambda>n. w\<lparr>db := (db w)\<lparr>log_chunks := log_chunks (db w) @ [chunk_row l c]\<rparr>, tick := tick w + n\<rparr>"
  obtain res n where one: "run_state (log_chunk s tok resolved c) w = (Inr res, publish (chunk_of (j_ID j) l c) (?w n))"
    "cache_fits tok (db w) res"
    using log_chunk_new [OF E Cons.prems(3,1,2), of c] Cons.prems(4,6) by auto
  let ?w1 = "publish (chunk_of (j_ID j) l c) (?w n)"
  have "lease_job (db ?w1) l = Some j" "authorized tok (db ?w1) j" "cache_fits tok (db ?w1) res"
    using Cons.prems(1,2) one(2) by (simp_all add: lease_job_def authorized_def cache_fits_def)
  moreover have "\<forall>c\<in>set cs. (l, lk_Seq c) \<notin> chunk_keys (db ?w1)"
    using Cons.prems(5,6) by (auto simp: chunk_keys_def chunk_row_def) (metis rev_image_eqI)
  moreover have "Q ?w1"
    using Cons.prems(7,8) channel_invariant.Q_later [OF Q(1), of "?w n" w] by simp
  ultimately show ?case using Cons.IH [of ?w1 res] Cons.prems(4,5,7) one by auto
qed simp

text \<open>The log of a job, as it is read back, in the order of the numbers.\<close>

lemma replay_of_lease:
  assumes "distinct (map j_ID (jobs d))" and "find (\<lambda>r. j_ID r = jid) (jobs d) = Some j" and "j_LeaseID j = Some l"
    and "log_chunks d = old @ map (chunk_row l) chunks" and "\<forall>r\<in>set old. lc_LeaseID r \<noteq> l"
    and "sorted_wrt (<) (map lk_Seq chunks)" and "\<forall>c\<in>set chunks. start \<le> lk_Seq c"
  shows "replay jid start d = map (scan_chunk jid \<circ> chunk_row l) chunks"
proof -
  let ?P = "\<lambda>lc. j_LeaseID j = Some (lc_LeaseID lc) \<and> start \<le> lc_Seq lc"
  have "filter ?P old = []" using assms(3,5) by (auto simp: filter_empty_conv)
  moreover have "filter ?P (map (chunk_row l) chunks) = map (chunk_row l) chunks"
    using assms(3,7) by (auto simp: filter_id_conv chunk_row_def)
  moreover have "sorted (map lc_Seq (map (chunk_row l) chunks))"
    using strict_sorted_imp_sorted [OF assms(6)] by (simp add: chunk_row_def comp_def)
  then have "sort_key lc_Seq (map (chunk_row l) chunks) = map (chunk_row l) chunks" by (rule sort_key_id_if_sorted)
  ultimately show ?thesis
    by (simp add: replay_def replay_single [OF assms(1)] assms(2,4))
qed

subsection \<open>A finished job\<close>

lemma completed_row_kept:
  assumes rec: "completion_recorded j result t kvs w w1" and gate: "gate_outcome s runID w1 ts w'"
    and ids: "distinct (map j_ID (jobs (db w)))" and j: "j \<in> set (jobs (db w))" "j_Status j \<in> {''leased'', ''running''}"
    and result: "isTerminalStatus result"
  shows "find (\<lambda>r. j_ID r = j_ID j) (jobs (db w')) = Some (completed_row result t j)"
    "map j_ID (jobs (db w')) = map j_ID (jobs (db w))" "log_chunks (db w') = log_chunks (db w)"
proof -
  let ?fin = "completed_row result t j"
  have jobs: "jobs (db w') = skip_all (doomed_in runID (db w1)) ts (map (\<lambda>r. if r = j then completed_row result t r else r) (jobs (db w)))"
    using rec gate by (simp add: completion_recorded_def gate_outcome_def Let_def)
  have st: "j_Status ?fin = result" using j(2) by (simp add: completed_row_def)
  have ids': "map j_ID (map (\<lambda>r. if r = j then completed_row result t r else r) (jobs (db w))) = map j_ID (jobs (db w))"
    by (simp add: completed_row_def result_row_def)
  then show ids2: "map j_ID (jobs (db w')) = map j_ID (jobs (db w))" unfolding jobs skip_all_ids .
  have "?fin \<notin> doomed_in runID (db w1)" using doomed_in_queued [of ?fin runID "db w1"] st result terminal_skipped(2) by auto
  moreover have "?fin \<in> set (map (\<lambda>r. if r = j then completed_row result t r else r) (jobs (db w)))"
    using j(1) by (auto intro!: rev_image_eqI [of j])
  ultimately have mem: "?fin \<in> set (jobs (db w'))"
    unfolding jobs using skip_all_mem [of ?fin _ "doomed_in runID (db w1)" ts] by (metis (no_types, lifting))
  have "find (\<lambda>r. j_ID r = j_ID ?fin) (jobs (db w')) = Some ?fin"
    using ids ids2 mem by (intro find_unique_key) auto
  then show "find (\<lambda>r. j_ID r = j_ID j) (jobs (db w')) = Some ?fin" by (simp add: completed_row_def result_row_def)
  show "log_chunks (db w') = log_chunks (db w)" using rec gate by (simp add: completion_recorded_def gate_outcome_def Let_def)
qed

text \<open>A runner that logs under its lease and completes its job: both calls succeed, and this is left.\<close>

lemma logged_and_completed:
  assumes E: "solo (svc_env s)" and ok: "db_ok (db w)" "logs_ok (db w)" "length (jobs (db w)) < fuel"
    and tok: "bearerToken md = Inr tok" and job: "lease_job (db w) l = Some j" "authorized tok (db w) j"
    and st: "j_Status j \<in> {''leased'', ''running''}"
    and cs: "\<forall>c\<in>set chunks. uuid_parse s (lk_LeaseId c) = Some l \<and> 0 \<le> lk_Seq c \<and> lk_Seq c < int64_max \<and> lk_Data c \<noteq> None"
    and ord: "sorted_wrt (<) (map lk_Seq chunks)" and new: "\<forall>r\<in>set (log_chunks (db w)). lc_LeaseID r \<noteq> l"
    and cr: "uuid_parse s (cj_LeaseId cr) = Some l" "phaseToResult (cj_Result cr) = Inr result" "isTerminalStatus result"
    and Q: "channel_invariant Q" "\<forall>c\<in>set chunks. \<forall>w. Q w \<longrightarrow> Q (publish (chunk_of (j_ID j) l c) w)" "Q w"
  shows "\<exists>w1 w2 t. run_state (StreamLogs s md (\<lambda>_. True) chunks EndEOF) w = (Inr (), w1) \<and>
    run_state (CompleteJob fuel s md cr) w1 = (Some (Inr ()), w2) \<and> Q w2 \<and> logs_ok (db w2) \<and>
    find (\<lambda>r. j_ID r = j_ID j) (jobs (db w2)) = Some (completed_row result t j) \<and>
    j_Status (completed_row result t j) = result \<and> result \<in> set logsTerminalJobStatuses \<and>
    replay (j_ID j) 0 (db w2) = map (chunk_of (j_ID j) l) chunks"
proof -
  have seqs: "distinct (map lk_Seq chunks)" using ord by (simp add: strict_sorted_iff)
  have "\<forall>c\<in>set chunks. (l, lk_Seq c) \<notin> chunk_keys (db w)" using new by (auto simp: chunk_keys_def)
  then obtain w1 where log: "run_state (StreamLogs s md (\<lambda>_. True) chunks EndEOF) w = (Inr (), w1)" and Q1: "Q w1"
    and w1: "db w1 = (db w)\<lparr>log_chunks := log_chunks (db w) @ map (chunk_row l) chunks\<rparr>"
    using log_loop_new [OF E job _ _ seqs _ Q, of Map.empty] tok cs by (auto simp: StreamLogs_def cache_fits_def)
  obtain rid rn where rid: "j_RunnerID j = Some rid" "find (\<lambda>r. rn_ID r = rid) (runners (db w)) = Some rn"
    "validToken tok (rn_AuthToken rn)" using job(2) by (auto simp: authorized_def)
  have j: "j \<in> set (jobs (db w))" "j_LeaseID j = Some l" using find_Some_set job(1) unfolding lease_job_def by fastforce+
  have ids: "distinct (map j_ID (jobs (db w)))" using ok(1) by (simp add: db_ok_def)
  obtain t w1' ts w2 where comp: "run_state (CompleteJob fuel s md cr) w1 = (Some (Inr ()), w2)"
    and rec: "completion_recorded j result t (cj_Outputs cr) w1 w1'" and gate: "gate_outcome s (j_RunID j) w1' ts w2"
    using CompleteJob_solo [OF E, of w1 fuel md tok cr l j rid rn result] ok(1,3) tok job(1) cr rid ids
    by (auto simp: w1 db_ok_def lease_job_def)
  have found: "find (\<lambda>r. j_ID r = j_ID j) (jobs (db w2)) = Some (completed_row result t j)"
    and ids2: "map j_ID (jobs (db w2)) = map j_ID (jobs (db w))"
    and logs: "log_chunks (db w2) = log_chunks (db w) @ map (chunk_row l) chunks"
    using completed_row_kept [OF rec gate] st cr(3) j(1) ids by (simp_all add: w1)
  have "replay (j_ID j) 0 (db w2) = map (scan_chunk (j_ID j) \<circ> chunk_row l) chunks"
    by (rule replay_of_lease [OF _ found _ logs new ord])
      (use ids ids2 j(2) cs in \<open>auto simp: completed_row_def result_row_def\<close>)
  moreover have "scan_chunk (j_ID j) (chunk_row l c) = chunk_of (j_ID j) l c" if "c \<in> set chunks" for c
    using cs that by (auto simp: scan_chunk_def chunk_row_def chunk_of_def)
  moreover have "logs_ok (db w2)"
    using ok(2) cs new ids2 seqs by (auto simp: logs_ok_def logs chunk_row_def comp_def distinct_map inj_on_def)
  moreover have "Q w2"
    by (rule channel_invariant.CompleteJob_keeps [OF Q(1) comp Q1])
  moreover have "j_Status (completed_row result t j) = result" "result \<in> set logsTerminalJobStatuses"
    using st cr(3) by (auto simp: completed_row_def isTerminalStatus_def terminalJobStatuses_def logsTerminalJobStatuses_def)
  ultimately show ?thesis using log comp found by (intro exI [of _ w1] exI [of _ w2] exI [of _ t]) auto
qed

text \<open>The answers of the two log endpoints for a finished job whose log is \<open>log\<close>.\<close>

lemma read_finished:
  assumes D: "solo (lg_env D)" "lg_flusher D" and d: "logs_ok (db w)" "chans_made w"
    and j: "find (\<lambda>r. j_ID r = jid) (jobs (db w)) = Some j" "j_Status j \<in> set logsTerminalJobStatuses"
    and log: "replay jid 0 (db w) = log" "\<forall>c\<in>set log. CHR 0x0D \<notin> set (elems (c_Data c))"
    and rq: "lg_uuid_parse D (param_get (hr_Param rq) ''id'') = Some jid"
      "param_get (hr_Header rq) ''Last-Event-ID'' = []" "param_get (hr_Query rq) ''from_seq'' = []"
  shows "\<exists>out w'. run_state (logsSSEHandler D (\<lambda>_. True) rq [] es) w = (Inr (True, out), w') \<and>
      read_stream (concat (map render out)) = events_of [] (map LogEvent log @ [EndEvent (j_Status j)])"
    "rp_Body (fst (run_state (logsTxtHandler D rq) w)) = concat (map (\<lambda>c. elems (c_Data c)) log)"
proof -
  let ?w = "w\<lparr>tick := Suc (tick w)\<rparr>"
  have get: "run_state (logsGetJob D jid) w = (Inr j, ?w)"
    by (simp add: logsGetJob_def GetJob_def run_query_solo [OF D(1)] first_row_def j(1))
  show "rp_Body (fst (run_state (logsTxtHandler D rq) w)) = concat (map (\<lambda>c. elems (c_Data c)) log)"
    by (simp add: logsTxtHandler_def logsParseJobID_def rq(1) get ReplayFrom_def run_query_solo [OF D(1)] log(1))
  let ?out = "Comment ''connected'' # map LogEvent log @ [EndEvent (j_Status j)]"
  have "chans_made ?w" using d(2) by (auto simp: chans_made_def less_Suc_eq)
  with d(1) have "fst (run_state (sse_stream D (\<lambda>_. True) jid (j_Status j) 0 [] es) ?w) = (True, ?out)"
    using finished_job_streamed_exactly [OF D(1) _ _ j(2), of ?w "[]" jid 0 es] log(1)
    by (simp add: int64_min_def int64_max_def)
  then obtain w' where "run_state (logsSSEHandler D (\<lambda>_. True) rq [] es) w = (Inr (True, ?out), w')"
    using get rq D(2) by (auto simp: logsSSEHandler_def logsParseJobID_def logsEffectiveStartSeq_def split_beta)
  moreover have "read_stream (concat (map render ?out)) = events_of [] ?out"
    using log(2) j(2) by (intro event_stream_roundtrip) auto
  ultimately show "\<exists>out w'. run_state (logsSSEHandler D (\<lambda>_. True) rq [] es) w = (Inr (True, out), w') \<and>
      read_stream (concat (map render out)) = events_of [] (map LogEvent log @ [EndEvent (j_Status j)])" by auto
qed

lemma events_of_log:
  "events_of last_id (map LogEvent log @ [EndEvent st]) =
    map (\<lambda>c. (''log'', without_final_newline (elems (c_Data c)), Itoa (c_Seq c))) log @
    [(''end'', Marshal (string_object [(''status'', st)]), last (last_id # map (Itoa \<circ> c_Seq) log))]"
  by (induction log arbitrary: last_id) (simp_all del: Marshal.simps)

text \<open>
  C23: what a runner logs is what a reader gets. The runner that holds the lease of a leased or
  running job, alone on the database, streams chunks without a carriage return, numbered in
  increasing order from 0 up to less than the largest 64-bit number, before which this lease has
  no chunk stored, and completes the job. Both calls succeed. A client that then opens the live
  stream from its beginning reads, from the bytes it is sent, exactly one event per chunk, in
  order, with the chunk's number and the chunk's bytes less one final newline, and the end event
  with the result; the text endpoint returns the bytes of the chunks, newlines included, one after
  the other.
\<close>

theorem streamed_log_read_back:
  assumes "solo (svc_env s)" and "solo (lg_env D)" and "lg_flusher D"
    and "db_ok (db w)" and "logs_ok (db w)" and "chans_made w" and "length (jobs (db w)) < fuel"
    and "bearerToken md = Inr tok" and "lease_job (db w) l = Some j" and "authorized tok (db w) j"
    and "j_Status j \<in> {''leased'', ''running''}"
    and "\<forall>c\<in>set chunks. uuid_parse s (lk_LeaseId c) = Some l \<and> 0 \<le> lk_Seq c \<and> lk_Seq c < int64_max \<and>
      lk_Data c \<noteq> None \<and> CHR 0x0D \<notin> set (elems (lk_Data c))"
    and "sorted_wrt (<) (map lk_Seq chunks)" and "\<forall>r\<in>set (log_chunks (db w)). lc_LeaseID r \<noteq> l"
    and "uuid_parse s (cj_LeaseId cr) = Some l" and "phaseToResult (cj_Result cr) = Inr result" and "isTerminalStatus result"
    and "lg_uuid_parse D (param_get (hr_Param rq) ''id'') = Some (j_ID j)"
    and "param_get (hr_Header rq) ''Last-Event-ID'' = []" and "param_get (hr_Query rq) ''from_seq'' = []"
  shows "\<exists>w1 w2. run_state (StreamLogs s md (\<lambda>_. True) chunks EndEOF) w = (Inr (), w1) \<and>
    run_state (CompleteJob fuel s md cr) w1 = (Some (Inr ()), w2) \<and>
    (\<exists>out w3. run_state (logsSSEHandler D (\<lambda>_. True) rq [] es) w2 = (Inr (True, out), w3) \<and>
      read_stream (concat (map render out)) =
        map (\<lambda>c. (''log'', without_final_newline (elems (lk_Data c)), Itoa (lk_Seq c))) chunks @
        [(''end'', Marshal (string_object [(''status'', result)]), last ([] # map (Itoa \<circ> lk_Seq) chunks))]) \<and>
    rp_Body (fst (run_state (logsTxtHandler D rq) w2)) = concat (map (elems \<circ> lk_Data) chunks)"
proof -
  obtain w1 w2 t where calls: "run_state (StreamLogs s md (\<lambda>_. True) chunks EndEOF) w = (Inr (), w1)"
      "run_state (CompleteJob fuel s md cr) w1 = (Some (Inr ()), w2)"
    and w2: "chans_made w2" "logs_ok (db w2)" "find (\<lambda>r. j_ID r = j_ID j) (jobs (db w2)) = Some (completed_row result t j)"
      "j_Status (completed_row result t j) = result" "result \<in> set logsTerminalJobStatuses"
      "replay (j_ID j) 0 (db w2) = map (chunk_of (j_ID j) l) chunks"
    using logged_and_completed [OF assms(1,4,5,7-11) _ assms(13-17) fresh.channel_invariant_axioms] assms(6,12) chans_made_publish
    by metis
  have "\<forall>c\<in>set (map (chunk_of (j_ID j) l) chunks). CHR 0x0D \<notin> set (elems (c_Data c))"
    using assms(12) by (auto simp: chunk_of_def)
  note read = read_finished [OF assms(2,3) w2(2,1,3) _ w2(6) this assms(18-20)]
  with calls w2(4,5) show ?thesis
    unfolding events_of_log by (auto simp: chunk_of_def comp_def simp del: Marshal.simps)
qed

definition sample_lines :: "LogChunk list" where
  "sample_lines = [\<lparr>lk_LeaseId = ''50'', lk_StepId = ''s'', lk_Seq = 1, lk_TsUnix = 0, lk_Data = Some ''one''\<rparr>,
     \<lparr>lk_LeaseId = ''50'', lk_StepId = ''s'', lk_Seq = 2, lk_TsUnix = 0, lk_Data = Some ''two''\<rparr>]"

definition get_logs :: HttpRequest where
  "get_logs = \<lparr>hr_Header = [], hr_Query = [], hr_Param = [(''id'', ''11'')], hr_Body = [], hr_BodyBroken = False\<rparr>"

definition leased_world :: world where
  "leased_world = world_with (db_with [lease_row 50 7 5 0 (sample_job 11 ''build'' [])])"

lemma leased_world_ok: "db_ok (db leased_world)" "logs_ok (db leased_world)" "chans_made leased_world"
  by (simp_all add: leased_world_def db_ok_def chunks_ok_def logs_ok_def chans_made_def lease_shape_def sample_defs lease_row_def)

theorem streamed_log_read_back_witness:
  "\<exists>w1 w2. run_state (StreamLogs sample_service (Some [''Bearer tok'']) (\<lambda>_. True) sample_lines EndEOF) leased_world = (Inr (), w1) \<and>
    run_state (CompleteJob 3 sample_service (Some [''Bearer tok'']) (sample_completion PHASE_SUCCESS)) w1 = (Some (Inr ()), w2) \<and>
    rp_Body (fst (run_state (logsTxtHandler sample_logs get_logs) w2)) = ''onetwo''"
proof -
  let ?j = "lease_row 50 7 5 0 (sample_job 11 ''build'' [])"
  have p: "ParseInt ''50'' = Some 50" by code_simp
  have j: "lease_job (db leased_world) 50 = Some ?j" "authorized ''tok'' (db leased_world) ?j" "j_Status ?j \<in> {''leased'', ''running''}"
    by (simp_all add: lease_job_def authorized_def validToken_def leased_world_def sample_defs lease_row_def)
  have c: "\<forall>c\<in>set sample_lines. uuid_parse sample_service (lk_LeaseId c) = Some 50 \<and> 0 \<le> lk_Seq c \<and> lk_Seq c < int64_max \<and>
      lk_Data c \<noteq> None \<and> CHR 0x0D \<notin> set (elems (lk_Data c))"
    by (simp add: sample_lines_def p int64_max_def)
  have r: "solo (lg_env sample_logs)" "lg_flusher sample_logs"
    "lg_uuid_parse sample_logs (param_get (hr_Param get_logs) ''id'') = Some (j_ID ?j)"
    "param_get (hr_Header get_logs) ''Last-Event-ID'' = []" "param_get (hr_Query get_logs) ''from_seq'' = []"
    by (simp_all add: sample_logs_def get_logs_def param_get_def lease_row_def sample_job_def)
  have m: "sorted_wrt (<) (map lk_Seq sample_lines)" "\<forall>r\<in>set (log_chunks (db leased_world)). lc_LeaseID r \<noteq> 50"
    "uuid_parse sample_service (cj_LeaseId (sample_completion PHASE_SUCCESS)) = Some 50"
    "phaseToResult (cj_Result (sample_completion PHASE_SUCCESS)) = Inr ''success''" "isTerminalStatus ''success''"
    "length (jobs (db leased_world)) < 3" "bearerToken (Some [''Bearer tok'']) = Inr ''tok''"
    by (simp_all add: sample_lines_def sample_completion_def p phaseToResult_def isTerminalStatus_def terminalJobStatuses_def
        leased_world_def sample_defs bearerToken_Inr)
  from streamed_log_read_back [where es = "[]", OF _ r(1,2) leased_world_ok m(6,7) j c m(1-5) r(3-5)]
  show ?thesis by (auto simp: sample_lines_def comp_def)
qed

subsection \<open>A job that is leased again\<close>

text \<open>
  A stream that has sent number \<open>L\<close>, and a job whose current lease has logged no larger
  number: neither the channel nor the table has anything the stream would send.
\<close>

definition caught_up :: "int \<Rightarrow> uuid \<Rightarrow> nat \<Rightarrow> world \<Rightarrow> bool" where
  "caught_up L jid ch w \<longleftrightarrow> chan_holds (\<lambda>c. c_Seq c \<le> L) jid ch w \<and> replay jid (L + 1) (db w) = []"

lemma chan_holds_take: "chan_holds P jid ch w \<Longrightarrow> \<forall>c\<in>set b. P c \<Longrightarrow> chan_holds P jid ch (take_from jid ch b w)"
proof -
  assume h: "chan_holds P jid ch w" and b: "\<forall>c\<in>set b. P c"
  have s: "sub_chan (set_buffer ch b s) = sub_chan s" "sub_chan s = ch \<Longrightarrow> sub_buffer (set_buffer ch b s) = b" for s
    by (simp_all add: set_buffer_def)
  show ?thesis
    unfolding chan_holds_def
  proof (intro conjI ballI impI)
    fix e x assume "e \<in> set (log_subs (take_from jid ch b w))" "x \<in> set (snd e)" "sub_chan x = ch"
    then have "e \<in> (\<lambda>e. if fst e = jid then (jid, map (set_buffer ch b) (snd e)) else e) ` set (log_subs w)"
      by (simp add: take_from_def)
    then obtain e0 where e0: "e0 \<in> set (log_subs w)" "e = (if fst e0 = jid then (jid, map (set_buffer ch b) (snd e0)) else e0)"
      by (rule imageE)
    with h s b \<open>x \<in> set (snd e)\<close> \<open>sub_chan x = ch\<close> show "fst e = jid" "\<And>c. c \<in> set (sub_buffer x) \<Longrightarrow> P c"
      by (auto simp: chan_holds_def split: if_splits) metis
  next
    fix x c assume "x \<in> set (closed_subs (take_from jid ch b w))" "sub_chan x = ch" "c \<in> set (sub_buffer x)"
    with s b show "P c" by (auto simp: take_from_def) metis
  qed
qed

lemma chan_holds_buffers:
  assumes "chan_holds P jid ch w"
  shows "open_buffer jid ch w = Some b \<Longrightarrow> \<forall>c\<in>set b. P c" "\<forall>c\<in>set (closed_buffer ch w). P c"
proof -
  show "\<forall>c\<in>set b. P c" if "open_buffer jid ch w = Some b"
    using chan_holds_receive_all [OF assms] that by (simp add: receive_all_def)
  show "\<forall>c\<in>set (closed_buffer ch w). P c"
    using assms by (cases "find (\<lambda>s. sub_chan s = ch) (closed_subs w)") (auto simp: chan_holds_def closed_buffer_def dest!: find_Some_set)
qed

lemma receive_caught_up:
  assumes "caught_up L jid ch w" and "run_state (receive jid ch) w = (r, w')"
  shows "caught_up L jid ch w' \<and> (\<forall>c. r = Received c \<longrightarrow> c_Seq c \<le> L)"
proof -
  have h: "chan_holds (\<lambda>c. c_Seq c \<le> L) jid ch w" using assms(1) by (simp add: caught_up_def)
  note bufs = chan_holds_buffers [OF h]
  show ?thesis
    using assms bufs(2) bufs(1)
    by (auto simp: receive_def caught_up_def intro!: chan_holds_take split: option.splits list.splits)
qed

lemma finish_caught_up:
  assumes D: "solo (lg_env D)" and w: "caught_up L jid ch w" and L: "wrap64 (L + 1) = L + 1"
    and run: "run_state (logsMaybeFinish D wr jid status ch (L, out)) w = ((fin, s'), w')"
  shows "fst s' = L \<and> logged (snd s') = logged out \<and> caught_up L jid ch w' \<and>
    (status \<in> set logsTerminalJobStatuses \<longrightarrow> wr (length out) \<longrightarrow> fin \<and> snd s' = out @ [EndEvent status])"
proof (cases "status \<in> set logsTerminalJobStatuses")
  case True
  have h: "chan_holds (\<lambda>c. c_Seq c \<le> L) jid ch w" using w by (simp add: caught_up_def)
  obtain bs w1 where bs: "run_state (receive_all jid ch) w = (bs, w1)" by fastforce
  have "\<forall>c\<in>set bs. c_Seq c \<le> L" using chan_holds_receive_all [OF h] bs by simp
  then have sn: "send_newer wr bs (L, out) = (True, (L, out))" by (simp add: send_newer_old)
  have w1: "w1 = take_from jid ch [] w" using bs by (simp add: receive_all_def)
  have "caught_up L jid ch w1" using w h by (simp add: w1 caught_up_def chan_holds_take)
  moreover have "replay jid (L + 1) (db w1) = []" using w by (simp add: w1 caught_up_def)
  ultimately show ?thesis
    using True run bs sn
    by (auto simp: logsMaybeFinish_def ReplayFrom_def run_query_solo [OF D] L write_msg_def caught_up_def chan_holds_def
        split: if_splits)
qed (use run w in \<open>auto simp: logsMaybeFinish_def\<close>)

lemma sse_step_caught_up:
  assumes D: "solo (lg_env D)" and w: "caught_up L jid ch w" and L: "wrap64 (L + 1) = L + 1"
    and e: "\<forall>c. e = Published c \<longrightarrow> c_JobRowID c = jid \<longrightarrow> c_Seq c \<le> L"
    and run: "run_state (sse_step D wr jid ch e (L, out)) w = ((fin, s'), w')"
  shows "fst s' = L \<and> logged (snd s') = logged out \<and> caught_up L jid ch w'"
proof (cases e)
  case (Published c)
  with e w run show ?thesis by (auto simp: Publish_def caught_up_def intro: chan_holds_publish)
next
  case Receive
  obtain r w1 where r: "run_state (receive jid ch) w = (r, w1)" by fastforce
  note w1 = receive_caught_up [OF w r]
  show ?thesis
  proof (cases r)
    case Closed
    have "replay jid (L + 1) (db w1) = []" using w1 by (simp add: caught_up_def)
    with Closed Receive r run w1 show ?thesis
      by (auto simp: ReplayFrom_def run_query_solo [OF D] L caught_up_def chan_holds_def)
  qed (use Receive r run w1 in auto)
next
  case Tick
  show ?thesis
  proof (cases "wr (length out)")
    case True
    obtain g w1 where g: "run_state (GetJob (lg_env D) jid) w = (g, w1)" by fastforce
    have w1: "caught_up L jid ch w1"
      using g w by (auto simp: GetJob_def run_query_solo [OF D] caught_up_def chan_holds_def)
    show ?thesis
    proof (cases g)
      case (Inr job)
      have "run_state (logsMaybeFinish D wr jid (j_Status job) ch (L, out @ [Comment ''keep-alive''])) w1 = ((fin, s'), w')"
        using Tick True Inr g run by (simp add: write_msg_def logsCurrentJobStatus_def)
      from finish_caught_up [OF D w1 L this] show ?thesis by simp
    qed (use Tick True g run w1 in \<open>auto simp: write_msg_def logsCurrentJobStatus_def\<close>)
  qed (use Tick run w in \<open>auto simp: write_msg_def\<close>)
qed (use run w in auto)

lemma sse_loop_caught_up:
  assumes D: "solo (lg_env D)" and L: "wrap64 (L + 1) = L + 1"
    and "caught_up L jid ch w" and "\<forall>c. Published c \<in> set es \<longrightarrow> c_JobRowID c = jid \<longrightarrow> c_Seq c \<le> L"
    and "run_state (sse_loop D wr jid ch es (L, out)) w = ((fin, s'), w')"
  shows "logged (snd s') = logged out"
  using assms(3-)
proof (induction es arbitrary: out w)
  case (Cons e es)
  obtain f s1 w1 where e: "run_state (sse_step D wr jid ch e (L, out)) w = ((f, s1), w1)" by (metis surj_pair)
  have s1: "fst s1 = L" "logged (snd s1) = logged out" "caught_up L jid ch w1"
    using sse_step_caught_up [OF D Cons.prems(1) L _ e] Cons.prems(2) by auto
  obtain out1 where "s1 = (L, out1)" using s1(1) by (cases s1) simp
  with Cons.IH [of w1 out1] Cons.prems e s1 show ?case by (cases f) auto
qed auto

text \<open>
  C25: an open log stream hides the log of a second lease. The stream has sent number \<open>L\<close> of an
  earlier lease; the job is leased again, its new runner streams chunks whose numbers, counted
  from the start again, do not go beyond \<open>L\<close>, and completes the job. Whatever then happens to
  the stream, it sends none of these chunks: its next tick sends the end event and nothing
  else. Neither does a client that reconnects with the last number it has seen get any of
  them, although the text endpoint returns them all.
\<close>

theorem second_lease_log_hidden:
  assumes "solo (svc_env s)" and "solo (lg_env D)"
    and "db_ok (db w)" and "logs_ok (db w)" and "chans_made w" and "length (jobs (db w)) < fuel"
    and "bearerToken md = Inr tok" and "lease_job (db w) l = Some j" and "authorized tok (db w) j"
    and "j_Status j \<in> {''leased'', ''running''}"
    and "\<forall>c\<in>set chunks. uuid_parse s (lk_LeaseId c) = Some l \<and> 0 \<le> lk_Seq c \<and> lk_Seq c \<le> L \<and> lk_Data c \<noteq> None"
    and "sorted_wrt (<) (map lk_Seq chunks)" and "\<forall>r\<in>set (log_chunks (db w)). lc_LeaseID r \<noteq> l"
    and "uuid_parse s (cj_LeaseId cr) = Some l" and "phaseToResult (cj_Result cr) = Inr result" and "isTerminalStatus result"
    and "lg_uuid_parse D (param_get (hr_Param rq) ''id'') = Some (j_ID j)"
    and "chan_holds (\<lambda>c. c_Seq c \<le> L) (j_ID j) ch w" and "0 \<le> L" and "L < int64_max"
  shows "\<exists>w1 w2. run_state (StreamLogs s md (\<lambda>_. True) chunks EndEOF) w = (Inr (), w1) \<and>
    run_state (CompleteJob fuel s md cr) w1 = (Some (Inr ()), w2) \<and>
    (\<forall>wr es out fin s' w3. (\<forall>c. Published c \<notin> set es) \<longrightarrow>
      run_state (sse_loop D wr (j_ID j) ch es (L, out)) w2 = ((fin, s'), w3) \<longrightarrow> logged (snd s') = logged out) \<and>
    (\<forall>es out. snd (fst (run_state (sse_loop D (\<lambda>_. True) (j_ID j) ch (Tick # es) (L, out)) w2)) =
      (L, out @ [Comment ''keep-alive'', EndEvent result])) \<and>
    (\<forall>es. fst (run_state (sse_stream D (\<lambda>_. True) (j_ID j) result (L + 1) [] es) w2) =
      (True, [Comment ''connected'', EndEvent result])) \<and>
    rp_Body (fst (run_state (logsTxtHandler D rq) w2)) = concat (map (elems \<circ> lk_Data) chunks)"
proof -
  let ?jid = "j_ID j"
  let ?Q = "\<lambda>w. chans_made w \<and> chan_holds (\<lambda>c. c_Seq c \<le> L) ?jid ch w"
  have pub: "\<forall>c\<in>set chunks. \<forall>w. ?Q w \<longrightarrow> ?Q (publish (chunk_of ?jid l c) w)"
    using assms(11) by (auto simp: chan_holds_publish chans_made_publish chunk_of_def)
  have cs: "\<forall>c\<in>set chunks. uuid_parse s (lk_LeaseId c) = Some l \<and> 0 \<le> lk_Seq c \<and> lk_Seq c < int64_max \<and> lk_Data c \<noteq> None"
    using assms(11,20) by force
  obtain w1 w2 t where calls: "run_state (StreamLogs s md (\<lambda>_. True) chunks EndEOF) w = (Inr (), w1)"
      "run_state (CompleteJob fuel s md cr) w1 = (Some (Inr ()), w2)"
    and w2: "?Q w2" "logs_ok (db w2)" "find (\<lambda>r. j_ID r = ?jid) (jobs (db w2)) = Some (completed_row result t j)"
      "j_Status (completed_row result t j) = result" "result \<in> set logsTerminalJobStatuses"
      "replay ?jid 0 (db w2) = map (chunk_of ?jid l) chunks"
    using logged_and_completed [OF assms(1,3,4,6-10) cs assms(12-16) channel_conj pub] assms(5,18) by blast
  have none: "replay ?jid (L + 1) (db w2) = []"
    using assms(11,19) w2(6) by (subst replay_later [of 0]) (auto simp: chunk_of_def filter_empty_conv)
  then have up: "caught_up L ?jid ch w2" using w2(1) by (simp add: caught_up_def)
  have L: "wrap64 (L + 1) = L + 1" using assms(19,20) by (intro wrap64_id) (simp add: in_int64_def int64_min_def)
  let ?k = "Comment ''keep-alive''"
  have get: "run_state (GetJob (lg_env D) ?jid) w2 = (Inr (completed_row result t j), w2\<lparr>tick := Suc (tick w2)\<rparr>)"
    by (simp add: GetJob_def run_query_solo [OF assms(2)] first_row_def w2(3))
  have tick: "run_state (sse_step D (\<lambda>_. True) ?jid ch Tick (L, out)) w2 =
      run_state (logsMaybeFinish D (\<lambda>_. True) ?jid result ch (L, out @ [?k])) (w2\<lparr>tick := Suc (tick w2)\<rparr>)" for out
    by (simp add: write_msg_def logsCurrentJobStatus_def get w2(4))
  have "caught_up L ?jid ch (w2\<lparr>tick := Suc (tick w2)\<rparr>)" using up by (simp add: caught_up_def chan_holds_def)
  note finish = finish_caught_up [OF assms(2) this L]
  have fin: "fst (run_state (logsMaybeFinish D (\<lambda>_. True) ?jid result ch (L, out @ [?k])) (w2\<lparr>tick := Suc (tick w2)\<rparr>)) =
      (True, (L, out @ [?k, EndEvent result]))" for out
  proof -
    obtain f s' w' where run: "run_state (logsMaybeFinish D (\<lambda>_. True) ?jid result ch (L, out @ [?k])) (w2\<lparr>tick := Suc (tick w2)\<rparr>) = ((f, s'), w')"
      by (metis surj_pair)
    from finish [OF run] w2(5) show ?thesis by (cases s') (simp add: run)
  qed
  have "snd (fst (run_state (sse_loop D (\<lambda>_. True) ?jid ch (Tick # es) (L, out)) w2)) = (L, out @ [?k, EndEvent result])" for es out
    using fin [of out] by (cases "run_state (sse_step D (\<lambda>_. True) ?jid ch Tick (L, out)) w2")
      (simp add: tick del: sse_step.simps)
  moreover have "fst (run_state (sse_stream D (\<lambda>_. True) ?jid result (L + 1) [] es) w2) = (True, [Comment ''connected'', EndEvent result])" for es
    using finished_job_streamed_exactly [OF assms(2) w2(2) _ w2(5), of "[]" ?jid "L + 1" es] w2(1) none assms(19,20)
    by (simp add: int64_min_def)
  moreover have "rp_Body (fst (run_state (logsTxtHandler D rq) w2)) = concat (map (elems \<circ> lk_Data) chunks)"
    by (simp add: logsTxtHandler_def logsParseJobID_def assms(17) logsGetJob_def GetJob_def run_query_solo [OF assms(2)]
        first_row_def w2(3,6) ReplayFrom_def chunk_of_def comp_def)
  moreover have "logged (snd s') = logged out"
    if "\<forall>c. Published c \<notin> set es" "run_state (sse_loop D wr ?jid ch es (L, out)) w2 = ((fin, s'), w3)" for wr es out fin s' w3
    using sse_loop_caught_up [OF assms(2) L up _ that(2)] that(1) by blast
  ultimately show ?thesis using calls by (intro exI [of _ w1] exI [of _ w2]) blast
qed

text \<open>
  The same job was leased before, as lease 40, and logged two chunks then; a client follows its
  log through channel 0 and has seen number 2.
\<close>

definition followed_world :: world where
  "followed_world = leased_world\<lparr>db := (db leased_world)\<lparr>log_chunks := [(sample_row 1 ''old'')\<lparr>lc_LeaseID := 40\<rparr>,
       (sample_row 2 ''er'')\<lparr>lc_LeaseID := 40\<rparr>]\<rparr>,
     log_subs := [(11, [\<lparr>sub_chan = 0, sub_buffer = []\<rparr>])], tick := 1\<rparr>"

theorem second_lease_log_hidden_witness:
  "\<exists>w1 w2. run_state (StreamLogs sample_service (Some [''Bearer tok'']) (\<lambda>_. True) sample_lines EndEOF) followed_world = (Inr (), w1) \<and>
    run_state (CompleteJob 3 sample_service (Some [''Bearer tok'']) (sample_completion PHASE_SUCCESS)) w1 = (Some (Inr ()), w2) \<and>
    snd (fst (run_state (sse_loop sample_logs (\<lambda>_. True) 11 0 [Tick] (2, [])) w2)) = (2, [Comment ''keep-alive'', EndEvent ''success'']) \<and>
    rp_Body (fst (run_state (logsTxtHandler sample_logs get_logs) w2)) = ''onetwo''"
proof -
  let ?j = "lease_row 50 7 5 0 (sample_job 11 ''build'' [])"
  have p: "ParseInt ''50'' = Some 50" by code_simp
  have w: "db_ok (db followed_world)" "logs_ok (db followed_world)" "chans_made followed_world" "length (jobs (db followed_world)) < 3"
    by (simp_all add: followed_world_def leased_world_def db_ok_def chunks_ok_def logs_ok_def chans_made_def lease_shape_def
        sample_row_def sample_defs lease_row_def int64_max_def)
  have j: "lease_job (db followed_world) 50 = Some ?j" "authorized ''tok'' (db followed_world) ?j" "j_Status ?j \<in> {''leased'', ''running''}"
    by (simp_all add: lease_job_def authorized_def validToken_def followed_world_def leased_world_def sample_defs lease_row_def)
  have c: "\<forall>c\<in>set sample_lines. uuid_parse sample_service (lk_LeaseId c) = Some 50 \<and> 0 \<le> lk_Seq c \<and> lk_Seq c \<le> 2 \<and> lk_Data c \<noteq> None"
    by (simp add: sample_lines_def p)
  have m: "sorted_wrt (<) (map lk_Seq sample_lines)" "\<forall>r\<in>set (log_chunks (db followed_world)). lc_LeaseID r \<noteq> 50"
    "uuid_parse sample_service (cj_LeaseId (sample_completion PHASE_SUCCESS)) = Some 50"
    "phaseToResult (cj_Result (sample_completion PHASE_SUCCESS)) = Inr ''success''" "isTerminalStatus ''success''"
    "lg_uuid_parse sample_logs (param_get (hr_Param get_logs) ''id'') = Some (j_ID ?j)"
    "chan_holds (\<lambda>c. c_Seq c \<le> 2) (j_ID ?j) 0 followed_world" "bearerToken (Some [''Bearer tok'']) = Inr ''tok''"
    "solo (lg_env sample_logs)" "2 < int64_max"
    by (simp_all add: sample_lines_def sample_completion_def p phaseToResult_def isTerminalStatus_def terminalJobStatuses_def
        followed_world_def leased_world_def sample_row_def sample_defs bearerToken_Inr sample_logs_def get_logs_def param_get_def
        lease_row_def chan_holds_def int64_max_def)
  from second_lease_log_hidden [OF _ m(9) w m(8) j c m(1-7) _ m(10)]
  obtain w1 w2 where r: "run_state (StreamLogs sample_service (Some [''Bearer tok'']) (\<lambda>_. True) sample_lines EndEOF) followed_world = (Inr (), w1)"
    "run_state (CompleteJob 3 sample_service (Some [''Bearer tok'']) (sample_completion PHASE_SUCCESS)) w1 = (Some (Inr ()), w2)"
    "\<forall>es out. snd (fst (run_state (sse_loop sample_logs (\<lambda>_. True) (j_ID ?j) 0 (Tick # es) (2, out)) w2)) =
      (2, out @ [Comment ''keep-alive'', EndEvent ''success''])"
    "rp_Body (fst (run_state (logsTxtHandler sample_logs get_logs) w2)) = concat (map (elems \<circ> lk_Data) sample_lines)"
    by (simp del: sse_loop.simps) blast
  have "j_ID ?j = 11" by (simp add: lease_row_def sample_job_def)
  with r(1,2,4) r(3) [rule_format, of "[]" "[]"] show ?thesis
    by (intro exI [of _ w1] exI [of _ w2]) (simp add: sample_lines_def del: sse_loop.simps)
qed

subsection \<open>A lease that has ended\<close>

text \<open>
  A stream resolves a lease once. The chunks it is sent later are stored and published to the
  readers of the job even when no job holds the lease any more, as after a reaper's tick.
\<close>

lemma late_chunk_taken:
  assumes E: "solo (svc_env s)" and "resolved l = Some (Some j)" and "uuid_parse s (lk_LeaseId c) = Some l"
    and "lk_Data c \<noteq> None" and "(l, lk_Seq c) \<notin> chunk_keys (db w)"
  shows "run_state (log_chunk s tok resolved c) w = (Inr resolved, publish (chunk_of (j_ID j) l c)
    (w\<lparr>db := (db w)\<lparr>log_chunks := log_chunks (db w) @ [chunk_row l c]\<rparr>, tick := Suc (tick w)\<rparr>))"
proof -
  obtain dat where "lk_Data c = Some dat" using assms(4) by blast
  moreover have "\<not> (\<exists>x\<in>set (log_chunks (db w)). lc_LeaseID x = l \<and> lc_Seq x = lk_Seq c)"
    using assms(5) by (auto simp: chunk_keys_def)
  ultimately show ?thesis using assms(2,3)
    by (auto simp: log_chunk_def resolve_cached_def Let_def Append_def run_statement_solo [OF E] sql_Append_def Publish_def
        chunk_row_def chunk_of_def)
qed

end
