(* ===== verification/Lifecycle.thy ===== *)
theory Lifecycle
  imports Server "HOL-Library.Sublist"
begin

text \<open>
  \<open>cmd/drassi-server/main.go\<close>, the life of the process: \<open>main\<close> calls \<open>run\<close>, which
  boots, starts the two servers and the two reapers on goroutines of their own, waits for a
  signal or for a server to fail, shuts down and runs its deferred calls. \<open>main_step\<close> is
  the main goroutine, \<open>side_step\<close> everything that runs beside it: the database that answers the
  ping of \<open>NewPool\<close>, the server goroutines, requests and calls that begin and end, connections
  that are taken from the pool and returned to it, the reapers, signals, the passing of time.

  The decode hook of \<open>internal/planner/hook.go\<close> is here as well, since what it decides is
  whether the process survives a malformed job field.

  \<open>google.golang.org/grpc\<close> is a parameter: what \<open>Serve\<close> may return before and after
  \<open>GracefulStop\<close> was called, and with how many calls open \<open>GracefulStop\<close> returns; and so is
  \<open>pgxpool\<close>, with the number of connections in use with which \<open>Close\<close> returns.
\<close>

subsection \<open>The decode hook\<close>

datatype decode_hook = LogFatalf | DoNothing

record planner_globals =
  installHookOnce :: bool
  OnDecodeNodeError :: decode_hook

text \<open>The hook of \<open>act\<close> before any package is initialised, and \<open>sync.Once\<close> unused.\<close>

definition unset_globals :: planner_globals where
  "unset_globals = \<lparr>installHookOnce = False, OnDecodeNodeError = LogFatalf\<rparr>"

definition installDecodeErrorHook :: "planner_globals \<Rightarrow> planner_globals" where
  "installDecodeErrorHook g =
     (if installHookOnce g then g else g\<lparr>installHookOnce := True, OnDecodeNodeError := DoNothing\<rparr>)"

definition planner_init :: "planner_globals \<Rightarrow> planner_globals" where
  "planner_init g = installDecodeErrorHook g"

lemma installDecodeErrorHook_idem [simp]:
  "installDecodeErrorHook (installDecodeErrorHook g) = installDecodeErrorHook g"
  by (simp add: installDecodeErrorHook_def)

subsection \<open>State\<close>

text \<open>Times are in microseconds, as everywhere in the model.\<close>

definition shutdownTimeout :: nat where
  "shutdownTimeout = 10 * 1000000"

record grpc_server =
  gs_Serve_returns :: "bool \<Rightarrow> string option \<Rightarrow> bool"
  gs_GracefulStop_returns :: "nat \<Rightarrow> bool"

text \<open>
  What grpc documents: \<open>Serve\<close> returns a non-nil error unless \<open>Stop\<close> or
  \<open>GracefulStop\<close> was called, and \<open>GracefulStop\<close> blocks until all pending calls are finished.
\<close>

definition grpc_documented :: "grpc_server \<Rightarrow> bool" where
  "grpc_documented G \<longleftrightarrow> \<not> gs_Serve_returns G False None \<and> (\<forall>n. gs_GracefulStop_returns G n \<longleftrightarrow> n = 0)"

text \<open>What pgxpool documents: \<open>Close\<close> blocks until all connections are returned to the pool.\<close>

definition pgx_documented :: "('c, 'q) pgxpool \<Rightarrow> bool" where
  "pgx_documented X \<longleftrightarrow> (\<forall>n. px_Close_returns X n \<longleftrightarrow> n = 0)"

record ('c, 'q, 'p) host =
  ho_getenv :: "string \<rightharpoonup> string"
  ho_pgx :: "('c, 'q) pgxpool"
  ho_platform :: "'p platform"
  ho_listen :: "string \<Rightarrow> bool"
  ho_grpc :: grpc_server

datatype run_error = StartError start_error | ListenGRPC | HTTPServer string | GRPCServer string

text \<open>The calls \<open>run\<close> defers: \<open>stop\<close>, \<open>dbPool.Close\<close>, \<open>stopReaper\<close> and the \<open>cancel\<close> of the shutdown context.\<close>

datatype deferred = StopSignals | ClosePool | StopReaper | CancelShutdown

datatype death = ByFatalf | BySignal | ByPanic

text \<open>Where the main goroutine is.\<close>

datatype main_pc =
    AtLoad | AtPool | AtListen | AtSelect | AtShutdown | AtGracefulStop
  | Returning "run_error option" | Exited "run_error option" | Died death

text \<open>A server goroutine: in its server's \<open>Serve\<close>, at the send on \<open>errCh\<close>, or gone.\<close>

datatype goroutine = NotStarted | Serving | Sending "run_error option" | Finished

text \<open>The pool: not made, handed out, in \<open>Close\<close> (which hands out no connection any more), closed.\<close>

datatype pool_state = NoPool | PoolOpen | PoolClosing | PoolClosed

text \<open>
  The two reapers, \<open>RunReaper\<close> and \<open>StartJobReaper\<close>: before and in their first statement, the
  creation of the ticker, in their \<open>select\<close>, inside a tick, or returned.
\<close>

datatype reaper = RunnerReaper | LeaseReaper

datatype reaper_state = NotRunning | Starting | Waiting | Ticking | Returned

record 'p process =
  pr_pc :: main_pc
  pr_defers :: "deferred list"
  pr_globals :: planner_globals
  pr_signalled :: bool
  pr_ping :: bool
  pr_pool :: pool_state
  pr_conns :: nat
  pr_reaper :: "reaper \<Rightarrow> reaper_state"
  pr_reaperCtx_done :: bool
  pr_server :: "'p server option"
  pr_http :: goroutine
  pr_grpc :: goroutine
  pr_http_closed :: bool
  pr_grpc_stopping :: bool
  pr_errCh :: "run_error option list"
  pr_requests :: nat
  pr_calls :: nat
  pr_now :: nat
  pr_deadline :: nat
  pr_world :: world

definition newJobQueueNotifier :: "nat list" where
  "newJobQueueNotifier = []"

definition logstore_New :: "(uuid \<times> subscriber list) list" where
  "logstore_New = []"

text \<open>The database outlives the process; the notifier, the log subscribers and the rest start empty.\<close>

definition fresh_world :: "database \<Rightarrow> world" where
  "fresh_world d = \<lparr>db = d, waiters = newJobQueueNotifier, woken = [], log_subs = logstore_New, closed_subs = [],
     posted = [], tick = 0\<rparr>"

text \<open>Package initialisers run before \<open>main\<close>.\<close>

definition boot :: "database \<Rightarrow> 'p process" where
  "boot d = \<lparr>pr_pc = AtLoad, pr_defers = [], pr_globals = planner_init unset_globals, pr_signalled = False,
     pr_ping = False, pr_pool = NoPool, pr_conns = 0, pr_reaper = (\<lambda>_. NotRunning), pr_reaperCtx_done = False, pr_server = None, pr_http = NotStarted, pr_grpc = NotStarted,
     pr_http_closed = False, pr_grpc_stopping = False, pr_errCh = [], pr_requests = 0, pr_calls = 0,
     pr_now = 0, pr_deadline = 0, pr_world = fresh_world d\<rparr>"

subsection \<open>The main goroutine\<close>

definition begin_shutdown :: "'p process \<Rightarrow> 'p process" where
  "begin_shutdown s = s\<lparr>pr_pc := AtShutdown, pr_deadline := pr_now s + shutdownTimeout,
     pr_defers := CancelShutdown # pr_defers s, pr_http_closed := True\<rparr>"

text \<open>
  What a deferred call has done when it returns. \<open>stopReaper\<close> cancels a context and waits for
  nobody; \<open>dbPool.Close\<close> returns only once no connection is in use (\<open>close_returns\<close> below).
\<close>

fun run_deferred :: "deferred \<Rightarrow> 'p process \<Rightarrow> 'p process" where
  "run_deferred StopSignals s = s"
| "run_deferred ClosePool s = s\<lparr>pr_pool := PoolClosed\<rparr>"
| "run_deferred StopReaper s = s\<lparr>pr_reaperCtx_done := True\<rparr>"
| "run_deferred CancelShutdown s = s"

text \<open>
  \<open>NewPool\<close> pings the database after the DSN was parsed and the pool made, and waits for the
  answer; the ping also ends, with an error, when a signal cancels its context.
\<close>

definition pings :: "start_error + 'p server \<Rightarrow> bool" where
  "pings r = (case r of Inr _ \<Rightarrow> True | Inl e \<Rightarrow> e = ConnectDB ErrPingDB)"

text \<open>\<open>make(chan error, 2)\<close>.\<close>

definition errCh_cap :: nat where
  "errCh_cap = 2"

inductive main_step :: "('c, 'q, 'p) host \<Rightarrow> 'p process \<Rightarrow> 'p process \<Rightarrow> bool" for H where
  load_fails: "pr_pc s = AtLoad \<Longrightarrow> Load (ho_getenv H) = Inl e \<Longrightarrow>
    main_step H s (s\<lparr>pr_pc := Returning (Some (StartError (LoadConfig e)))\<rparr>)"
| load_ok: "pr_pc s = AtLoad \<Longrightarrow> Load (ho_getenv H) = Inr conf \<Longrightarrow>
    main_step H s (s\<lparr>pr_pc := AtPool, pr_defers := StopSignals # pr_defers s\<rparr>)"
| pool_fails: "pr_pc s = AtPool \<Longrightarrow> run_wired (ho_getenv H) (ho_pgx H) (ho_platform H) = Inl e \<Longrightarrow>
    e = ConnectDB ErrPingDB \<longrightarrow> pr_ping s \<Longrightarrow>
    main_step H s (s\<lparr>pr_pc := Returning (Some (StartError e))\<rparr>)"
| pool_cancelled: "pr_pc s = AtPool \<Longrightarrow> pings (run_wired (ho_getenv H) (ho_pgx H) (ho_platform H)) \<Longrightarrow> pr_signalled s \<Longrightarrow>
    main_step H s (s\<lparr>pr_pc := Returning (Some (StartError (ConnectDB ErrPingDB)))\<rparr>)"
| pool_ok: "pr_pc s = AtPool \<Longrightarrow> run_wired (ho_getenv H) (ho_pgx H) (ho_platform H) = Inr srv \<Longrightarrow> pr_ping s \<Longrightarrow>
    main_step H s (s\<lparr>pr_pc := AtListen, pr_pool := PoolOpen, pr_defers := ClosePool # pr_defers s, pr_server := Some srv\<rparr>)"
| listen_fails: "pr_pc s = AtListen \<Longrightarrow> Load (ho_getenv H) = Inr conf \<Longrightarrow> \<not> ho_listen H (GRPCAddr conf) \<Longrightarrow>
    main_step H s (s\<lparr>pr_pc := Returning (Some ListenGRPC)\<rparr>)"
| listen_ok: "pr_pc s = AtListen \<Longrightarrow> Load (ho_getenv H) = Inr conf \<Longrightarrow> ho_listen H (GRPCAddr conf) \<Longrightarrow>
    main_step H s (s\<lparr>pr_pc := AtSelect, pr_reaper := (\<lambda>_. Starting), pr_defers := StopReaper # pr_defers s,
      pr_http := Serving, pr_grpc := Serving\<rparr>)"
| select_done: "pr_pc s = AtSelect \<Longrightarrow> pr_signalled s \<Longrightarrow> main_step H s (begin_shutdown s)"
| select_error: "pr_pc s = AtSelect \<Longrightarrow> pr_errCh s = Some e # q \<Longrightarrow>
    main_step H s (s\<lparr>pr_pc := Returning (Some e), pr_errCh := q\<rparr>)"
| select_nil: "pr_pc s = AtSelect \<Longrightarrow> pr_errCh s = None # q \<Longrightarrow> main_step H s (begin_shutdown (s\<lparr>pr_errCh := q\<rparr>))"
| http_drained: "pr_pc s = AtShutdown \<Longrightarrow> pr_requests s = 0 \<Longrightarrow>
    main_step H s (s\<lparr>pr_pc := AtGracefulStop, pr_grpc_stopping := True\<rparr>)"
| http_deadline: "pr_pc s = AtShutdown \<Longrightarrow> pr_deadline s \<le> pr_now s \<Longrightarrow>
    main_step H s (s\<lparr>pr_pc := AtGracefulStop, pr_grpc_stopping := True\<rparr>)"
| graceful_stopped: "pr_pc s = AtGracefulStop \<Longrightarrow> gs_GracefulStop_returns (ho_grpc H) (pr_calls s) \<Longrightarrow>
    main_step H s (s\<lparr>pr_pc := Returning None\<rparr>)"
| deferred_call: "pr_pc s = Returning r \<Longrightarrow> pr_defers s = d # ds \<Longrightarrow> d \<noteq> ClosePool \<Longrightarrow>
    main_step H s (run_deferred d (s\<lparr>pr_defers := ds\<rparr>))"
| close_begins: "pr_pc s = Returning r \<Longrightarrow> pr_defers s = ClosePool # ds \<Longrightarrow> pr_pool s = PoolOpen \<Longrightarrow>
    main_step H s (s\<lparr>pr_pool := PoolClosing\<rparr>)"
| close_returns: "pr_pc s = Returning r \<Longrightarrow> pr_defers s = ClosePool # ds \<Longrightarrow> pr_pool s = PoolClosing \<Longrightarrow>
    px_Close_returns (ho_pgx H) (pr_conns s) \<Longrightarrow> main_step H s (run_deferred ClosePool (s\<lparr>pr_defers := ds\<rparr>))"
| return_run: "pr_pc s = Returning r \<Longrightarrow> pr_defers s = [] \<Longrightarrow> main_step H s (s\<lparr>pr_pc := Exited r\<rparr>)"

subsection \<open>Beside the main goroutine\<close>

fun alive :: "'p process \<Rightarrow> bool" where
  "alive s = (case pr_pc s of Exited _ \<Rightarrow> False | Died _ \<Rightarrow> False | _ \<Rightarrow> True)"

text \<open>
  What an open request, an open call or a reaper does to the world, over a connection of the
  pool: with none in use no statement reaches the database. A call that stays open (a stream)
  may work many times before it ends. That a handler gets no further connection, since \<open>Close\<close>
  was called or its context is done, is a fault of its next statement.
\<close>

definition perform :: "nat \<Rightarrow> 'p server \<Rightarrow> activity \<Rightarrow> 'p process \<Rightarrow> 'p process" where
  "perform fuel srv a s =
     (if 0 < pr_conns s then s\<lparr>pr_world := snd (run_state (act_once fuel srv a) (pr_world s))\<rparr> else s)"

text \<open>
  The interval a reaper's ticker is made with: nanoseconds that may have wrapped around, and a
  constant.
\<close>

fun ticker_interval :: "Service \<Rightarrow> reaper \<Rightarrow> int" where
  "ticker_interval svc RunnerReaper = wrap64 (HeartbeatIntervalSeconds (cfg svc) * Second)"
| "ticker_interval svc LeaseReaper = jobReaperInterval"

fun tick_of :: "reaper \<Rightarrow> rpc" where
  "tick_of RunnerReaper = TickRunners 1"
| "tick_of LeaseReaper = TickLeases 1"

text \<open>Who may ask the pool for a connection: a handler, and a reaper whose context is not done.\<close>

definition wants_conn :: "'p process \<Rightarrow> bool" where
  "wants_conn s \<longleftrightarrow> 0 < pr_requests s \<or> 0 < pr_calls s \<or> (\<exists>k. pr_reaper s k = Ticking) \<and> \<not> pr_reaperCtx_done s"

inductive side_step :: "('c, 'q, 'p) host \<Rightarrow> 'p process \<Rightarrow> 'p process \<Rightarrow> bool" for H where
  time_passes: "alive s \<Longrightarrow> side_step H s (s\<lparr>pr_now := pr_now s + d\<rparr>)"
| signal_caught: "alive s \<Longrightarrow> StopSignals \<in> set (pr_defers s) \<Longrightarrow> side_step H s (s\<lparr>pr_signalled := True\<rparr>)"
| signal_kills: "alive s \<Longrightarrow> StopSignals \<notin> set (pr_defers s) \<Longrightarrow> side_step H s (s\<lparr>pr_pc := Died BySignal\<rparr>)"
| ping_answered: "alive s \<Longrightarrow> pr_pc s = AtPool \<Longrightarrow> side_step H s (s\<lparr>pr_ping := True\<rparr>)"
| conn_taken: "alive s \<Longrightarrow> pr_pool s = PoolOpen \<Longrightarrow> wants_conn s \<Longrightarrow> side_step H s (s\<lparr>pr_conns := Suc (pr_conns s)\<rparr>)"
| conn_returned: "alive s \<Longrightarrow> pr_conns s = Suc n \<Longrightarrow> side_step H s (s\<lparr>pr_conns := n\<rparr>)"
| decode_fatal: "alive s \<Longrightarrow> 0 < pr_requests s \<Longrightarrow> OnDecodeNodeError (pr_globals s) = LogFatalf \<Longrightarrow>
    side_step H s (s\<lparr>pr_pc := Died ByFatalf\<rparr>)"
| http_fails: "alive s \<Longrightarrow> pr_http s = Serving \<Longrightarrow> \<not> pr_http_closed s \<Longrightarrow>
    side_step H s (s\<lparr>pr_http := Sending (Some (HTTPServer msg))\<rparr>)"
| http_closes: "alive s \<Longrightarrow> pr_http s = Serving \<Longrightarrow> pr_http_closed s \<Longrightarrow> side_step H s (s\<lparr>pr_http := Sending None\<rparr>)"
| grpc_returns: "alive s \<Longrightarrow> pr_grpc s = Serving \<Longrightarrow> gs_Serve_returns (ho_grpc H) (pr_grpc_stopping s) r \<Longrightarrow>
    side_step H s (s\<lparr>pr_grpc := Sending (map_option GRPCServer r)\<rparr>)"
| http_sends: "alive s \<Longrightarrow> pr_http s = Sending m \<Longrightarrow> length (pr_errCh s) < errCh_cap \<Longrightarrow>
    side_step H s (s\<lparr>pr_http := Finished, pr_errCh := pr_errCh s @ [m]\<rparr>)"
| grpc_sends: "alive s \<Longrightarrow> pr_grpc s = Sending m \<Longrightarrow> length (pr_errCh s) < errCh_cap \<Longrightarrow>
    side_step H s (s\<lparr>pr_grpc := Finished, pr_errCh := pr_errCh s @ [m]\<rparr>)"
| request_begins: "alive s \<Longrightarrow> pr_http s = Serving \<Longrightarrow> \<not> pr_http_closed s \<Longrightarrow>
    side_step H s (s\<lparr>pr_requests := Suc (pr_requests s)\<rparr>)"
| request_works: "alive s \<Longrightarrow> 0 < pr_requests s \<Longrightarrow> pr_server s = Some srv \<Longrightarrow>
    side_step H s (perform fuel srv (HttpCall e c) s)"
| request_ends: "alive s \<Longrightarrow> pr_requests s = Suc n \<Longrightarrow> side_step H s (s\<lparr>pr_requests := n\<rparr>)"
| call_begins: "alive s \<Longrightarrow> pr_grpc s = Serving \<Longrightarrow> \<not> pr_grpc_stopping s \<Longrightarrow>
    side_step H s (s\<lparr>pr_calls := Suc (pr_calls s)\<rparr>)"
| call_works: "alive s \<Longrightarrow> 0 < pr_calls s \<Longrightarrow> pr_server s = Some srv \<Longrightarrow> \<not> is_tick r \<Longrightarrow>
    side_step H s (perform fuel srv (Rpc r) s)"
| call_ends: "alive s \<Longrightarrow> pr_calls s = Suc n \<Longrightarrow> side_step H s (s\<lparr>pr_calls := n\<rparr>)"
| ticker_made: "alive s \<Longrightarrow> pr_reaper s k = Starting \<Longrightarrow> pr_server s = Some srv \<Longrightarrow> 0 < ticker_interval (sv_service srv) k \<Longrightarrow>
    side_step H s (s\<lparr>pr_reaper := (pr_reaper s)(k := Waiting)\<rparr>)"
| ticker_panics: "alive s \<Longrightarrow> pr_reaper s k = Starting \<Longrightarrow> pr_server s = Some srv \<Longrightarrow> ticker_interval (sv_service srv) k \<le> 0 \<Longrightarrow>
    side_step H s (s\<lparr>pr_pc := Died ByPanic\<rparr>)"
| tick_begins: "alive s \<Longrightarrow> pr_reaper s k = Waiting \<Longrightarrow> side_step H s (s\<lparr>pr_reaper := (pr_reaper s)(k := Ticking)\<rparr>)"
| reaper_works: "alive s \<Longrightarrow> pr_reaper s k = Ticking \<Longrightarrow> pr_server s = Some srv \<Longrightarrow>
    side_step H s (perform fuel srv (Rpc (tick_of k)) s)"
| tick_ends: "alive s \<Longrightarrow> pr_reaper s k = Ticking \<Longrightarrow> side_step H s (s\<lparr>pr_reaper := (pr_reaper s)(k := Waiting)\<rparr>)"
| reaper_returns: "alive s \<Longrightarrow> pr_reaper s k = Waiting \<Longrightarrow> pr_reaperCtx_done s \<Longrightarrow>
    side_step H s (s\<lparr>pr_reaper := (pr_reaper s)(k := Returned)\<rparr>)"

inductive process_step :: "('c, 'q, 'p) host \<Rightarrow> 'p process \<Rightarrow> 'p process \<Rightarrow> bool" for H where
  main: "main_step H s s' \<Longrightarrow> process_step H s s'"
| side: "side_step H s s' \<Longrightarrow> process_step H s s'"

text \<open>The states the process goes through, started on a database.\<close>

inductive reaches :: "('c, 'q, 'p) host \<Rightarrow> database \<Rightarrow> 'p process \<Rightarrow> bool" for H d where
  boots: "reaches H d (boot d)"
| steps: "reaches H d s \<Longrightarrow> process_step H s s' \<Longrightarrow> reaches H d s'"

lemma reaches_invariant [consumes 1, case_names boots steps]:
  assumes "reaches H d s" and "P (boot d)"
    and "\<And>s s'. reaches H d s \<Longrightarrow> P s \<Longrightarrow> process_step H s s' \<Longrightarrow> P s'"
  shows "P s"
  using assms(1) by (induction rule: reaches.induct) (auto intro: assms(2,3))

subsection \<open>What is held, and who gives it back\<close>

abbreviation all_defers :: "deferred list" where
  "all_defers \<equiv> [CancelShutdown, StopReaper, ClosePool, StopSignals]"

text \<open>The deferred calls pending at each point of \<open>run\<close>; while it returns and after it died, a rest of them.\<close>

fun defers_at :: "main_pc \<Rightarrow> deferred list \<Rightarrow> bool" where
  "defers_at AtLoad ds = (ds = [])"
| "defers_at AtPool ds = (ds = [StopSignals])"
| "defers_at AtListen ds = (ds = [ClosePool, StopSignals])"
| "defers_at AtSelect ds = (ds = [StopReaper, ClosePool, StopSignals])"
| "defers_at AtShutdown ds = (ds = all_defers)"
| "defers_at AtGracefulStop ds = (ds = all_defers)"
| "defers_at (Exited r) ds = (ds = [])"
| "defers_at pc ds = suffix ds all_defers"

text \<open>
  The pool is not closed yet exactly while the call that closes it is pending, and it closes only
  when that call is the next one. The reapers run under a context that is done exactly when the
  call that cancels it is no longer pending.
\<close>

definition resources_ok :: "'p process \<Rightarrow> bool" where
  "resources_ok s \<longleftrightarrow> defers_at (pr_pc s) (pr_defers s) \<and>
     (pr_pool s \<in> {PoolOpen, PoolClosing} \<longleftrightarrow> ClosePool \<in> set (pr_defers s)) \<and>
     (pr_pool s = PoolClosing \<longrightarrow> pr_defers s = [ClosePool, StopSignals] \<and> pr_pc s \<notin> {AtPool, AtListen, AtSelect}) \<and>
     (pr_pc s \<in> {AtLoad, AtPool} \<longrightarrow> pr_pool s = NoPool) \<and>
     (pr_pc s \<in> {AtLoad, AtPool, AtListen} \<longrightarrow> \<not> pr_reaperCtx_done s \<and> (\<forall>k. pr_reaper s k = NotRunning)) \<and>
     ((\<forall>k. pr_reaper s k = NotRunning) \<and> StopReaper \<notin> set (pr_defers s) \<or>
      (pr_reaperCtx_done s \<longleftrightarrow> StopReaper \<notin> set (pr_defers s)))"

text \<open>A connection is in use only of a pool that is not closed.\<close>

definition conns_ok :: "'p process \<Rightarrow> bool" where
  "conns_ok s \<longleftrightarrow> (0 < pr_conns s \<longrightarrow> pr_pool s \<in> {PoolOpen, PoolClosing})"

lemma suffix_all_defers: "suffix ds all_defers \<longleftrightarrow>
    ds \<in> {[], [StopSignals], [ClosePool, StopSignals], [StopReaper, ClosePool, StopSignals], all_defers}"
  by (auto simp: suffix_Cons)

lemma perform_keeps [simp]:
  "pr_pc (perform fuel srv a s) = pr_pc s" "pr_defers (perform fuel srv a s) = pr_defers s"
  "pr_globals (perform fuel srv a s) = pr_globals s" "pr_signalled (perform fuel srv a s) = pr_signalled s"
  "pr_ping (perform fuel srv a s) = pr_ping s" "pr_pool (perform fuel srv a s) = pr_pool s"
  "pr_conns (perform fuel srv a s) = pr_conns s" "pr_reaper (perform fuel srv a s) = pr_reaper s"
  "pr_reaperCtx_done (perform fuel srv a s) = pr_reaperCtx_done s"
  "pr_server (perform fuel srv a s) = pr_server s" "pr_http (perform fuel srv a s) = pr_http s"
  "pr_grpc (perform fuel srv a s) = pr_grpc s" "pr_http_closed (perform fuel srv a s) = pr_http_closed s"
  "pr_grpc_stopping (perform fuel srv a s) = pr_grpc_stopping s" "pr_errCh (perform fuel srv a s) = pr_errCh s"
  "pr_requests (perform fuel srv a s) = pr_requests s" "pr_calls (perform fuel srv a s) = pr_calls s"
  by (simp_all add: perform_def)

lemma run_deferred_keeps [simp]:
  "pr_pc (run_deferred c s) = pr_pc s" "pr_defers (run_deferred c s) = pr_defers s"
  "pr_globals (run_deferred c s) = pr_globals s" "pr_signalled (run_deferred c s) = pr_signalled s"
  "pr_server (run_deferred c s) = pr_server s" "pr_http (run_deferred c s) = pr_http s"
  "pr_grpc (run_deferred c s) = pr_grpc s" "pr_http_closed (run_deferred c s) = pr_http_closed s"
  "pr_grpc_stopping (run_deferred c s) = pr_grpc_stopping s" "pr_errCh (run_deferred c s) = pr_errCh s"
  "pr_requests (run_deferred c s) = pr_requests s" "pr_calls (run_deferred c s) = pr_calls s"
  "pr_world (run_deferred c s) = pr_world s" "pr_ping (run_deferred c s) = pr_ping s"
  "pr_conns (run_deferred c s) = pr_conns s" "pr_reaper (run_deferred c s) = pr_reaper s"
  by (cases c; simp)+

lemma run_deferred_pool:
  "pr_pool (run_deferred c s) = (if c = ClosePool then PoolClosed else pr_pool s)"
  "pr_reaperCtx_done (run_deferred c s) = (c = StopReaper \<or> pr_reaperCtx_done s)"
  by (cases c; simp)+

lemma resources_main: "main_step H s s' \<Longrightarrow> resources_ok s \<Longrightarrow> resources_ok s'"
  unfolding resources_ok_def
  by (erule main_step.cases) (auto simp: begin_shutdown_def suffix_all_defers run_deferred_pool)

lemma resources_side: "side_step H s s' \<Longrightarrow> resources_ok s \<Longrightarrow> resources_ok s'"
  unfolding resources_ok_def
  by (erule side_step.cases) (auto simp: suffix_all_defers split: main_pc.splits)

lemma reaches_resources: "reaches H d s \<Longrightarrow> resources_ok s"
proof (induction rule: reaches_invariant)
  case (steps s s')
  from steps(2) show ?case by cases (use steps(3) resources_main resources_side in blast)+
qed (simp add: resources_ok_def boot_def)

lemma conns_step: "pgx_documented (ho_pgx H) \<Longrightarrow> process_step H s s' \<Longrightarrow> conns_ok s \<Longrightarrow> resources_ok s \<Longrightarrow> conns_ok s'"
  unfolding conns_ok_def
  by (erule process_step.cases; erule main_step.cases side_step.cases)
    (auto simp: begin_shutdown_def run_deferred_pool pgx_documented_def resources_ok_def)

lemma reaches_conns: "pgx_documented (ho_pgx H) \<Longrightarrow> reaches H d s \<Longrightarrow> conns_ok s"
proof (rotate_tac 1, induction rule: reaches_invariant)
  case boots
  show ?case by (simp add: conns_ok_def boot_def)
next
  case (steps s s')
  then show ?case using conns_step reaches_resources by blast
qed

subsection \<open>The error channel\<close>

text \<open>A goroutine sends once; what it still may send counts against the capacity of \<open>errCh\<close>.\<close>

fun to_send :: "goroutine \<Rightarrow> nat" where
  "to_send Finished = 0"
| "to_send g = 1"

definition errCh_ok :: "'p process \<Rightarrow> bool" where
  "errCh_ok s \<longleftrightarrow> length (pr_errCh s) + to_send (pr_http s) + to_send (pr_grpc s) \<le> errCh_cap \<and>
     (pr_pc s \<in> {AtLoad, AtPool, AtListen} \<longrightarrow> pr_http s = NotStarted \<and> pr_grpc s = NotStarted)"

lemma errCh_step: "process_step H s s' \<Longrightarrow> errCh_ok s \<Longrightarrow> errCh_ok s'"
  unfolding errCh_ok_def
  by (erule process_step.cases; erule main_step.cases side_step.cases) (auto simp: begin_shutdown_def errCh_cap_def)

lemma reaches_errCh: "reaches H d s \<Longrightarrow> errCh_ok s"
  by (induction rule: reaches_invariant) (auto simp: errCh_ok_def boot_def errCh_cap_def dest: errCh_step)

subsection \<open>How it ends\<close>

text \<open>
  Up to the \<open>select\<close> neither server was told to stop, so neither ended with nil; past it,
  unless an error is being returned, a signal came, and \<open>run\<close> returns nil only once the
  HTTP server is closed, the gRPC server stops and no call is open.
\<close>

definition not_stopped :: "'p process \<Rightarrow> bool" where
  "not_stopped s \<longleftrightarrow> \<not> pr_http_closed s \<and> \<not> pr_grpc_stopping s \<and> None \<notin> set (pr_errCh s) \<and>
     pr_http s \<noteq> Sending None \<and> pr_grpc s \<noteq> Sending None"

definition stopping :: "'p process \<Rightarrow> bool" where
  "stopping s \<longleftrightarrow> pr_signalled s \<and> pr_http_closed s"

fun ending_at :: "main_pc \<Rightarrow> 'p process \<Rightarrow> bool" where
  "ending_at AtShutdown s = stopping s"
| "ending_at AtGracefulStop s = (stopping s \<and> pr_grpc_stopping s)"
| "ending_at (Returning r) s = (r = None \<longrightarrow> stopping s \<and> pr_grpc_stopping s \<and> pr_calls s = 0)"
| "ending_at (Exited r) s = (r = None \<longrightarrow> stopping s \<and> pr_grpc_stopping s \<and> pr_calls s = 0)"
| "ending_at (Died c) s = True"
| "ending_at pc s = not_stopped s"

lemma ending_main:
  assumes "grpc_documented (ho_grpc H)" and "main_step H s s'" and "ending_at (pr_pc s) s"
  shows "ending_at (pr_pc s') s'"
  using assms(2,1,3) by (cases rule: main_step.cases)
    (auto simp: begin_shutdown_def stopping_def not_stopped_def grpc_documented_def)

lemma Serve_error: "grpc_documented G \<Longrightarrow> gs_Serve_returns G False r \<Longrightarrow> \<exists>y. r = Some y"
  by (cases r) (auto simp: grpc_documented_def)

lemma not_stopped_side:
  "grpc_documented (ho_grpc H) \<Longrightarrow> side_step H s s' \<Longrightarrow> not_stopped s \<Longrightarrow> not_stopped s'"
  by (erule side_step.cases) (auto simp: not_stopped_def dest: Serve_error)

lemma stopping_side:
  "side_step H s s' \<Longrightarrow> stopping s \<Longrightarrow> stopping s'"
  "side_step H s s' \<Longrightarrow> pr_grpc_stopping s \<Longrightarrow> pr_grpc_stopping s'"
  "side_step H s s' \<Longrightarrow> pr_grpc_stopping s \<Longrightarrow> pr_calls s = 0 \<Longrightarrow> pr_calls s' = 0"
  by (erule side_step.cases; simp add: stopping_def)+

lemma side_keeps_pc: "side_step H s s' \<Longrightarrow> pr_pc s' = pr_pc s \<or> (\<exists>c. pr_pc s' = Died c)"
  by (erule side_step.cases) simp_all

lemma ending_side:
  assumes "grpc_documented (ho_grpc H)" and "side_step H s s'" and "ending_at (pr_pc s) s"
  shows "ending_at (pr_pc s') s'"
  using side_keeps_pc [OF assms(2)] assms(3) not_stopped_side [OF assms(1,2)] stopping_side [OF assms(2)]
  by (cases "pr_pc s") auto

lemma reaches_ending:
  assumes "grpc_documented (ho_grpc H)" and "reaches H d s"
  shows "ending_at (pr_pc s) s"
  using assms(2)
proof (induction rule: reaches_invariant)
  case (steps s s')
  then show ?case using ending_main [OF assms(1)] ending_side [OF assms(1)] by (auto elim: process_step.cases)
qed (simp add: boot_def not_stopped_def)

lemma hook_step: "process_step H s s' \<Longrightarrow> OnDecodeNodeError (pr_globals s) = DoNothing \<and> pr_pc s \<noteq> Died ByFatalf \<Longrightarrow>
    OnDecodeNodeError (pr_globals s') = DoNothing \<and> pr_pc s' \<noteq> Died ByFatalf"
  by (erule process_step.cases; erule main_step.cases side_step.cases) (auto simp: begin_shutdown_def)

lemma reaches_hook: "reaches H d s \<Longrightarrow> OnDecodeNodeError (pr_globals s) = DoNothing \<and> pr_pc s \<noteq> Died ByFatalf"
  by (induction rule: reaches_invariant)
    (simp add: boot_def planner_init_def installDecodeErrorHook_def unset_globals_def, rule hook_step)

subsection \<open>The services at work\<close>

lemma server_step: "process_step H s s' \<Longrightarrow>
    \<forall>srv. pr_server s = Some srv \<longrightarrow> run_wired (ho_getenv H) (ho_pgx H) (ho_platform H) = Inr srv \<Longrightarrow>
    \<forall>srv. pr_server s' = Some srv \<longrightarrow> run_wired (ho_getenv H) (ho_pgx H) (ho_platform H) = Inr srv"
  by (erule process_step.cases; erule main_step.cases side_step.cases) (simp_all add: begin_shutdown_def)

lemma reaches_server: "reaches H d s \<Longrightarrow> pr_server s = Some srv \<Longrightarrow>
    run_wired (ho_getenv H) (ho_pgx H) (ho_platform H) = Inr srv"
proof -
  assume "reaches H d s"
  then have "\<forall>srv. pr_server s = Some srv \<longrightarrow> run_wired (ho_getenv H) (ho_pgx H) (ho_platform H) = Inr srv"
    by (induction rule: reaches_invariant) (simp add: boot_def, rule server_step)
  then show "pr_server s = Some srv \<Longrightarrow> run_wired (ho_getenv H) (ho_pgx H) (ho_platform H) = Inr srv" by blast
qed

text \<open>The world changes only by an activity of the wired server, over a connection that is in use.\<close>

lemma process_step_world:
  "process_step H s s' \<Longrightarrow> pr_world s' = pr_world s \<or>
    (\<exists>fuel srv a. 0 < pr_conns s \<and> pr_server s = Some srv \<and> pr_world s' = snd (run_state (act_once fuel srv a) (pr_world s)))"
  by (erule process_step.cases; erule main_step.cases side_step.cases) (auto simp: begin_shutdown_def perform_def simp del: act_once.simps)

context store_rel
begin

lemma reaches_related:
  assumes "rely (pf_env (ho_platform H))" and "reaches H d s"
  shows "R d (db (pr_world s))"
  using assms(2)
proof (induction rule: reaches_invariant)
  case boots
  show ?case by (simp add: boot_def fresh_world_def R_refl)
next
  case (steps s s')
  from process_step_world [OF steps(2)] show ?case
  proof
    assume "pr_world s' = pr_world s"
    then show ?case using steps(3) by simp
  next
    assume "\<exists>fuel srv a. 0 < pr_conns s \<and> pr_server s = Some srv \<and> pr_world s' = snd (run_state (act_once fuel srv a) (pr_world s))"
    then obtain fuel srv a where srv: "pr_server s = Some srv"
      and w: "pr_world s' = snd (run_state (act_once fuel srv a) (pr_world s))" by blast
    have "R (db (pr_world s)) (db (pr_world s'))"
      unfolding w using guarD [OF guar_act_once [OF assms(1) reaches_server [OF steps(1) srv]]] by (metis prod.collapse)
    with steps(3) show ?case by (rule R_trans)
  qed
qed

end

subsection \<open>When the main goroutine waits\<close>

text \<open>
  The steps the main goroutine still has before it, at most: the deferred calls, of which the
  closing of the pool takes two, and the way to the return.
\<close>

fun main_rank :: "main_pc \<Rightarrow> nat" where
  "main_rank AtLoad = 12"
| "main_rank AtPool = 10"
| "main_rank AtListen = 7"
| "main_rank AtSelect = 5"
| "main_rank AtShutdown = 3"
| "main_rank AtGracefulStop = 2"
| "main_rank (Returning r) = 1"
| "main_rank pc = 0"

definition main_left :: "'p process \<Rightarrow> nat" where
  "main_left s = main_rank (pr_pc s) + length (pr_defers s) + (if pr_pool s = PoolOpen then 1 else 0)"

lemma main_step_left: "main_step H s s' \<Longrightarrow> main_left s' < main_left s"
  by (erule main_step.cases) (auto simp: main_left_def begin_shutdown_def run_deferred_pool)

lemma main_waits_iff:
  assumes "grpc_documented (ho_grpc H)" and "pgx_documented (ho_pgx H)"
  shows "(\<exists>s'. main_step H s s') \<longleftrightarrow>
    (case pr_pc s of
       AtPool \<Rightarrow> pings (run_wired (ho_getenv H) (ho_pgx H) (ho_platform H)) \<longrightarrow> pr_ping s \<or> pr_signalled s
     | AtListen \<Rightarrow> (\<exists>conf. Load (ho_getenv H) = Inr conf)
     | AtSelect \<Rightarrow> pr_signalled s \<or> pr_errCh s \<noteq> []
     | AtShutdown \<Rightarrow> pr_requests s = 0 \<or> pr_deadline s \<le> pr_now s
     | AtGracefulStop \<Rightarrow> pr_calls s = 0
     | Returning r \<Rightarrow> (case pr_defers s of ClosePool # ds \<Rightarrow> pr_pool s = PoolOpen \<or> pr_pool s = PoolClosing \<and> pr_conns s = 0 | _ \<Rightarrow> True)
     | Exited r \<Rightarrow> False
     | Died c \<Rightarrow> False
     | _ \<Rightarrow> True)"
proof (cases "pr_pc s")
  case AtLoad
  then show ?thesis by (cases "Load (ho_getenv H)") (auto simp: main_step.simps)
next
  case AtPool
  then show ?thesis
    by (cases "run_wired (ho_getenv H) (ho_pgx H) (ho_platform H)") (auto simp: main_step.simps pings_def)
next
  case AtListen
  then show ?thesis by (auto simp: main_step.simps)
next
  case AtSelect
  then show ?thesis
    by (cases "pr_errCh s"; cases "hd (pr_errCh s)") (auto simp: main_step.simps)
next
  case AtShutdown
  then show ?thesis by (auto simp: main_step.simps)
next
  case AtGracefulStop
  then show ?thesis using assms(1) by (auto simp: main_step.simps grpc_documented_def)
next
  case (Returning r)
  show ?thesis
  proof (cases "pr_defers s")
    case Nil
    with Returning show ?thesis by (auto simp: main_step.simps)
  next
    case (Cons d ds)
    with Returning assms(2) show ?thesis by (cases d) (auto simp: main_step.simps pgx_documented_def)
  qed
qed (simp_all add: main_step.simps)

lemma listen_step: "process_step H s s' \<Longrightarrow> (pr_pc s = AtListen \<longrightarrow> (\<exists>conf. Load (ho_getenv H) = Inr conf)) \<Longrightarrow>
    (pr_pc s' = AtListen \<longrightarrow> (\<exists>conf. Load (ho_getenv H) = Inr conf))"
  by (erule process_step.cases; erule main_step.cases side_step.cases)
    (auto simp: begin_shutdown_def run_wired_def split: sum.splits)

lemma reaches_loaded: "reaches H d s \<Longrightarrow> pr_pc s = AtListen \<longrightarrow> (\<exists>conf. Load (ho_getenv H) = Inr conf)"
  by (induction rule: reaches_invariant) (simp add: boot_def, rule listen_step)

lemma reaches_main_left: "reaches H d s \<Longrightarrow> main_left s \<le> 12"
  using reaches_resources [of H d s]
  by (cases "pr_pc s") (auto simp: resources_ok_def main_left_def suffix_all_defers)

subsection \<open>Ways through\<close>

lemma reaches_main: "reaches H d s \<Longrightarrow> main_step H s s' \<Longrightarrow> reaches H d s'"
  and reaches_side: "reaches H d s \<Longrightarrow> side_step H s s' \<Longrightarrow> reaches H d s'"
  by (auto intro: reaches.steps process_step.intros)

text \<open>The process at its \<open>select\<close> for the first time.\<close>

definition up :: "database \<Rightarrow> 'p server \<Rightarrow> 'p process" where
  "up d srv = (boot d)\<lparr>pr_pc := AtSelect, pr_defers := [StopReaper, ClosePool, StopSignals], pr_ping := True,
     pr_pool := PoolOpen, pr_reaper := (\<lambda>_. Starting), pr_server := Some srv, pr_http := Serving, pr_grpc := Serving\<rparr>"

lemma reaches_up:
  assumes "run_wired (ho_getenv H) (ho_pgx H) (ho_platform H) = Inr srv" and "\<forall>a. ho_listen H a"
  shows "reaches H d (up d srv)"
proof -
  obtain conf where conf: "Load (ho_getenv H) = Inr conf"
    using assms(1) by (auto simp: run_wired_def split: sum.splits)
  let ?s1 = "(boot d)\<lparr>pr_pc := AtPool, pr_defers := [StopSignals]\<rparr>"
  let ?s1' = "?s1\<lparr>pr_ping := True\<rparr>"
  let ?s2 = "?s1'\<lparr>pr_pc := AtListen, pr_pool := PoolOpen, pr_defers := [ClosePool, StopSignals], pr_server := Some srv\<rparr>"
  have "reaches H d ?s1"
    using reaches_main [OF reaches.boots main_step.load_ok [OF _ conf]] by (simp add: boot_def)
  from reaches_side [OF this side_step.ping_answered] have "reaches H d ?s1'" by (simp add: boot_def)
  from reaches_main [OF this main_step.pool_ok [OF _ assms(1)]] have "reaches H d ?s2" by (simp add: boot_def)
  from reaches_main [OF this main_step.listen_ok [OF _ conf]] assms(2) show ?thesis by (simp add: boot_def up_def)
qed

lemma reaches_exit:
  assumes "grpc_documented (ho_grpc H)" and "pgx_documented (ho_pgx H)"
    and "run_wired (ho_getenv H) (ho_pgx H) (ho_platform H) = Inr srv" and "\<forall>a. ho_listen H a"
  shows "\<exists>s. reaches H d s \<and> pr_pc s = Exited None \<and> pr_pool s = PoolClosed"
proof -
  let ?s1 = "(up d srv)\<lparr>pr_signalled := True\<rparr>"
  let ?s2 = "(begin_shutdown ?s1)\<lparr>pr_pc := AtGracefulStop, pr_grpc_stopping := True\<rparr>"
  let ?s3 = "?s2\<lparr>pr_pc := Returning None\<rparr>"
  let ?s4 = "?s3\<lparr>pr_defers := [StopReaper, ClosePool, StopSignals]\<rparr>"
  let ?s5 = "?s4\<lparr>pr_defers := [ClosePool, StopSignals], pr_reaperCtx_done := True\<rparr>"
  let ?s6 = "?s5\<lparr>pr_pool := PoolClosing\<rparr>"
  let ?s7 = "?s6\<lparr>pr_defers := [StopSignals], pr_pool := PoolClosed\<rparr>"
  let ?s8 = "?s7\<lparr>pr_defers := []\<rparr>"
  note defs = up_def boot_def begin_shutdown_def
  from reaches_side [OF reaches_up [OF assms(3,4)] side_step.signal_caught] have "reaches H d ?s1" by (simp add: defs)
  from reaches_main [OF this main_step.select_done] have "reaches H d (begin_shutdown ?s1)" by (simp add: defs)
  from reaches_main [OF this main_step.http_drained] have "reaches H d ?s2" by (simp add: defs)
  from reaches_main [OF this main_step.graceful_stopped] assms(1) have "reaches H d ?s3" by (simp add: defs grpc_documented_def)
  from reaches_main [OF this main_step.deferred_call [where d = CancelShutdown]] have "reaches H d ?s4" by (simp add: defs)
  from reaches_main [OF this main_step.deferred_call [where d = StopReaper]] have "reaches H d ?s5" by (simp add: defs)
  from reaches_main [OF this main_step.close_begins] have "reaches H d ?s6" by (simp add: defs)
  from reaches_main [OF this main_step.close_returns] assms(2) have "reaches H d ?s7" by (simp add: defs pgx_documented_def)
  from reaches_main [OF this main_step.deferred_call [where d = StopSignals]] have "reaches H d ?s8" by (simp add: defs)
  from reaches_main [OF this main_step.return_run] have "reaches H d (?s8\<lparr>pr_pc := Exited None\<rparr>)" by (simp add: defs)
  then show ?thesis by (intro exI conjI) (assumption, simp_all)
qed

subsection \<open>Panics\<close>

definition panic_ok :: "('c, 'q, 'p) host \<Rightarrow> 'p process \<Rightarrow> bool" where
  "panic_ok H s \<longleftrightarrow> pr_pc s = Died ByPanic \<longrightarrow>
     (\<exists>srv k. run_wired (ho_getenv H) (ho_pgx H) (ho_platform H) = Inr srv \<and> ticker_interval (sv_service srv) k \<le> 0)"

lemma reaches_panic: "reaches H d s \<Longrightarrow> panic_ok H s"
proof (induction rule: reaches_invariant)
  case (steps s s')
  show ?case
  proof (cases "pr_pc s' = Died ByPanic \<and> pr_pc s \<noteq> Died ByPanic")
    case True
    then obtain srv k where "pr_server s = Some srv" "ticker_interval (sv_service srv) k \<le> 0"
      using steps(2) by (auto elim!: process_step.cases main_step.cases side_step.cases simp: begin_shutdown_def)
    with reaches_server [OF steps(1)] show ?thesis by (auto simp: panic_ok_def)
  qed (use steps(3) in \<open>auto simp: panic_ok_def\<close>)
qed (simp add: panic_ok_def boot_def)

lemma wired_service:
  assumes "run_wired env_var X P = Inr srv" and "Load env_var = Inr conf"
  shows "cfg (sv_service srv) = conf"
  using assms by (auto simp: run_wired_def newHTTPServer_def Let_def SetCommitStatusReporter_def NewService_def split: sum.splits)

subsection \<open>Properties\<close>

text \<open>
  The server goroutines never block on \<open>errCh\<close>, whoever reads it: the one that is about
  to send finds room, because each sends once and the channel holds two.
\<close>

theorem errCh_never_full:
  assumes "reaches H d s" and "pr_http s = Sending m \<or> pr_grpc s = Sending m"
  shows "length (pr_errCh s) < errCh_cap"
  using reaches_errCh [OF assms(1)] assms(2) by (cases "pr_http s"; cases "pr_grpc s") (auto simp: errCh_ok_def)

text \<open>
  C9: \<open>run\<close> ends cleanly. Statements run over connections of a pool that is not closed, and once
  it is closed no step of the process, of whatever handler or reaper, changes the database. The
  pool is closed only after the reapers' context was cancelled (a reaper may be inside a tick
  then). However \<open>run\<close> returns (a bad configuration, an unreachable database, a taken port, a
  failed server, a signal), the pool, if there was one, is closed, no connection is in use, and
  the reapers, if they were started, were told to stop. It returns nil, so that the process ends
  with status 0, only after a signal, and then no call is open any more: every call a runner had
  made was answered. And a malformed job field never kills the process.
\<close>

theorem run_ends_cleanly:
  assumes "grpc_documented (ho_grpc H)" and "pgx_documented (ho_pgx H)" and "reaches H d s"
  shows "(0 < pr_conns s \<longrightarrow> pr_pool s \<in> {PoolOpen, PoolClosing}) \<and>
    (pr_pool s = PoolClosed \<longrightarrow> (\<forall>s'. process_step H s s' \<longrightarrow> pr_pool s' = PoolClosed \<and> db (pr_world s') = db (pr_world s))) \<and>
    (pr_pool s \<in> {PoolClosing, PoolClosed} \<longrightarrow> pr_reaperCtx_done s \<or> (\<forall>k. pr_reaper s k = NotRunning)) \<and>
    (\<forall>r. pr_pc s = Exited r \<longrightarrow> pr_pool s \<in> {NoPool, PoolClosed} \<and> pr_conns s = 0 \<and>
       (pr_reaperCtx_done s \<or> (\<forall>k. pr_reaper s k = NotRunning))) \<and>
    (pr_pc s = Exited None \<longrightarrow> pr_signalled s \<and> pr_http_closed s \<and> pr_grpc_stopping s \<and> pr_calls s = 0) \<and>
    pr_pc s \<noteq> Died ByFatalf"
proof (intro conjI)
  note ok = reaches_resources [OF assms(3)] and conns = reaches_conns [OF assms(2,3)]
  have closed: "pr_pool s = PoolClosed \<Longrightarrow> StopReaper \<notin> set (pr_defers s) \<and> ClosePool \<notin> set (pr_defers s)"
    using ok by (cases "pr_pc s") (auto simp: resources_ok_def suffix_all_defers)
  have told: "StopReaper \<notin> set (pr_defers s) \<Longrightarrow> pr_reaperCtx_done s \<or> (\<forall>k. pr_reaper s k = NotRunning)"
    using ok by (auto simp: resources_ok_def)
  show "0 < pr_conns s \<longrightarrow> pr_pool s \<in> {PoolOpen, PoolClosing}" using conns by (simp add: conns_ok_def)
  show "pr_pool s = PoolClosed \<longrightarrow> (\<forall>s'. process_step H s s' \<longrightarrow> pr_pool s' = PoolClosed \<and> db (pr_world s') = db (pr_world s))"
  proof (intro impI allI)
    fix s' assume p: "pr_pool s = PoolClosed" and st: "process_step H s s'"
    have "pr_pool s' = PoolClosed"
      using st p closed [OF p] ok
      by (auto elim!: process_step.cases main_step.cases side_step.cases simp: begin_shutdown_def run_deferred_pool resources_ok_def)
    moreover have "db (pr_world s') = db (pr_world s)" using process_step_world [OF st] conns p by (auto simp: conns_ok_def)
    ultimately show "pr_pool s' = PoolClosed \<and> db (pr_world s') = db (pr_world s)" ..
  qed
  show "pr_pool s \<in> {PoolClosing, PoolClosed} \<longrightarrow> pr_reaperCtx_done s \<or> (\<forall>k. pr_reaper s k = NotRunning)"
    using told closed ok by (auto simp: resources_ok_def)
  show "\<forall>r. pr_pc s = Exited r \<longrightarrow> pr_pool s \<in> {NoPool, PoolClosed} \<and> pr_conns s = 0 \<and> (pr_reaperCtx_done s \<or> (\<forall>k. pr_reaper s k = NotRunning))"
    using told conns ok by (cases "pr_pool s") (auto simp: resources_ok_def conns_ok_def)
qed (use reaches_ending [OF assms(1,3)] reaches_hook [OF assms(3)] in \<open>auto simp: stopping_def\<close>)

text \<open>
  C8: the main goroutine does at most twelve steps and waits at five places only: for the
  database to answer the ping, or a signal that ends it; for a signal or a failed server; for
  open requests, no longer than \<open>shutdownTimeout\<close>; for open calls; and, when the pool is closed,
  for connections in use, both without a bound. Anywhere else it goes on, so once these waits
  end \<open>run\<close> returns.
\<close>

theorem main_waits_only_for:
  assumes "grpc_documented (ho_grpc H)" and "pgx_documented (ho_pgx H)" and "reaches H d s" and "alive s"
  shows "((\<nexists>s'. main_step H s s') \<longleftrightarrow>
      pr_pc s = AtPool \<and> pings (run_wired (ho_getenv H) (ho_pgx H) (ho_platform H)) \<and> \<not> pr_ping s \<and> \<not> pr_signalled s \<or>
      pr_pc s = AtSelect \<and> \<not> pr_signalled s \<and> pr_errCh s = [] \<or>
      pr_pc s = AtShutdown \<and> 0 < pr_requests s \<and> pr_now s < pr_deadline s \<or>
      pr_pc s = AtGracefulStop \<and> 0 < pr_calls s \<or>
      (\<exists>r ds. pr_pc s = Returning r \<and> pr_defers s = ClosePool # ds \<and> pr_pool s = PoolClosing \<and> 0 < pr_conns s)) \<and>
    main_left s \<le> 12 \<and> (\<forall>s'. main_step H s s' \<longrightarrow> main_left s' < main_left s)"
proof (intro conjI allI impI)
  have "pr_defers s = ClosePool # ds \<Longrightarrow> pr_pool s = PoolOpen \<or> pr_pool s = PoolClosing" for ds
    using reaches_resources [OF assms(3)] by (auto simp: resources_ok_def)
  then show "(\<nexists>s'. main_step H s s') \<longleftrightarrow>
      pr_pc s = AtPool \<and> pings (run_wired (ho_getenv H) (ho_pgx H) (ho_platform H)) \<and> \<not> pr_ping s \<and> \<not> pr_signalled s \<or>
      pr_pc s = AtSelect \<and> \<not> pr_signalled s \<and> pr_errCh s = [] \<or>
      pr_pc s = AtShutdown \<and> 0 < pr_requests s \<and> pr_now s < pr_deadline s \<or>
      pr_pc s = AtGracefulStop \<and> 0 < pr_calls s \<or>
      (\<exists>r ds. pr_pc s = Returning r \<and> pr_defers s = ClosePool # ds \<and> pr_pool s = PoolClosing \<and> 0 < pr_conns s)"
    using main_waits_iff [OF assms(1,2), of s] reaches_loaded [OF assms(3)] assms(4)
    by (cases "pr_pc s") (auto split: list.splits deferred.splits)
qed (use reaches_main_left [OF assms(3)] main_step_left in auto)

text \<open>
  C14: a configuration can kill the server. \<open>Load\<close> accepts every positive number of seconds, and
  the reaper of silent runners makes its ticker with that many nanoseconds in 64 bits;
  \<open>time.NewTicker\<close> panics on an interval that is not positive, and nothing on that goroutine
  recovers. The process can die of a reaper's ticker exactly when this product, wrapped around,
  is not positive; then it can die as soon as its servers are started.
\<close>

theorem process_panics_iff:
  assumes "Load (ho_getenv H) = Inr conf" and "run_wired (ho_getenv H) (ho_pgx H) (ho_platform H) = Inr srv" and "\<forall>a. ho_listen H a"
  shows "(\<exists>s. reaches H d s \<and> pr_pc s = Died ByPanic) \<longleftrightarrow> wrap64 (HeartbeatIntervalSeconds conf * Second) \<le> 0"
proof
  assume "\<exists>s. reaches H d s \<and> pr_pc s = Died ByPanic"
  then obtain k where k: "ticker_interval (sv_service srv) k \<le> 0"
    using reaches_panic [of H d] assms(2) by (auto simp: panic_ok_def)
  then have "k = RunnerReaper" by (cases k) (auto simp: jobReaperInterval_def)
  with k wired_service [OF assms(2,1)] show "wrap64 (HeartbeatIntervalSeconds conf * Second) \<le> 0" by simp
next
  assume "wrap64 (HeartbeatIntervalSeconds conf * Second) \<le> 0"
  then have "ticker_interval (sv_service srv) RunnerReaper \<le> 0" using wired_service [OF assms(2,1)] by simp
  with reaches_side [OF reaches_up [OF assms(2,3)] side_step.ticker_panics [where k = RunnerReaper]]
  have "reaches H d ((up d srv)\<lparr>pr_pc := Died ByPanic\<rparr>)" by (simp add: up_def boot_def)
  then show "\<exists>s. reaches H d s \<and> pr_pc s = Died ByPanic" by force
qed

text \<open>
  C2: the jobs table refines the abstract ledger of jobs. The whole process, from its start on
  a database to its exit, with any interleaving of gRPC calls, webhook deliveries, REST
  requests, log streams, reaper ticks, signals and failures, and with other sessions committing
  in between within the ledger, takes the ids and statuses of the job rows through steps of the
  ledger only: a new job enters as queued under a new id, or one job moves along one legal
  transition.
\<close>

theorem process_refines_ledger:
  assumes "reaches H d s"
    and "\<forall>n d. ledger_step\<^sup>*\<^sup>* (job_ledger d) (job_ledger (other (pf_env (ho_platform H)) n d))"
  shows "ledger_step\<^sup>*\<^sup>* (job_ledger d) (job_ledger (db (pr_world s)))"
proof -
  have "ledger.rely (pf_env (ho_platform H))" using assms(2) by (simp add: ledger.rely_def refines_def)
  then show ?thesis using ledger.reaches_related [OF _ assms(1)] by (simp add: refines_def)
qed

text \<open>
  C15: the database stays well formed over the life of the process: keys are unique, references
  resolve, statuses are those of the state machine, a queued job holds no lease, and a leased or
  running one has a runner, a lease, a deadline and a start time.
\<close>

theorem process_keeps_database_ok:
  assumes "reaches H d s" and "\<forall>n d. db_ok d \<longrightarrow> db_ok (other (pf_env (ho_platform H)) n d)" and "db_ok d"
  shows "db_ok (db (pr_world s))"
proof -
  have "ok.rely (pf_env (ho_platform H))" using assms(2) by (simp add: ok.rely_def keeps_ok_def)
  then show ?thesis using ok.reaches_related [OF _ assms(1)] assms(3) by (simp add: keeps_ok_def)
qed

text \<open>
  C12: a stop can take for ever. A runner that keeps one call open (a waiting \<open>AcquireJob\<close>, a
  heartbeat stream) holds \<open>GracefulStop\<close>: for every time there is a run in which that much
  has passed after the shutdown's deadline and the main goroutine still cannot go on.
\<close>

theorem graceful_stop_unbounded:
  assumes "grpc_documented (ho_grpc H)" and "run_wired (ho_getenv H) (ho_pgx H) (ho_platform H) = Inr srv"
    and "\<forall>a. ho_listen H a"
  shows "\<exists>s. reaches H d s \<and> pr_pc s = AtGracefulStop \<and> pr_deadline s + n \<le> pr_now s \<and> (\<nexists>s'. main_step H s s')"
proof -
  let ?s1 = "(up d srv)\<lparr>pr_calls := 1\<rparr>"
  let ?s2 = "?s1\<lparr>pr_signalled := True\<rparr>"
  let ?s3 = "(begin_shutdown ?s2)\<lparr>pr_pc := AtGracefulStop, pr_grpc_stopping := True\<rparr>"
  let ?s4 = "?s3\<lparr>pr_now := pr_now ?s3 + (shutdownTimeout + n)\<rparr>"
  from reaches_side [OF reaches_up [OF assms(2,3)] side_step.call_begins] have "reaches H d ?s1" by (simp add: up_def boot_def)
  from reaches_side [OF this side_step.signal_caught] have "reaches H d ?s2" by (simp add: up_def boot_def)
  from reaches_main [OF this main_step.select_done] have "reaches H d (begin_shutdown ?s2)" by (simp add: up_def boot_def)
  from reaches_main [OF this main_step.http_drained] have "reaches H d ?s3" by (simp add: up_def boot_def begin_shutdown_def)
  from reaches_side [OF this side_step.time_passes] have "reaches H d ?s4" by (simp add: up_def boot_def begin_shutdown_def)
  moreover have "\<nexists>s'. main_step H ?s4 s'"
    using assms(1) by (auto simp: main_step.simps up_def boot_def begin_shutdown_def grpc_documented_def)
  ultimately show ?thesis by (intro exI [of _ ?s4]) (simp add: up_def boot_def begin_shutdown_def)
qed

subsection \<open>A concrete process\<close>

definition sample_host :: "(string, string, unit) host" where
  "sample_host =
     \<lparr>ho_getenv = \<lambda>_. None, ho_pgx = sample_pgx, ho_platform = sample_platform, ho_listen = \<lambda>_. True,
      ho_grpc = \<lparr>gs_Serve_returns = (\<lambda>stopped r. stopped \<or> r \<noteq> None), gs_GracefulStop_returns = (\<lambda>n. n = 0)\<rparr>\<rparr>"

lemma sample_host_ok:
  "grpc_documented (ho_grpc sample_host)" "\<forall>a. ho_listen sample_host a" "ho_platform sample_host = sample_platform"
  "pgx_documented (ho_pgx sample_host)"
  "run_wired (ho_getenv sample_host) (ho_pgx sample_host) (ho_platform sample_host) = Inr sample_process"
  by (simp_all add: sample_host_def grpc_documented_def pgx_documented_def sample_pgx_def sample_wired [unfolded sample_pgx_def])

lemma sample_exits: "\<exists>s. reaches sample_host (db_with sample_jobs) s \<and> pr_pc s = Exited None \<and> pr_pool s = PoolClosed"
  by (rule reaches_exit [OF sample_host_ok(1,4,5,2)])

abbreviation sample_up :: "unit process" where
  "sample_up \<equiv> up (db_with sample_jobs) sample_process"

lemma sample_up_reached: "reaches sample_host (db_with sample_jobs) sample_up"
  by (rule reaches_up [OF sample_host_ok(5,2)])

theorem errCh_never_full_witness:
  "length (pr_errCh (sample_up\<lparr>pr_http := Sending (Some (HTTPServer ''address in use''))\<rparr>)) < errCh_cap"
proof -
  have "side_step sample_host sample_up (sample_up\<lparr>pr_http := Sending (Some (HTTPServer ''address in use''))\<rparr>)"
    by (rule side_step.http_fails) (simp_all add: up_def boot_def)
  from errCh_never_full [OF reaches_side [OF sample_up_reached this]] show ?thesis by fastforce
qed

theorem run_ends_cleanly_witness:
  "\<exists>s. reaches sample_host (db_with sample_jobs) s \<and> pr_pc s = Exited None \<and> pr_pool s = PoolClosed \<and> pr_conns s = 0 \<and>
     (\<forall>s'. process_step sample_host s s' \<longrightarrow> db (pr_world s') = db (pr_world s)) \<and> pr_signalled s \<and> pr_calls s = 0"
proof -
  obtain s where s: "reaches sample_host (db_with sample_jobs) s" "pr_pc s = Exited None" "pr_pool s = PoolClosed"
    using sample_exits by blast
  from run_ends_cleanly [OF sample_host_ok(1,4) s(1)] s show ?thesis by blast
qed

theorem main_waits_only_for_witness: "\<nexists>s'. main_step sample_host sample_up s'"
  using main_waits_only_for [OF sample_host_ok(1,4) sample_up_reached] by (simp add: up_def boot_def)

theorem process_refines_ledger_witness:
  "\<exists>s. reaches sample_host (db_with sample_jobs) s \<and> pr_pc s = Exited None \<and>
     ledger_step\<^sup>*\<^sup>* [(11, ''queued''), (12, ''queued''), (13, ''queued'')] (job_ledger (db (pr_world s)))"
proof -
  obtain s where s: "reaches sample_host (db_with sample_jobs) s" "pr_pc s = Exited None" using sample_exits by blast
  have "job_ledger (db_with sample_jobs) = [(11, ''queued''), (12, ''queued''), (13, ''queued'')]"
    by (simp add: job_ledger_def sample_defs)
  moreover have "ledger_step\<^sup>*\<^sup>* (job_ledger (db_with sample_jobs)) (job_ledger (db (pr_world s)))"
    using process_refines_ledger [OF s(1)] by (simp add: sample_host_ok sample_others)
  ultimately show ?thesis using s by auto
qed

theorem process_keeps_database_ok_witness:
  "\<exists>s. reaches sample_host (db_with sample_jobs) s \<and> pr_pc s = Exited None \<and> db_ok (db (pr_world s))"
  using sample_exits process_keeps_database_ok [of sample_host "db_with sample_jobs"] db_ok_sample
  by (auto simp: sample_host_ok sample_others)

theorem graceful_stop_unbounded_witness:
  "\<exists>s. reaches sample_host (db_with sample_jobs) s \<and> pr_pc s = AtGracefulStop \<and> pr_deadline s + 3600000000 \<le> pr_now s"
  using graceful_stop_unbounded [OF sample_host_ok(1,5,2)] by blast

text \<open>The sample process with an interval of \<open>9223372037\<close> seconds in its environment.\<close>

definition long_config :: Config where
  "long_config = (cfg sample_service)\<lparr>HeartbeatIntervalSeconds := 9223372037\<rparr>"

definition long_host :: "(string, string, unit) host" where
  "long_host = sample_host\<lparr>ho_getenv := env_of long_config\<rparr>"

theorem process_panics_iff_witness:
  "\<exists>s. reaches long_host (db_with sample_jobs) s \<and> pr_pc s = Died ByPanic"
proof -
  have "config_ok long_config"
    by (simp add: long_config_def sample_service_def NewService_def config_ok_def in_int64_def int64_min_def int64_max_def
        defaultHTTPAddr_def defaultGRPCAddr_def defaultDBDSN_def)
  then have load: "Load (ho_getenv long_host) = Inr long_config" by (simp add: long_host_def Load_env_of)
  then obtain srv where srv: "run_wired (ho_getenv long_host) (ho_pgx long_host) (ho_platform long_host) = Inr srv"
    by (auto simp: run_wired_def NewPool_def long_host_def sample_host_def sample_pgx_def Let_def)
  have "wrap64 (HeartbeatIntervalSeconds long_config * Second) \<le> 0"
    by (simp add: long_config_def Second_def) code_simp
  moreover have "\<forall>a. ho_listen long_host a" by (simp add: long_host_def sample_host_def)
  ultimately show ?thesis using process_panics_iff [OF load srv] by blast
qed

end
