(* ===== verification/Spec2Isabelle.thy ===== *)
theory Spec2Isabelle
  imports Lease_Trace Lease_Recovery Runner_Spec Gate_Failure Status_Report Run_Completion
    Commit_Status Gitlab_Client Webhook_Gitlab Api_Roundtrip Log_Delivery Lifecycle
begin

text \<open>
  A verification development of drassi-server (\<open>src/cmd/drassi-server\<close>, \<open>src/internal\<close>), the
  control plane of a CI system. Runs of workflows are planned into jobs, jobs wait in Postgres
  for their needs, runners lease them over gRPC, stream logs back and complete them; the run is
  rolled up and a commit status is posted. Runs come from the REST API and from the webhooks of
  GitHub and GitLab.

  \<^bold>\<open>How the program is modelled.\<close> A handler is a function in the state monad over a
  \<open>world\<close> (\<open>Store_Model\<close>): the database as a record of tables, the waiters of the
  notifier, the log subscribers with their channel buffers, the commit statuses posted, and a
  counter of interactions. Every SQL statement is one atomic step; \<open>other E n\<close> is what the
  other sessions commit before the \<open>n\<close>-th one, and \<open>fault E n\<close> lets it fail, for whatever
  reason the database or the connection has (a lost connection, a context that is done, a text
  with a NUL byte). Where an \<open>ORDER BY\<close> leaves the order of rows open, ties or the collation of
  texts, it is the field \<open>row_order\<close> of the database, which no theorem restricts. So a theorem
  over an arbitrary environment holds under every interleaving of statements, and one about a
  \<open>solo\<close> environment states what a handler does when nobody else commits. Go errors are
  values of sum types, int64 arithmetic wraps (\<open>wrap64\<close>), nil slices are \<open>None\<close>, strings
  are byte lists. gRPC streams are lists of messages with an ending; a log stream meets a list
  of events. Loops that Go bounds only by the data are structural over lists, and the gate's
  fixpoint loop has fuel: \<open>gateRun_returns\<close> shows that one more than the number of job rows is
  enough, and \<open>gateRun_least_fixpoint\<close> states the result for that fuel.

  \<^bold>\<open>Theories and the code they model.\<close>
  \<^item> \<open>Prelude\<close>: nil-able slices, tables and \<open>UPDATE ... WHERE\<close>, the rules of state
    relations. \<open>Go_Strings\<close>, \<open>Utf8\<close>, \<open>Json\<close>, \<open>Json_Roundtrip\<close>, \<open>Base64\<close>, \<open>Sha256\<close>,
    \<open>Go_Time\<close>, \<open>Http\<close>, \<open>Http_Server\<close>: the parts of Go's standard library the sources use
    (strings, strconv, unicode/utf8, encoding/json with Go's lexical rules and depth limit,
    base64, hex, SHA-256 and HMAC, RFC 3339, URL parsing and escaping, requests and replies).
  \<^item> \<open>Store_Model\<close>, \<open>Job_Store\<close>, \<open>Run_Store\<close>, \<open>Log_Store\<close>: \<open>internal/store\<close> and
    \<open>internal/logstore\<close>, one definition per method, with the constraints of the migrations.
  \<^item> \<open>Stores\<close>: the interface. The locale \<open>world_preorder\<close> has the rely/guarantee rules of
    the combinators, for any preorder on worlds, \<open>db_preorder\<close> those of statements. Then
    \<open>call_rel\<close> (every statement of the RPCs but the roll-up of a run), \<open>dispatch_rel\<close> (that one
    too) and \<open>store_rel\<close> (all of them) fix a relation the statements keep, and \<open>job_row_rel\<close>
    gives one from a relation on rows. Handlers are proved to keep such a relation once, inside
    the locales, each under the weakest contract it needs.
  \<^item> \<open>Job_Machine\<close>, \<open>Job_Ledger\<close>, \<open>Gate_Spec\<close>, \<open>Queue_Spec\<close>: the interpretations. Rows move
    along the state machine, planned columns never change, the database stays well formed, the
    jobs table refines an abstract ledger, the number of rows is bounded, interference is calm.
    \<open>Gate_Failure\<close> and \<open>Log_Delivery\<close> add that a run keeps its row, and that the channels of
    log readers keep what they hold (\<open>channel_invariant\<close>).
  \<^item> \<open>Config\<close>: \<open>internal/config\<close>. \<open>Github_Client\<close>, \<open>Github_Api\<close>, \<open>Commit_Status\<close>:
    \<open>internal/github\<close>. \<open>Gitlab_Client\<close>: \<open>internal/gitlab\<close>. The network is a function from
    requests to responses.
  \<^item> \<open>Dispatch_Base\<close>, \<open>Dispatch_Gate\<close>, \<open>Dispatch_Queue\<close>, \<open>Dispatch_Service\<close>:
    \<open>internal/dispatch\<close>, with \<open>Gate_Spec\<close> (skipping and roll-up), \<open>Queue_Spec\<close> (leasing,
    lease messages, lease durations, the reaper), \<open>Queue_Progress\<close> (when a lease is granted),
    \<open>Service_Spec\<close> (authentication), \<open>Completion_Spec\<close>, \<open>Runner_Spec\<close> (registration,
    heartbeats, log streams), \<open>Lease_Trace\<close> (interleavings of statements) and
    \<open>Lease_Recovery\<close> (the reaper in time, and what becomes of a lost runner's jobs),
    \<open>Gate_Failure\<close> (a statement that fails behind a completion: an execution agrees with the
    undisturbed one up to its fault) and \<open>Status_Report\<close> (the statuses the wired
    server sends for the runs of one commit).
  \<^item> \<open>Matrix_Cell\<close>, \<open>Planner\<close>: \<open>internal/planner\<close> over a record of the functions of the package
    \<open>act\<close>. The encoding of a matrix cell is canonical and is read back as the cell.
  \<^item> \<open>Run_Progress\<close>, \<open>Run_Completion\<close>: the REST API, the planner and the RPCs composed. A
    runner's rounds of \<open>AcquireJob\<close> and \<open>CompleteJob\<close>, from the request that creates a run
    to the one that finds it finished. \<open>Log_Delivery\<close>: the runner's side of a log composed with
    the reader's, from \<open>StreamLogs\<close> to the events a client reads.
  \<^item> \<open>Webhook_Github\<close>, \<open>Webhook_Gitlab\<close>: \<open>internal/webhook\<close>. \<open>Api_Runs\<close>, \<open>Api_Logs\<close>:
    \<open>internal/api\<close>, with \<open>Api_Roundtrip\<close> (what a client reads from the lists) and
    \<open>Log_Stream\<close> (what a client of the log stream gets).
  \<^item> \<open>Server\<close>: \<open>cmd/drassi-server/main.go\<close> and \<open>internal/store/db.go\<close>: start-up, wiring,
    routes, and the services at work as sequences of calls, requests and ticks.
  \<^item> \<open>Lifecycle\<close>: the rest of \<open>main.go\<close> and \<open>internal/planner/hook.go\<close>: the process as step
    relations of the main goroutine and of what runs beside it, from the package initialisers
    to the exit, with the ping of the database, the connections in use, the reapers with their
    tickers (told to stop, but not waited for), the deferred calls, the error channel, signals,
    the bounded shutdown of the HTTP server and the unbounded ones of the gRPC server and the
    pool.
  \<^item> \<open>Sample\<close>: the concrete database the witnesses evaluate on.

  \<^bold>\<open>What is shown.\<close>
  \<^item> Of the process as a whole: in every reachable state the jobs table is a refinement of the
    ledger of jobs (\<open>process_refines_ledger\<close>), so that jobs follow the state machine, and the
    database is well formed; jobs keep their plan; no statement runs once the pool is closed, the
    process gives back what it holds, exits with status 0 only after a signal, and waits at five
    places only (\<open>main_waits_only_for\<close>); webhooks nobody configured do nothing.
  \<^item> Of the way of a run: a run asked for over REST is brought to its end by a runner that
    acquires and completes, within as many rounds as it has jobs, and reported finished
    (\<open>created_run_reported_finished\<close>); what the runner logs, without carriage returns, is what a
    reader gets (\<open>streamed_log_read_back\<close>); a lease nobody renews is taken back within one reaper interval
    after its deadline.
  \<^item> Of scheduling: a job is leased at most once per lease period, never with unsatisfied needs;
    an attempt succeeds when its batch has a ready job, and can starve when it has none; the
    gate computes the least set of skipped jobs, terminates and is idempotent; completions,
    heartbeats, registration, log retries and the reaper do exactly what they should.
  \<^item> Of the edges: only registrations, which need no token, authenticated calls, signed pushes of
    the allow-listed repository and tokens of the allow-listed project have an effect; a
    registration adds a runner, a push the planned run and its jobs; log streams are exact, ordered and decodable; clients address what they were asked
    for; replies do not reveal tokens.
  \<^item> Of limits: where durations overflow, waiters accumulate, repeated completions diverge, the
    queue starves, running jobs of a lost runner stay, a failed gate strands a run, the log of a
    second lease is hidden from a reader of the first, the runs of a commit share one check, a long
    heartbeat interval kills the process, a shutdown hangs on an open call, refs and carriage returns are mangled, theorems state what
    the code does.

  \<^bold>\<open>Not modelled.\<close> Generated protobuf code; path matching of the router \<open>chi\<close>; the intervals
  of the poll ticker and of keep-alive comments, whose ticks are events; time-outs of HTTP
  clients, which are failures of the network; log lines and the texts of wrapped errors, unless
  a reply contains them. Go interfaces that list the methods of the stores and clients have no
  definition of their own. These, package and import declarations, comments and constructors
  that only store their arguments are the lines of the sources without a definition. The
  packages \<open>act\<close>, \<open>workflowpattern\<close>, \<open>uuid\<close>, \<open>pgxpool\<close> and \<open>grpc\<close> are parameters.
\<close>

end
